theory Spec2Isabelle
  imports Complex_Main "HOL-Library.Sublist" "HOL-Library.AList"
begin

section \<open>The smart queue service (src/services/smartQueueService.js)\<close>

text \<open>
  The service is one object: its fields, the three Redis lists, the per-user hashes, the
  status keys and the failure counter form one state record, and every method is a
  function from the state to the new state (and the returned value, when it has one).
  What the outside world decides is a parameter of the method: the reading of the clock
  (\<open>Date.now()\<close>, milliseconds as \<open>int\<close>), the answer of the remote worker to a
  submission or a status poll, and whether the database update succeeds. The Redis store
  is taken to answer every command, and to execute the commands of the service in the
  order the service issues them.

  The methods are \<open>async\<close>: a call runs until its next \<open>await\<close> and is resumed later, and
  other callbacks may run in between. The dispatcher tick, \<open>processQueue\<close> with the
  \<open>startJobProcessing\<close> it calls, is modelled both ways: as one function (the run of the
  call when nothing else is scheduled before it returns), and in the stretches between
  its suspension points, with the suspended calls kept in the state. The other methods
  are modelled as one function each.
\<close>

subsection \<open>Data\<close>

datatype priority = HIGH | NORMAL

datatype breaker = CLOSED | OPEN | HALF_OPEN

datatype jsval = JStr string | JNum int

text \<open>
  A job object. The source reads optional fields through \<open>x || default\<close> and \<open>!x\<close>, so a
  missing, \<open>null\<close> or empty \<open>separationId\<close>, \<open>userId\<close>, \<open>filePath\<close>, \<open>publicUrl\<close> is the
  empty string, and a missing \<open>fileSize\<close> or \<open>retryCount\<close> is 0 (the falsy value the
  source replaces by the same default). Fields that are set and deleted are options.
\<close>

record job =
  separationId :: string
  userId :: string
  storageType :: string
  fileSize :: nat
  filePath :: string
  publicUrl :: string
  priority :: "priority option"
  addedAt :: "int option"
  retryCount :: nat
  estimatedTime :: "nat option"
  lastError :: "string option"
  retryAt :: "int option"

text \<open>
  A call of \<open>processQueue\<close> that waits at an \<open>await\<close>: for the reply to its \<open>RPOP\<close> (the
  store has executed the command, the reply is what the call will read), for the first
  status write of \<open>startJobProcessing\<close>, or for \<open>runpodService.processAsynchronously\<close>.
\<close>

datatype suspended = AwaitPop "job option" | AwaitStatus job | AwaitSubmit job

text \<open>An entry of the \<open>processingJobs\<close> map: the job spread, plus the tracking fields.\<close>

record pjob =
  pj :: job
  startedAt :: int
  pstatus :: string
  runpodJobId :: "string option"
  runpodSubmittedAt :: "int option"

record metrics =
  totalProcessed :: nat
  totalFailed :: nat
  avgProcessingTime :: rat
  queueFullRejections :: nat
  runpodRateLimitHits :: nat
  circuitBreakerTrips :: nat
  peakConcurrency :: nat

text \<open>
  The Redis hash \<open>user:<id>\<close>. A field that is absent reads as 0 (\<open>parseInt(x || '0')\<close>,
  and \<open>HINCRBY\<close> starts from 0), so the hash is the three integers.
\<close>

record user_limits =
  concurrent :: int
  hourly :: int
  lastHourReset :: int

record status_record =
  st_separationId :: string
  status :: string
  updatedAt :: int
  details :: "(string \<times> jsval) list"

text \<open>An error object as the service inspects it: message, \<open>code\<close>, \<open>response.status\<close>.\<close>

record js_error =
  message :: string
  code :: "string option"
  responseStatus :: "int option"

record queue_state =
  RUNPOD_RATE_LIMIT :: int
  MAX_CONCURRENT_JOBS :: int
  PRIORITY_FILE_LIMIT :: int
  MAX_QUEUE_SIZE :: int
  processingJobs :: "(string \<times> pjob) list"
  runpodRequestTimes :: "int list"
  circuitBreakerState :: breaker
  metrics :: metrics
  queue_files :: "job list"
  queue_urls :: "job list"
  queue_retry :: "job list"
  users :: "string \<Rightarrow> user_limits"
  statuses :: "string \<rightharpoonup> status_record"
  runpod_failures :: nat
  halfOpenTimers :: "int list"
  immediates :: "priority list"
  suspended :: "suspended list"

text \<open>
  \<open>processingJobs\<close> is a JavaScript \<open>Map\<close>: an association list in insertion order, where
  \<open>set\<close> on a present key replaces the value in place (\<open>AList.update\<close>) and \<open>delete\<close>
  removes the key (\<open>AList.delete\<close>). A Redis list is a list whose head is the left end:
  \<open>LPUSH\<close> conses, \<open>RPOP\<close> takes the last element. \<open>halfOpenTimers\<close> holds the due
  times of the pending \<open>setTimeout\<close> callbacks of the circuit breaker, \<open>immediates\<close> the
  pending \<open>setImmediate\<close> dispatcher ticks, \<open>suspended\<close> the dispatcher calls that wait at
  an \<open>await\<close>.
\<close>

definition constructor_state :: queue_state where
  "constructor_state =
     \<lparr>RUNPOD_RATE_LIMIT = 8, MAX_CONCURRENT_JOBS = 5, PRIORITY_FILE_LIMIT = 3,
      MAX_QUEUE_SIZE = 50, processingJobs = [], runpodRequestTimes = [],
      circuitBreakerState = CLOSED,
      metrics = \<lparr>totalProcessed = 0, totalFailed = 0, avgProcessingTime = 120,
                 queueFullRejections = 0, runpodRateLimitHits = 0,
                 circuitBreakerTrips = 0, peakConcurrency = 0\<rparr>,
      queue_files = [], queue_urls = [], queue_retry = [],
      users = (\<lambda>u. \<lparr>concurrent = 0, hourly = 0, lastHourReset = 0\<rparr>),
      statuses = Map.empty, runpod_failures = 0, halfOpenTimers = [], immediates = [],
      suspended = []\<rparr>"

subsection \<open>Redis list primitives\<close>

definition rpop :: "'a list \<Rightarrow> 'a option \<times> 'a list" where
  "rpop xs = (if xs = [] then (None, []) else (Some (last xs), butlast xs))"

definition lpush :: "'a \<Rightarrow> 'a list \<Rightarrow> 'a list" where
  "lpush x xs = x # xs"

subsection \<open>Status management\<close>

definition updateJobStatus ::
  "string \<Rightarrow> string \<Rightarrow> (string \<times> jsval) list \<Rightarrow> int \<Rightarrow> queue_state \<Rightarrow> queue_state" where
  "updateJobStatus sid st additionalData now s =
     s\<lparr>statuses := (statuses s)(sid \<mapsto>
        \<lparr>st_separationId = sid, status = st, updatedAt = now, details = additionalData\<rparr>)\<rparr>"

subsection \<open>Utility functions\<close>

definition getTotalQueueSize :: "queue_state \<Rightarrow> nat" where
  "getTotalQueueSize s = length (queue_files s) + length (queue_urls s) + length (queue_retry s)"

definition estimateProcessingTime :: "job \<Rightarrow> nat" where
  "estimateProcessingTime jobData =
     (let fs = fileSize jobData in
      if fs < 10 * 1024 * 1024 then 120
      else if fs < 50 * 1024 * 1024 then 240
      else if fs < 200 * 1024 * 1024 then 480
      else 720)"

definition getTimeoutForJob :: "job \<Rightarrow> nat" where
  "getTimeoutForJob jobData =
     (let fs = fileSize jobData in
      if fs < 10 * 1024 * 1024 then 300000
      else if fs < 50 * 1024 * 1024 then 600000
      else if fs < 200 * 1024 * 1024 then 1200000
      else 1800000)"

definition concurrentSlots :: "priority \<Rightarrow> queue_state \<Rightarrow> int" where
  "concurrentSlots prio s =
     (if prio = HIGH then PRIORITY_FILE_LIMIT s
      else MAX_CONCURRENT_JOBS s - PRIORITY_FILE_LIMIT s)"

definition currentProcessing :: "priority \<Rightarrow> queue_state \<Rightarrow> nat" where
  "currentProcessing prio s =
     length (filter (\<lambda>p. priority (pj p) = Some prio) (map snd (processingJobs s)))"

definition availableSlots :: "priority \<Rightarrow> queue_state \<Rightarrow> int" where
  "availableSlots prio s = max 1 (concurrentSlots prio s - int (currentProcessing prio s))"

definition calculateEstimatedWait :: "nat \<Rightarrow> priority \<Rightarrow> queue_state \<Rightarrow> rat" where
  "calculateEstimatedWait queuePosition prio s =
     of_int \<lceil>(of_nat queuePosition :: rat) / of_int (availableSlots prio s)\<rceil>
       * avgProcessingTime (metrics s)"

subsection \<open>Rate limiting and capacity checks\<close>

definition canProcessMoreJobs :: "priority \<Rightarrow> queue_state \<Rightarrow> bool" where
  "canProcessMoreJobs prio s =
     (if int (length (processingJobs s)) \<ge> MAX_CONCURRENT_JOBS s then False
      else if prio = HIGH then int (currentProcessing HIGH s) < PRIORITY_FILE_LIMIT s
      else True)"

definition canMakeRunpodRequest :: "int \<Rightarrow> queue_state \<Rightarrow> bool \<times> queue_state" where
  "canMakeRunpodRequest now s =
     (let oneMinuteAgo = now - 60000;
          s' = s\<lparr>runpodRequestTimes := filter (\<lambda>t. t > oneMinuteAgo) (runpodRequestTimes s)\<rparr>
      in (int (length (runpodRequestTimes s')) < RUNPOD_RATE_LIMIT s', s'))"

definition recordRunpodRequest :: "int \<Rightarrow> queue_state \<Rightarrow> queue_state" where
  "recordRunpodRequest now s = s\<lparr>runpodRequestTimes := runpodRequestTimes s @ [now]\<rparr>"

definition resetRateLimits :: "int \<Rightarrow> queue_state \<Rightarrow> queue_state" where
  "resetRateLimits now s =
     (let oneMinuteAgo = now - 60000
      in s\<lparr>runpodRequestTimes := filter (\<lambda>t. t > oneMinuteAgo) (runpodRequestTimes s)\<rparr>)"

subsection \<open>User rate limiting\<close>

definition checkUserLimits :: "string \<Rightarrow> int \<Rightarrow> queue_state \<Rightarrow> bool \<times> queue_state" where
  "checkUserLimits uid now s =
     (let userData = users s uid in
      if concurrent userData \<ge> 2 then (False, s)
      else
        let oneHourAgo = now - 3600000 in
        if lastHourReset userData < oneHourAgo
        then (True, s\<lparr>users := (users s)(uid := userData\<lparr>hourly := 0, lastHourReset := now\<rparr>)\<rparr>)
        else if hourly userData \<ge> 5 then (False, s)
        else (True, s))"

definition updateUserLimits :: "string \<Rightarrow> queue_state \<Rightarrow> queue_state" where
  "updateUserLimits uid s =
     s\<lparr>users := (users s)(uid := (users s uid)
         \<lparr>concurrent := concurrent (users s uid) + 1, hourly := hourly (users s uid) + 1\<rparr>)\<rparr>"

definition decrementUserConcurrent :: "string \<Rightarrow> queue_state \<Rightarrow> queue_state" where
  "decrementUserConcurrent uid s =
     (if uid \<noteq> [] then
        s\<lparr>users := (users s)(uid := (users s uid)\<lparr>concurrent := concurrent (users s uid) - 1\<rparr>)\<rparr>
      else s)"

subsection \<open>Circuit breaker logic\<close>

definition isServiceError :: "js_error \<Rightarrow> bool" where
  "isServiceError err =
     ((case responseStatus err of Some c \<Rightarrow> c \<ge> 500 | None \<Rightarrow> False)
      \<or> code err = Some ''ECONNRESET'' \<or> code err = Some ''ETIMEDOUT'')"

definition handleRunpodError :: "js_error \<Rightarrow> int \<Rightarrow> queue_state \<Rightarrow> queue_state" where
  "handleRunpodError err now s =
     (if isServiceError err then
        let failures = runpod_failures s + 1;
            s1 = s\<lparr>runpod_failures := failures\<rparr>
        in if failures \<ge> 5 then
             s1\<lparr>circuitBreakerState := OPEN,
                metrics := (metrics s1)\<lparr>circuitBreakerTrips := circuitBreakerTrips (metrics s1) + 1\<rparr>,
                halfOpenTimers := halfOpenTimers s1 @ [now + 300000]\<rparr>
           else s1
      else s)"

text \<open>The callback of \<open>setTimeout\<close>: the oldest pending timer, once due, sets HALF_OPEN.\<close>

definition halfOpenTimerFires :: "int \<Rightarrow> queue_state \<Rightarrow> queue_state" where
  "halfOpenTimerFires now s =
     (case halfOpenTimers s of
        [] \<Rightarrow> s
      | t # ts \<Rightarrow> if t \<le> now then s\<lparr>circuitBreakerState := HALF_OPEN, halfOpenTimers := ts\<rparr> else s)"

subsection \<open>Retry logic\<close>

text \<open>\<open>String.prototype.includes\<close>: the second string occurs as a contiguous part of the first.\<close>

fun str_includes :: "string \<Rightarrow> string \<Rightarrow> bool" where
  "str_includes [] t = (t = [])"
| "str_includes (c # cs) t = (prefix t (c # cs) \<or> str_includes cs t)"

definition shouldRetryJob :: "job \<Rightarrow> js_error \<Rightarrow> bool" where
  "shouldRetryJob jobData err =
     (if retryCount jobData \<ge> 3 then False
      else list_ex (\<lambda>e. str_includes (message err) e) [''ECONNRESET'', ''ETIMEDOUT'', ''ENOTFOUND'']
           \<or> (case responseStatus err of Some c \<Rightarrow> c \<ge> 500 | None \<Rightarrow> False))"

text \<open>\<open>retryDelay\<close> of \<open>addJobToRetryQueue\<close>, as a function of the incremented count.\<close>

definition retryDelay :: "nat \<Rightarrow> int" where
  "retryDelay retryCount' = 60000 * 2 ^ (retryCount' - 1)"

definition addJobToRetryQueue :: "job \<Rightarrow> string \<Rightarrow> int \<Rightarrow> queue_state \<Rightarrow> queue_state" where
  "addJobToRetryQueue jobData errorMessage now s =
     (let retryCount' = retryCount jobData + 1;
          delay = retryDelay retryCount';
          retryJobData = jobData\<lparr>retryCount := retryCount', lastError := Some errorMessage,
                                 retryAt := Some (now + delay)\<rparr>;
          s1 = s\<lparr>queue_retry := lpush retryJobData (queue_retry s)\<rparr>
      in updateJobStatus (separationId jobData) ''RETRY_SCHEDULED''
           [(''retryCount'', JNum (int retryCount')),
            (''retryInMinutes'', JNum \<lceil>(of_int delay :: rat) / 60000\<rceil>),
            (''lastError'', JStr errorMessage)] now s1)"

subsection \<open>Dispatch\<close>

text \<open>
  What the environment decides during one \<open>startJobProcessing\<close>: the clock reading, the
  answers of the remote worker to the successive POST requests of
  \<open>runpodService.processAsynchronously\<close> (a response body with its job id, empty when the
  body has none, or the error the HTTP client rejects with), and whether
  \<open>Separation.findByIdAndUpdate\<close> throws.
\<close>

datatype submit_result = Accepted string | Threw js_error

datatype remote_answer = Responded string | Rejected js_error

record dispatch_env =
  startTime :: int
  answers :: "remote_answer list"
  dbError :: "js_error option"

text \<open>
  \<open>runpodService.processAsynchronously\<close>. It throws by itself when there is no audio URL
  or when the response has no job id; it turns a 401 into an error of its own; it posts
  again after every 5xx, without bound; every other error is thrown on. The recursion is
  on the answers the worker gives: when they run out before the loop ends, the call has
  not returned (\<open>None\<close>).
\<close>

fun processAsynchronously :: "string \<Rightarrow> nat \<Rightarrow> remote_answer list \<Rightarrow> submit_result option" where
  "processAsynchronously audioUrl timeout [] =
     (if audioUrl = [] then
        Some (Threw \<lparr>message = ''Audio URL is required'', code = None, responseStatus = None\<rparr>)
      else None)"
| "processAsynchronously audioUrl timeout (a # rest) =
     (if audioUrl = [] then
        Some (Threw \<lparr>message = ''Audio URL is required'', code = None, responseStatus = None\<rparr>)
      else
        case a of
          Responded rid \<Rightarrow>
            if rid = [] then
              Some (Threw \<lparr>message = ''Invalid response from RunPod API: Missing job ID'',
                           code = None, responseStatus = None\<rparr>)
            else Some (Accepted rid)
        | Rejected err \<Rightarrow>
            if responseStatus err = Some 401 then
              Some (Threw \<lparr>message = ''RunPod API authentication failed. Please check your API key configuration.'',
                           code = None, responseStatus = None\<rparr>)
            else if (case responseStatus err of Some c \<Rightarrow> c \<ge> 500 | None \<Rightarrow> False) then
              processAsynchronously audioUrl timeout rest
            else Some (Threw err))"

text \<open>The call \<open>startJobProcessing\<close> makes for a job.\<close>

definition submission :: "job \<Rightarrow> dispatch_env \<Rightarrow> submit_result option" where
  "submission jobData env =
     processAsynchronously
       (if filePath jobData \<noteq> [] then filePath jobData else publicUrl jobData)
       (getTimeoutForJob jobData) (answers env)"

definition startJobProcessing_catch :: "job \<Rightarrow> js_error \<Rightarrow> int \<Rightarrow> queue_state \<Rightarrow> queue_state" where
  "startJobProcessing_catch jobData err now s =
     (let s1 = handleRunpodError err now s;
          s2 = s1\<lparr>processingJobs := AList.delete (separationId jobData) (processingJobs s1)\<rparr>
      in if shouldRetryJob jobData err then addJobToRetryQueue jobData (message err) now s2
         else updateJobStatus (separationId jobData) ''FAILED''
                [(''error'', JStr (message err)), (''stage'', JStr ''runpod_submission'')] now s2)"

text \<open>
  \<open>startJobProcessing\<close> in its blocks, which are also the stretches between its
  suspension points: the part of the \<open>try\<close> body up to the first \<open>await\<close> (tracker entry,
  peak concurrency, first \<open>PROCESSING\<close> status); the rate-limit record that follows it;
  the branch taken when the remote worker returned a job id; and the \<open>catch\<close> block above.
\<close>

definition startJobProcessing_begin :: "job \<Rightarrow> int \<Rightarrow> queue_state \<Rightarrow> queue_state" where
  "startJobProcessing_begin jobData now s =
     (let sid = separationId jobData;
          s1 = s\<lparr>processingJobs := AList.update sid
                  \<lparr>pj = jobData, startedAt = now, pstatus = ''PROCESSING'',
                   runpodJobId = None, runpodSubmittedAt = None\<rparr> (processingJobs s)\<rparr>;
          s2 = s1\<lparr>metrics := (metrics s1)\<lparr>peakConcurrency :=
                  max (peakConcurrency (metrics s1)) (length (processingJobs s1))\<rparr>\<rparr>
      in updateJobStatus sid ''PROCESSING''
           [(''message'', JStr ''Submitting to audio separation service...''),
            (''startedAt'', JNum now), (''progress'', JNum 10)] now s2)"

definition startJobProcessing_track :: "job \<Rightarrow> int \<Rightarrow> queue_state \<Rightarrow> queue_state" where
  "startJobProcessing_track jobData now s =
     recordRunpodRequest now (startJobProcessing_begin jobData now s)"

definition startJobProcessing_accepted ::
  "job \<Rightarrow> string \<Rightarrow> int \<Rightarrow> js_error option \<Rightarrow> queue_state \<Rightarrow> queue_state" where
  "startJobProcessing_accepted jobData rid now dbErr s4 =
     (let sid = separationId jobData;
          s5 = (case map_of (processingJobs s4) sid of
                  Some processingJob \<Rightarrow>
                    s4\<lparr>processingJobs := AList.update sid
                         (processingJob\<lparr>runpodJobId := Some rid,
                                        runpodSubmittedAt := Some now\<rparr>)
                         (processingJobs s4)\<rparr>
                | None \<Rightarrow> s4)
      in case dbErr of
           Some err \<Rightarrow> startJobProcessing_catch jobData err now s5
         | None \<Rightarrow>
             let s6 = updateJobStatus sid ''PROCESSING''
                        [(''message'', JStr ''Audio separation in progress...''),
                         (''runpodJobId'', JStr rid), (''progress'', JNum 25)] now s5
             in if circuitBreakerState s6 = HALF_OPEN
                then s6\<lparr>circuitBreakerState := CLOSED\<rparr> else s6)"

text \<open>What \<open>startJobProcessing\<close> does once the submission has returned, if it has.\<close>

definition startJobProcessing_finish ::
  "job \<Rightarrow> int \<Rightarrow> submit_result option \<Rightarrow> js_error option \<Rightarrow> queue_state \<Rightarrow> queue_state" where
  "startJobProcessing_finish jobData now outcome dbErr s4 =
     (case outcome of
        None \<Rightarrow> s4
      | Some (Accepted rid) \<Rightarrow>
          if rid \<noteq> [] then startJobProcessing_accepted jobData rid now dbErr s4
          else startJobProcessing_catch jobData
                 \<lparr>message = ''Failed to get valid response from RunPod'',
                  code = None, responseStatus = None\<rparr> now s4
      | Some (Threw err) \<Rightarrow> startJobProcessing_catch jobData err now s4)"

definition startJobProcessing :: "job \<Rightarrow> dispatch_env \<Rightarrow> queue_state \<Rightarrow> queue_state" where
  "startJobProcessing jobData env s =
     (let now = startTime env;
          s4 = startJobProcessing_track jobData now s
      in startJobProcessing_finish jobData now (submission jobData env) (dbError env) s4)"

definition processQueue :: "priority \<Rightarrow> int \<Rightarrow> dispatch_env \<Rightarrow> queue_state \<Rightarrow> queue_state" where
  "processQueue prio now env s =
     (if \<not> canProcessMoreJobs prio s then s
      else
        let (ok, s1) = canMakeRunpodRequest now s in
        if \<not> ok then
          s1\<lparr>metrics := (metrics s1)\<lparr>runpodRateLimitHits := runpodRateLimitHits (metrics s1) + 1\<rparr>\<rparr>
        else if prio = HIGH then
          (case rpop (queue_files s1) of
             (None, _) \<Rightarrow> s1
           | (Some job, rest) \<Rightarrow> startJobProcessing job env (s1\<lparr>queue_files := rest\<rparr>))
        else
          (case rpop (queue_urls s1) of
             (None, _) \<Rightarrow> s1
           | (Some job, rest) \<Rightarrow> startJobProcessing job env (s1\<lparr>queue_urls := rest\<rparr>)))"

text \<open>
  The same call in the stretches between its suspension points. \<open>processQueue_enter\<close> is
  \<open>processQueue\<close> up to \<open>await this.redis.rpop\<close>: the two checks, and the \<open>RPOP\<close> handed to
  the store; the call is then suspended with the reply it will read. \<open>resume\<close> runs a
  suspended call up to its next \<open>await\<close>, or to its end: from the reply of the \<open>RPOP\<close> to
  \<open>await this.updateJobStatus\<close>, from there over \<open>recordRunpodRequest\<close> to
  \<open>await runpodService.processAsynchronously\<close>, and from there, once the submission has
  returned, to the end of \<open>startJobProcessing\<close>. It returns the call if it is suspended
  again. The clock reading of a stretch is \<open>startTime\<close> of its environment.
\<close>

definition processQueue_enter :: "priority \<Rightarrow> int \<Rightarrow> queue_state \<Rightarrow> queue_state" where
  "processQueue_enter prio now s =
     (if \<not> canProcessMoreJobs prio s then s
      else
        let (ok, s1) = canMakeRunpodRequest now s in
        if \<not> ok then
          s1\<lparr>metrics := (metrics s1)\<lparr>runpodRateLimitHits := runpodRateLimitHits (metrics s1) + 1\<rparr>\<rparr>
        else if prio = HIGH then
          (case rpop (queue_files s1) of
             (reply, rest) \<Rightarrow>
               s1\<lparr>queue_files := rest, suspended := suspended s1 @ [AwaitPop reply]\<rparr>)
        else
          (case rpop (queue_urls s1) of
             (reply, rest) \<Rightarrow>
               s1\<lparr>queue_urls := rest, suspended := suspended s1 @ [AwaitPop reply]\<rparr>))"

fun resume :: "suspended \<Rightarrow> dispatch_env \<Rightarrow> queue_state \<Rightarrow> suspended option \<times> queue_state" where
  "resume (AwaitPop None) env s = (None, s)"
| "resume (AwaitPop (Some jobData)) env s =
     (Some (AwaitStatus jobData), startJobProcessing_begin jobData (startTime env) s)"
| "resume (AwaitStatus jobData) env s =
     (Some (AwaitSubmit jobData), recordRunpodRequest (startTime env) s)"
| "resume (AwaitSubmit jobData) env s =
     (case submission jobData env of
        None \<Rightarrow> (Some (AwaitSubmit jobData), s)
      | Some r \<Rightarrow>
          (None, startJobProcessing_finish jobData (startTime env) (Some r) (dbError env) s))"

text \<open>The call at position \<open>k\<close> of \<open>suspended\<close> is resumed.\<close>

definition resume_at :: "nat \<Rightarrow> dispatch_env \<Rightarrow> queue_state \<Rightarrow> queue_state" where
  "resume_at k env s =
     (if k < length (suspended s) then
        (case resume (suspended s ! k) env s of
           (None, s') \<Rightarrow> s'\<lparr>suspended := take k (suspended s) @ drop (Suc k) (suspended s)\<rparr>
         | (Some call, s') \<Rightarrow> s'\<lparr>suspended := (suspended s)[k := call]\<rparr>)
      else s)"

subsection \<open>Admission\<close>

definition priority_name :: "priority \<Rightarrow> string" where
  "priority_name p = (case p of HIGH \<Rightarrow> ''HIGH'' | NORMAL \<Rightarrow> ''NORMAL'')"

text \<open>
  The accepted path of \<open>addJob\<close> (from "Determine priority and queue" to the
  \<open>setImmediate\<close> trigger), for the owner \<open>uid\<close> the checks have computed.
\<close>

definition enqueueJob :: "job \<Rightarrow> string \<Rightarrow> int \<Rightarrow> queue_state \<Rightarrow> queue_state" where
  "enqueueJob jobData uid now s1 =
     (let isFileUpload = (storageType jobData = ''file'' \<or> storageType jobData = ''local'');
          prio = (if isFileUpload then HIGH else NORMAL);
          enhancedJobData = jobData\<lparr>priority := Some prio, addedAt := Some now,
                                    retryCount := 0, userId := uid,
                                    estimatedTime := Some (estimateProcessingTime jobData)\<rparr>;
          s2 = (if isFileUpload
                then s1\<lparr>queue_files := lpush enhancedJobData (queue_files s1)\<rparr>
                else s1\<lparr>queue_urls := lpush enhancedJobData (queue_urls s1)\<rparr>);
          s3 = updateUserLimits uid s2;
          queuePosition = (if isFileUpload then length (queue_files s3)
                           else length (queue_urls s3));
          estimatedWait = calculateEstimatedWait queuePosition prio s3;
          s4 = updateJobStatus (separationId jobData) ''QUEUED''
                 [(''priority'', JStr (priority_name prio)),
                  (''queuePosition'', JNum (int queuePosition)),
                  (''estimatedWaitMinutes'', JNum \<lceil>estimatedWait / 60\<rceil>),
                  (''userId'', JStr uid)] now s3
      in if int (length (processingJobs s4)) < MAX_CONCURRENT_JOBS s4
         then s4\<lparr>immediates := immediates s4 @ [prio]\<rparr> else s4)"

definition addJob :: "job \<Rightarrow> int \<Rightarrow> queue_state \<Rightarrow> bool \<times> queue_state" where
  "addJob jobData now s =
     (if separationId jobData = [] then
        (False, updateJobStatus (separationId jobData) ''QUEUE_ERROR''
                  [(''error'', JStr ''Invalid job data: separationId is required'')] now s)
      else
        let uid = (if userId jobData \<noteq> [] then userId jobData else ''unknown'');
            (ok, s1) = checkUserLimits uid now s
        in if \<not> ok then
             (False, updateJobStatus (separationId jobData) ''RATE_LIMITED''
                       [(''message'', JStr ''Rate limit exceeded. Max 2 concurrent jobs, 5 per hour.''),
                        (''userId'', JStr uid)] now s1)
           else if circuitBreakerState s1 = OPEN then
             (False, updateJobStatus (separationId jobData) ''SERVICE_UNAVAILABLE''
                       [(''message'', JStr ''Service temporarily unavailable due to high load. Please try again in a few minutes.'')]
                       now s1)
           else
             let currentQueueSize = getTotalQueueSize s1 in
             if int currentQueueSize \<ge> MAX_QUEUE_SIZE s1 then
               (let s2 = s1\<lparr>metrics := (metrics s1)\<lparr>queueFullRejections :=
                              queueFullRejections (metrics s1) + 1\<rparr>\<rparr>
                in (False, updateJobStatus (separationId jobData) ''QUEUE_FULL''
                             [(''message'', JStr ''Server is at capacity. Please try again in a few minutes.''),
                              (''currentQueueSize'', JNum (int currentQueueSize)),
                              (''maxQueueSize'', JNum (MAX_QUEUE_SIZE s2))] now s2))
             else (True, enqueueJob jobData uid now s1))"

text \<open>
  \<open>addJob\<close> called without an object: the \<open>catch\<close> block reads \<open>jobData.separationId\<close> and
  throws in turn, so the call fails and nothing is written.
\<close>

definition addJob_nullable :: "job option \<Rightarrow> int \<Rightarrow> queue_state \<Rightarrow> js_error + bool \<times> queue_state" where
  "addJob_nullable jobData now s =
     (case jobData of
        None \<Rightarrow> Inl \<lparr>message = ''Cannot read properties of undefined'', code = None,
                      responseStatus = None\<rparr>
      | Some j \<Rightarrow> Inr (addJob j now s))"

definition processRetryQueue :: "int \<Rightarrow> queue_state \<Rightarrow> queue_state" where
  "processRetryQueue now s =
     (case rpop (queue_retry s) of
        (None, _) \<Rightarrow> s
      | (Some job, rest) \<Rightarrow>
          let s1 = s\<lparr>queue_retry := rest\<rparr> in
          if (case retryAt job of Some retryTime \<Rightarrow> now \<ge> retryTime | None \<Rightarrow> False)
          then snd (addJob (job\<lparr>retryAt := None, lastError := None\<rparr>) now s1)
          else s1\<lparr>queue_retry := lpush job (queue_retry s1)\<rparr>)"

subsection \<open>Monitoring running jobs\<close>

text \<open>
  The object \<open>runpodService.checkStatus\<close> returns; \<open>executionTime\<close> 0 and an empty
  \<open>rerror\<close> are the falsy values that \<open>||\<close> replaces.
\<close>

record remote_status =
  rstatus :: string
  vocal_audio :: "string option"
  instrument_audio :: "string option"
  executionTime :: int
  rerror :: string

datatype poll_result = PollStatus remote_status | PollError

text \<open>
  What the environment decides during one monitoring pass, per job handled (the key is the
  job's \<open>separationId\<close>): the clock reading, the answer to the status poll, and whether
  the database update throws.
\<close>

record monitor_env =
  mnow :: "string \<Rightarrow> int"
  poll :: "string \<Rightarrow> poll_result"
  mdbError :: "string \<Rightarrow> js_error option"

definition opt_field :: "string \<Rightarrow> string option \<Rightarrow> (string \<times> jsval) list" where
  "opt_field k v = (case v of Some x \<Rightarrow> [(k, JStr x)] | None \<Rightarrow> [])"

definition handleJobCompletion ::
  "string \<Rightarrow> remote_status \<Rightarrow> int \<Rightarrow> js_error option \<Rightarrow> queue_state \<Rightarrow> queue_state" where
  "handleJobCompletion sid runpodResult now dbErr s =
     (case map_of (processingJobs s) sid of
        None \<Rightarrow> s
      | Some processingJob \<Rightarrow>
          let processingTime = now - startedAt processingJob;
              s1 = s\<lparr>metrics := (metrics s)
                     \<lparr>totalProcessed := totalProcessed (metrics s) + 1,
                      avgProcessingTime :=
                        (avgProcessingTime (metrics s) + of_int processingTime / 1000) / 2\<rparr>\<rparr>
          in (case dbErr of
                Some err \<Rightarrow> s1
              | None \<Rightarrow>
                  let s2 = updateJobStatus sid ''COMPLETE''
                             (opt_field ''vocalUrl'' (vocal_audio runpodResult)
                              @ opt_field ''instrumentalUrl'' (instrument_audio runpodResult)
                              @ [(''processingTimeSeconds'',
                                    JNum \<lfloor>(of_int processingTime :: rat) / 1000 + 1 / 2\<rfloor>),
                                 (''progress'', JNum 100)]) now s1;
                      s3 = s2\<lparr>processingJobs := AList.delete sid (processingJobs s2)\<rparr>
                  in decrementUserConcurrent (userId (pj processingJob)) s3))"

definition handleJobFailure ::
  "string \<Rightarrow> remote_status \<Rightarrow> int \<Rightarrow> js_error option \<Rightarrow> queue_state \<Rightarrow> queue_state" where
  "handleJobFailure sid runpodResult now dbErr s =
     (let processingJob = map_of (processingJobs s) sid;
          s1 = s\<lparr>metrics := (metrics s)\<lparr>totalFailed := totalFailed (metrics s) + 1\<rparr>\<rparr>
      in case dbErr of
           Some err \<Rightarrow> s1
         | None \<Rightarrow>
             let errText = (if rerror runpodResult \<noteq> [] then rerror runpodResult
                            else ''Processing failed'');
                 s2 = updateJobStatus sid ''FAILED''
                        [(''error'', JStr errText), (''stage'', JStr ''runpod_processing'')] now s1;
                 s3 = s2\<lparr>processingJobs := AList.delete sid (processingJobs s2)\<rparr>
             in (case processingJob of
                   Some p \<Rightarrow> decrementUserConcurrent (userId (pj p)) s3
                 | None \<Rightarrow> s3))"

definition updateJobProgress :: "string \<Rightarrow> remote_status \<Rightarrow> int \<Rightarrow> queue_state \<Rightarrow> queue_state" where
  "updateJobProgress sid runpodStatus now s =
     (let progress = (if rstatus runpodStatus = ''IN_QUEUE'' then 30
                      else if rstatus runpodStatus = ''IN_PROGRESS'' then 70 else 50)
      in updateJobStatus sid ''PROCESSING''
           [(''progress'', JNum progress), (''runpodStatus'', JStr (rstatus runpodStatus)),
            (''message'', JStr (''Processing: '' @ rstatus runpodStatus))] now s)"

definition handleJobTimeout :: "string \<Rightarrow> int \<Rightarrow> queue_state \<Rightarrow> queue_state" where
  "handleJobTimeout sid now s =
     (let processingJob = map_of (processingJobs s) sid;
          s1 = updateJobStatus sid ''TIMEOUT''
                 [(''error'', JStr ''Job timed out after 45 minutes'')] now s;
          s2 = s1\<lparr>processingJobs := AList.delete sid (processingJobs s1)\<rparr>
      in case processingJob of
           Some p \<Rightarrow> decrementUserConcurrent (userId (pj p)) s2
         | None \<Rightarrow> s2)"

text \<open>The body of the \<open>for\<close> loop of \<open>monitorRunningJobs\<close>, for one job of the snapshot.\<close>

definition monitorJob :: "monitor_env \<Rightarrow> pjob \<Rightarrow> queue_state \<Rightarrow> queue_state" where
  "monitorJob env job s =
     (let sid = separationId (pj job) in
      if runpodJobId job = None \<or> runpodJobId job = Some [] then s
      else
        case poll env sid of
          PollStatus st \<Rightarrow>
            if rstatus st = ''COMPLETED'' then
              handleJobCompletion sid st (mnow env sid) (mdbError env sid) s
            else if rstatus st = ''FAILED'' then
              handleJobFailure sid st (mnow env sid) (mdbError env sid) s
            else updateJobProgress sid st (mnow env sid) s
        | PollError \<Rightarrow>
            let jobAge = mnow env sid - startedAt job in
            if jobAge > 45 * 60 * 1000 then handleJobTimeout sid (mnow env sid) s
            else s)"

fun monitorLoop :: "monitor_env \<Rightarrow> pjob list \<Rightarrow> queue_state \<Rightarrow> queue_state" where
  "monitorLoop env [] s = s"
| "monitorLoop env (job # jobs) s = monitorLoop env jobs (monitorJob env job s)"

definition monitorRunningJobs :: "monitor_env \<Rightarrow> queue_state \<Rightarrow> queue_state" where
  "monitorRunningJobs env s = monitorLoop env (map snd (processingJobs s)) s"

subsection \<open>Cleanup and maintenance\<close>

fun timeoutLoop :: "string list \<Rightarrow> int \<Rightarrow> queue_state \<Rightarrow> queue_state" where
  "timeoutLoop [] now s = s"
| "timeoutLoop (jobId # jobIds) now s = timeoutLoop jobIds now (handleJobTimeout jobId now s)"

definition performCleanup :: "int \<Rightarrow> queue_state \<Rightarrow> queue_state" where
  "performCleanup now s =
     (let staleJobs = map fst (filter (\<lambda>(sid, job). now - startedAt job > 60 * 60 * 1000)
                                      (processingJobs s))
      in timeoutLoop staleJobs now s)"

subsection \<open>Runs of the service\<close>

text \<open>
  The service is driven by its callers (\<open>addJob\<close>), by its interval timers
  (\<open>initializeProcessing\<close>), by the pending \<open>setImmediate\<close> and \<open>setTimeout\<close> callbacks,
  and by the store, which drops a key whose time to live has run out. An event is one
  of these, with what the environment decides during it. A dispatcher tick is either one
  event, \<open>EvProcessQueue\<close> or \<open>EvImmediate\<close> (the call returns before anything else is
  scheduled), or the event that starts it, \<open>EvTick\<close> or \<open>EvImmediateTick\<close>, followed at
  any later points of the run by the events \<open>EvResume\<close> that resume it; \<open>EvResume k\<close>
  resumes the call at position \<open>k\<close> of \<open>suspended\<close>, and does nothing when the submission
  it waits for has not returned.
\<close>

datatype event =
    EvAddJob job int
  | EvProcessQueue priority int dispatch_env
  | EvImmediate int dispatch_env
  | EvMonitor int monitor_env
  | EvRetry int
  | EvCleanup int
  | EvResetRateLimits int
  | EvHalfOpenTimer int
  | EvExpireUser string
  | EvExpireFailures
  | EvExpireStatus string
  | EvTick priority int
  | EvImmediateTick int
  | EvResume nat dispatch_env

fun step :: "event \<Rightarrow> queue_state \<Rightarrow> queue_state" where
  "step (EvAddJob jobData now) s = snd (addJob jobData now s)"
| "step (EvProcessQueue prio now env) s = processQueue prio now env s"
| "step (EvImmediate now env) s =
     (case immediates s of
        [] \<Rightarrow> s
      | prio # rest \<Rightarrow> processQueue prio now env (s\<lparr>immediates := rest\<rparr>))"
| "step (EvMonitor now env) s = monitorRunningJobs env s"
| "step (EvRetry now) s = processRetryQueue now s"
| "step (EvCleanup now) s = performCleanup now s"
| "step (EvResetRateLimits now) s = resetRateLimits now s"
| "step (EvHalfOpenTimer now) s = halfOpenTimerFires now s"
| "step (EvExpireUser uid) s =
     s\<lparr>users := (users s)(uid := \<lparr>concurrent = 0, hourly = 0, lastHourReset = 0\<rparr>)\<rparr>"
| "step EvExpireFailures s = s\<lparr>runpod_failures := 0\<rparr>"
| "step (EvExpireStatus sid) s = s\<lparr>statuses := (statuses s)(sid := None)\<rparr>"
| "step (EvTick prio now) s = processQueue_enter prio now s"
| "step (EvImmediateTick now) s =
     (case immediates s of
        [] \<Rightarrow> s
      | prio # rest \<Rightarrow> processQueue_enter prio now (s\<lparr>immediates := rest\<rparr>))"
| "step (EvResume k env) s = resume_at k env s"

fun run :: "event list \<Rightarrow> queue_state \<Rightarrow> queue_state" where
  "run [] s = s"
| "run (e # es) s = run es (step e s)"

text \<open>
  A dispatcher tick goes on to pop a job and submit it when the capacity check and the
  rate check pass and the queue of its class is not empty.
\<close>

definition dispatches :: "priority \<Rightarrow> int \<Rightarrow> queue_state \<Rightarrow> bool" where
  "dispatches prio now s =
     (canProcessMoreJobs prio s \<and> fst (canMakeRunpodRequest now s)
      \<and> (if prio = HIGH then queue_files s \<noteq> [] else queue_urls s \<noteq> []))"

text \<open>The timestamps the event hands to \<open>recordRunpodRequest\<close>.\<close>

fun recorded :: "event \<Rightarrow> queue_state \<Rightarrow> int list" where
  "recorded (EvProcessQueue prio now env) s =
     (if dispatches prio now s then [startTime env] else [])"
| "recorded (EvImmediate now env) s =
     (case immediates s of
        [] \<Rightarrow> []
      | prio # rest \<Rightarrow> if dispatches prio now (s\<lparr>immediates := rest\<rparr>) then [startTime env] else [])"
| "recorded (EvResume k env) s =
     (if k < length (suspended s) then
        (case suspended s ! k of AwaitStatus jobData \<Rightarrow> [startTime env] | _ \<Rightarrow> [])
      else [])"
| "recorded _ s = []"

fun dispatch_log :: "event list \<Rightarrow> queue_state \<Rightarrow> int list" where
  "dispatch_log [] s = []"
| "dispatch_log (e # es) s = recorded e s @ dispatch_log es (step e s)"

text \<open>
  The clock does not run backwards: an event starts no earlier than the one before ended,
  and the readings inside an event are no earlier than its start.
\<close>

fun timed :: "int \<Rightarrow> event \<Rightarrow> queue_state \<Rightarrow> bool" where
  "timed c (EvAddJob jobData now) s = (c \<le> now)"
| "timed c (EvProcessQueue prio now env) s = (c \<le> now \<and> now \<le> startTime env)"
| "timed c (EvImmediate now env) s = (c \<le> now \<and> now \<le> startTime env)"
| "timed c (EvMonitor now env) s =
     (c \<le> now \<and> list_all (\<lambda>sid. now \<le> mnow env sid) (map fst (processingJobs s)))"
| "timed c (EvRetry now) s = (c \<le> now)"
| "timed c (EvCleanup now) s = (c \<le> now)"
| "timed c (EvResetRateLimits now) s = (c \<le> now)"
| "timed c (EvHalfOpenTimer now) s = (c \<le> now)"
| "timed c (EvTick prio now) s = (c \<le> now)"
| "timed c (EvImmediateTick now) s = (c \<le> now)"
| "timed c (EvResume k env) s = (c \<le> startTime env)"
| "timed c _ s = True"

fun clock_after :: "int \<Rightarrow> event \<Rightarrow> queue_state \<Rightarrow> int" where
  "clock_after c (EvAddJob jobData now) s = now"
| "clock_after c (EvProcessQueue prio now env) s = startTime env"
| "clock_after c (EvImmediate now env) s = startTime env"
| "clock_after c (EvMonitor now env) s =
     fold max (map (mnow env) (map fst (processingJobs s))) now"
| "clock_after c (EvRetry now) s = now"
| "clock_after c (EvCleanup now) s = now"
| "clock_after c (EvResetRateLimits now) s = now"
| "clock_after c (EvHalfOpenTimer now) s = now"
| "clock_after c (EvTick prio now) s = now"
| "clock_after c (EvImmediateTick now) s = now"
| "clock_after c (EvResume k env) s = startTime env"
| "clock_after c _ s = c"

fun well_timed :: "int \<Rightarrow> event list \<Rightarrow> queue_state \<Rightarrow> bool" where
  "well_timed c [] s = True"
| "well_timed c (e # es) s = (timed c e s \<and> well_timed (clock_after c e s) es (step e s))"

text \<open>An event that is a whole call, and the job a suspended call holds.\<close>

fun atomic :: "event \<Rightarrow> bool" where
  "atomic (EvTick prio now) = False"
| "atomic (EvImmediateTick now) = False"
| "atomic (EvResume k env) = False"
| "atomic _ = True"

fun suspended_job :: "suspended \<Rightarrow> job option" where
  "suspended_job (AwaitPop reply) = reply"
| "suspended_job (AwaitStatus jobData) = Some jobData"
| "suspended_job (AwaitSubmit jobData) = Some jobData"

definition suspended_all :: "(job \<Rightarrow> bool) \<Rightarrow> queue_state \<Rightarrow> bool" where
  "suspended_all P s =
     list_all (\<lambda>call. case suspended_job call of None \<Rightarrow> True | Some j \<Rightarrow> P j) (suspended s)"

text \<open>
  Well-formed states: the keys of \<open>processingJobs\<close> are distinct and each is the
  \<open>separationId\<close> of its entry, every queued or tracked job has an owner, no tracked job
  started after the clock reading \<open>c\<close>, and the average processing time is not negative.
\<close>

definition wf_state :: "int \<Rightarrow> queue_state \<Rightarrow> bool" where
  "wf_state c s =
     (distinct (map fst (processingJobs s))
      \<and> list_all (\<lambda>(sid, p). separationId (pj p) = sid \<and> userId (pj p) \<noteq> [] \<and> startedAt p \<le> c)
                 (processingJobs s)
      \<and> list_all (\<lambda>j. userId j \<noteq> []) (queue_files s)
      \<and> list_all (\<lambda>j. userId j \<noteq> []) (queue_urls s)
      \<and> list_all (\<lambda>j. userId j \<noteq> []) (queue_retry s)
      \<and> 0 \<le> avgProcessingTime (metrics s))"

text \<open>The number of recorded dispatch attempts in the 60 seconds that end at \<open>t\<close>.\<close>

definition in_window :: "int \<Rightarrow> int list \<Rightarrow> nat" where
  "in_window t ts = length (filter (\<lambda>x. t - 60000 < x \<and> x \<le> t) ts)"

subsection \<open>Auxiliary definitions and example states\<close>

text \<open>The owner \<open>addJob\<close> computes: \<open>jobData.userId || 'unknown'\<close>.\<close>

definition owner :: "job \<Rightarrow> string" where
  "owner jobData = (if userId jobData \<noteq> [] then userId jobData else ''unknown'')"

definition example_job :: job where
  "example_job =
     \<lparr>separationId = ''sep1'', userId = ''u1'', storageType = ''url'', fileSize = 0,
      filePath = ''https://example.com/a.mp3'', publicUrl = [], priority = None,
      addedAt = None, retryCount = 0, estimatedTime = None, lastError = None,
      retryAt = None\<rparr>"

text \<open>User \<open>u1\<close> has used the five admissions of the window that began at time 0.\<close>

definition hour_boundary_state :: queue_state where
  "hour_boundary_state =
     constructor_state\<lparr>users := (users constructor_state)
        (''u1'' := \<lparr>concurrent = 0, hourly = 5, lastHourReset = 0\<rparr>)\<rparr>"

text \<open>User \<open>u1\<close> has two jobs admitted.\<close>

definition busy_user_state :: queue_state where
  "busy_user_state =
     constructor_state\<lparr>users := (users constructor_state)
        (''u1'' := \<lparr>concurrent = 2, hourly = 2, lastHourReset = 0\<rparr>)\<rparr>"

text \<open>Fewer concurrent jobs than slots reserved for files: the NORMAL class has -2 slots.\<close>

definition negative_slots_state :: queue_state where
  "negative_slots_state = constructor_state\<lparr>MAX_CONCURRENT_JOBS := 3, PRIORITY_FILE_LIMIT := 5\<rparr>"

definition queued_job :: job where
  "queued_job =
     \<lparr>separationId = ''sep0'', userId = ''u0'', storageType = ''url'', fileSize = 0,
      filePath = ''https://example.com/b.mp3'', publicUrl = [], priority = Some NORMAL,
      addedAt = Some 10, retryCount = 0, estimatedTime = Some 120, lastError = None,
      retryAt = None\<rparr>"

text \<open>A ceiling of one job, reached.\<close>

definition full_queue_state :: queue_state where
  "full_queue_state = constructor_state\<lparr>MAX_QUEUE_SIZE := 1, queue_urls := [queued_job]\<rparr>"

text \<open>Submissions without an id, and without a payload.\<close>

definition no_id_job :: job where
  "no_id_job = example_job\<lparr>separationId := []\<rparr>"

definition no_payload_job :: job where
  "no_payload_job = example_job\<lparr>filePath := [], publicUrl := []\<rparr>"

text \<open>Errors of a submission, and the environments of a dispatch that fails or succeeds.\<close>

definition timeout_error :: js_error where
  "timeout_error = \<lparr>message = ''connect ETIMEDOUT 10.0.0.1:443'', code = Some ''ETIMEDOUT'',
                     responseStatus = None\<rparr>"

definition bad_request_error :: js_error where
  "bad_request_error = \<lparr>message = ''Request failed with status code 400'',
                         code = Some ''ERR_BAD_REQUEST'', responseStatus = Some 400\<rparr>"

definition failing_env :: "int \<Rightarrow> js_error \<Rightarrow> dispatch_env" where
  "failing_env t err = \<lparr>startTime = t, answers = [Rejected err], dbError = None\<rparr>"

definition accepting_env :: "int \<Rightarrow> string \<Rightarrow> dispatch_env" where
  "accepting_env t rid = \<lparr>startTime = t, answers = [Responded rid], dbError = None\<rparr>"

text \<open>
  The state after the admission of \<open>example_job\<close> into the constructor's state, and the
  job of user \<open>u1\<close> as \<open>addJob\<close> has queued it.
\<close>

definition admitted_job :: job where
  "admitted_job = example_job\<lparr>priority := Some NORMAL, addedAt := Some 1000,
                               estimatedTime := Some 120\<rparr>"

definition admitted_state :: queue_state where
  "admitted_state = run [EvAddJob example_job 1000] constructor_state"

text \<open>
  The job of \<open>u1\<close> after its first failed submission (a timeout at 2001): on the RETRY
  list with \<open>retryCount = 1\<close>, due one minute later.
\<close>

definition retry_scheduled_state :: queue_state where
  "retry_scheduled_state =
     processQueue NORMAL 2000 (failing_env 2001 timeout_error) admitted_state"

text \<open>
  A job of \<open>u1\<close> submitted at 6001 and accepted by the remote worker; every status poll
  raises an error.
\<close>

definition tracked_state :: queue_state where
  "tracked_state = processQueue NORMAL 6000 (accepting_env 6001 ''rp-1'') admitted_state"

definition tracked_job :: pjob where
  "tracked_job = \<lparr>pj = admitted_job, startedAt = 6001, pstatus = ''PROCESSING'',
                  runpodJobId = Some ''rp-1'', runpodSubmittedAt = Some 6001\<rparr>"

definition unreachable_env :: "int \<Rightarrow> monitor_env" where
  "unreachable_env t = \<lparr>mnow = (\<lambda>sid. t), poll = (\<lambda>sid. PollError), mdbError = (\<lambda>sid. None)\<rparr>"

text \<open>
  The invariant of the rate limiter, for a state \<open>s\<close> reached at clock reading \<open>c\<close> with
  the dispatch attempts \<open>L\<close> recorded so far: what pruning has removed from
  \<open>runpodRequestTimes\<close> is older than any window still to come, and no window holds more
  attempts than the limit.
\<close>

definition rate_inv :: "int \<Rightarrow> queue_state \<Rightarrow> int list \<Rightarrow> bool" where
  "rate_inv c s L \<longleftrightarrow>
     (\<forall>c'\<ge>c. filter (\<lambda>x. c' - 60000 < x) (runpodRequestTimes s) = filter (\<lambda>x. c' - 60000 < x) L)
     \<and> (\<forall>t. int (in_window t L) \<le> max 0 (RUNPOD_RATE_LIMIT s))"

text \<open>
  A run that trips the breaker: six users submit one URL job each, then five dispatcher
  ticks in a row meet a connection reset.
\<close>

definition url_job :: "string \<Rightarrow> string \<Rightarrow> job" where
  "url_job sid uid = example_job\<lparr>separationId := sid, userId := uid\<rparr>"

definition reset_error :: js_error where
  "reset_error = \<lparr>message = ''socket hang up'', code = Some ''ECONNRESET'',
                   responseStatus = None\<rparr>"

definition trip_run :: "event list" where
  "trip_run =
     [EvAddJob (url_job ''a1'' ''w1'') 1000, EvAddJob (url_job ''a2'' ''w2'') 1100,
      EvAddJob (url_job ''a3'' ''w3'') 1200, EvAddJob (url_job ''a4'' ''w4'') 1300,
      EvAddJob (url_job ''a5'' ''w5'') 1400, EvAddJob (url_job ''a6'' ''w6'') 1500,
      EvProcessQueue NORMAL 3000 (failing_env 3001 reset_error),
      EvProcessQueue NORMAL 11000 (failing_env 11001 reset_error),
      EvProcessQueue NORMAL 19000 (failing_env 19001 reset_error),
      EvProcessQueue NORMAL 27000 (failing_env 27001 reset_error),
      EvProcessQueue NORMAL 35000 (failing_env 35001 reset_error)]"

text \<open>
  What the proof tracks along \<open>trip_run\<close>: the ids waiting on the NORMAL list, the number
  of failures so far, and the users that have not submitted yet.
\<close>

definition trip_inv :: "string list \<Rightarrow> nat \<Rightarrow> string list \<Rightarrow> queue_state \<Rightarrow> bool" where
  "trip_inv ids f fresh s \<longleftrightarrow>
     map separationId (queue_urls s) = ids
     \<and> list_all (\<lambda>j. filePath j \<noteq> []) (queue_urls s)
     \<and> queue_files s = [] \<and> queue_retry s = [] \<and> processingJobs s = []
     \<and> runpod_failures s = f \<and> length (runpodRequestTimes s) = f
     \<and> list_all (\<lambda>t. 0 < t) (runpodRequestTimes s)
     \<and> circuitBreakerState s = (if 5 \<le> f then OPEN else CLOSED)
     \<and> RUNPOD_RATE_LIMIT s = 8 \<and> MAX_CONCURRENT_JOBS s = 5 \<and> PRIORITY_FILE_LIMIT s = 3
     \<and> MAX_QUEUE_SIZE s = 50
     \<and> list_all (\<lambda>u. users s u = \<lparr>concurrent = 0, hourly = 0, lastHourReset = 0\<rparr>) fresh"

text \<open>
  The retry counts a run can produce: 0 on the priority lists, 1 on the RETRY list.
\<close>

definition retry_inv :: "queue_state \<Rightarrow> bool" where
  "retry_inv s \<longleftrightarrow>
     list_all (\<lambda>j. retryCount j = 0) (queue_files s)
     \<and> list_all (\<lambda>j. retryCount j = 0) (queue_urls s)
     \<and> list_all (\<lambda>j. retryCount j = 1) (queue_retry s)"

text \<open>
  A burst. Nine users submit one URL job each, and each admission schedules a dispatcher
  tick with \<open>setImmediate\<close>. The nine ticks start one after the other, before the store
  has answered the \<open>RPOP\<close> of the first. Then the calls are resumed in turn: each reads its
  job, tracks it and writes the status, records its request and posts the job, and the
  worker accepts it. \<open>at_time\<close> is the environment of a stretch during which no answer of
  the worker arrives.
\<close>

definition at_time :: "int \<Rightarrow> dispatch_env" where
  "at_time t = \<lparr>startTime = t, answers = [], dbError = None\<rparr>"

definition dispatch_stretches :: "int \<Rightarrow> string \<Rightarrow> event list" where
  "dispatch_stretches t rid =
     [EvResume 0 (at_time t), EvResume 0 (at_time (t + 1)),
      EvResume 0 (accepting_env (t + 2) rid)]"

fun admission :: "string \<times> string \<times> int \<Rightarrow> event" where
  "admission (sid, uid, t) = EvAddJob (url_job sid uid) t"

fun dispatches_in_turn :: "(int \<times> string) list \<Rightarrow> event list" where
  "dispatches_in_turn [] = []"
| "dispatches_in_turn ((t, rid) # rest) = dispatch_stretches t rid @ dispatches_in_turn rest"

definition burst_admissions :: "event list" where
  "burst_admissions =
     map admission
       [(''b1'', ''v1'', 1000), (''b2'', ''v2'', 1001), (''b3'', ''v3'', 1002),
        (''b4'', ''v4'', 1003), (''b5'', ''v5'', 1004), (''b6'', ''v6'', 1005),
        (''b7'', ''v7'', 1006), (''b8'', ''v8'', 1007), (''b9'', ''v9'', 1008)]"

definition burst_ticks :: "event list" where
  "burst_ticks = map EvImmediateTick [1010, 1011, 1012, 1013, 1014, 1015, 1016, 1017, 1018]"

definition burst_run :: "event list" where
  "burst_run =
     burst_admissions @ burst_ticks
     @ dispatches_in_turn
         [(1020, ''rp-1''), (1030, ''rp-2''), (1040, ''rp-3''), (1050, ''rp-4''),
          (1060, ''rp-5''), (1070, ''rp-6''), (1080, ''rp-7''), (1090, ''rp-8''),
          (1100, ''rp-9'')]"

text \<open>
  What the proof tracks along \<open>burst_run\<close>: the number of jobs on the NORMAL list, which
  is the number of pending \<open>setImmediate\<close> ticks, the number of suspended calls, each
  holding the job its \<open>RPOP\<close> returned, and the users that have not submitted yet.
\<close>

fun popped :: "suspended \<Rightarrow> bool" where
  "popped (AwaitPop (Some jobData)) = True"
| "popped _ = False"

definition burst_inv :: "nat \<Rightarrow> nat \<Rightarrow> string list \<Rightarrow> queue_state \<Rightarrow> bool" where
  "burst_inv q w fresh s \<longleftrightarrow>
     length (queue_urls s) = q \<and> immediates s = replicate q NORMAL
     \<and> length (suspended s) = w \<and> list_all popped (suspended s)
     \<and> queue_files s = [] \<and> queue_retry s = [] \<and> processingJobs s = []
     \<and> runpodRequestTimes s = [] \<and> circuitBreakerState s = CLOSED
     \<and> RUNPOD_RATE_LIMIT s = 8 \<and> MAX_CONCURRENT_JOBS s = 5 \<and> PRIORITY_FILE_LIMIT s = 3
     \<and> MAX_QUEUE_SIZE s = 50
     \<and> list_all (\<lambda>u. users s u = \<lparr>concurrent = 0, hourly = 0, lastHourReset = 0\<rparr>) fresh"

section \<open>Properties\<close>

subsection \<open>Retry backoff\<close>

lemma retryInMinutes_eq: "\<lceil>(of_int (retryDelay (Suc r)) :: rat) / 60000\<rceil> = 2 ^ r"
proof -
  have "(of_int (retryDelay (Suc r)) :: rat) / 60000 = of_int (2 ^ r)"
    by (simp add: retryDelay_def)
  then show ?thesis by (simp only: ceiling_of_int)
qed

text \<open>
  Claim C7. A job handed to \<open>addJobToRetryQueue\<close> with retry count \<open>r\<close> gets the delay
  \<open>60000 * 2 ^ r\<close> milliseconds (1, 2 and 4 minutes for \<open>r\<close> = 0, 1, 2); the job pushed
  onto the RETRY list carries \<open>retryCount = r + 1\<close> and \<open>retryAt = now + delay\<close>; the
  status written is \<open>RETRY_SCHEDULED\<close> with the new count and the delay in minutes; and
  the delay never decreases as \<open>r\<close> grows.
\<close>

theorem retry_backoff_schedule:
  "retryDelay (retryCount jobData + 1) = 60000 * 2 ^ retryCount jobData
   \<and> queue_retry (addJobToRetryQueue jobData msg now s) =
       jobData\<lparr>retryCount := retryCount jobData + 1, lastError := Some msg,
               retryAt := Some (now + 60000 * 2 ^ retryCount jobData)\<rparr> # queue_retry s
   \<and> statuses (addJobToRetryQueue jobData msg now s) (separationId jobData) =
       Some \<lparr>st_separationId = separationId jobData, status = ''RETRY_SCHEDULED'',
             updatedAt = now,
             details = [(''retryCount'', JNum (int (retryCount jobData) + 1)),
                        (''retryInMinutes'', JNum (2 ^ retryCount jobData)),
                        (''lastError'', JStr msg)]\<rparr>
   \<and> retryDelay (0 + 1) = 1 * 60000 \<and> retryDelay (1 + 1) = 2 * 60000
   \<and> retryDelay (2 + 1) = 4 * 60000
   \<and> retryDelay (r + 1) \<le> retryDelay (r + k + 1)"
proof -
  have d: "retryDelay (retryCount jobData + 1) = 60000 * 2 ^ retryCount jobData"
    by (simp add: retryDelay_def)
  have m: "retryDelay (r + 1) \<le> retryDelay (r + k + 1)"
    by (simp add: retryDelay_def power_add)
  have q: "queue_retry (addJobToRetryQueue jobData msg now s) =
       jobData\<lparr>retryCount := retryCount jobData + 1, lastError := Some msg,
               retryAt := Some (now + 60000 * 2 ^ retryCount jobData)\<rparr> # queue_retry s"
    by (simp add: addJobToRetryQueue_def Let_def updateJobStatus_def lpush_def retryDelay_def)
  have st: "statuses (addJobToRetryQueue jobData msg now s) (separationId jobData) =
       Some \<lparr>st_separationId = separationId jobData, status = ''RETRY_SCHEDULED'',
             updatedAt = now,
             details = [(''retryCount'', JNum (int (retryCount jobData) + 1)),
                        (''retryInMinutes'', JNum (2 ^ retryCount jobData)),
                        (''lastError'', JStr msg)]\<rparr>"
    using retryInMinutes_eq[of "retryCount jobData"]
    by (simp add: addJobToRetryQueue_def Let_def updateJobStatus_def)
  have c: "retryDelay (0 + 1) = 1 * 60000 \<and> retryDelay (1 + 1) = 2 * 60000
   \<and> retryDelay (2 + 1) = 4 * 60000"
    by (simp add: retryDelay_def)
  from d m q st c show ?thesis by blast
qed

subsection \<open>Estimated wait\<close>

lemma availableSlots_ge_1: "1 \<le> availableSlots prio s"
  by (simp add: availableSlots_def)

text \<open>
  Claim C10. The divisor of \<open>calculateEstimatedWait\<close> is
  \<open>max 1 (classSlots - currentlyProcessingInClass)\<close>, so it is at least 1 whatever the
  configuration and the load, and with a non-negative average processing time the
  estimate is a non-negative number.
\<close>

theorem estimated_wait_well_defined:
  "1 \<le> availableSlots prio s
   \<and> availableSlots prio s = max 1 (concurrentSlots prio s - int (currentProcessing prio s))
   \<and> calculateEstimatedWait queuePosition prio s =
       of_int \<lceil>(of_nat queuePosition :: rat) / of_int (availableSlots prio s)\<rceil>
         * avgProcessingTime (metrics s)
   \<and> (0 \<le> avgProcessingTime (metrics s) \<longrightarrow> 0 \<le> calculateEstimatedWait queuePosition prio s)"
proof -
  have a: "1 \<le> availableSlots prio s" by (rule availableSlots_ge_1)
  then have "0 < (of_int (availableSlots prio s) :: rat)" by simp
  then have "0 \<le> (of_nat queuePosition :: rat) / of_int (availableSlots prio s)"
    by (simp add: divide_nonneg_pos)
  then have "0 \<le> \<lceil>(of_nat queuePosition :: rat) / of_int (availableSlots prio s)\<rceil>"
    by (simp add: zero_le_ceiling)
  then show ?thesis using a
    by (simp add: calculateEstimatedWait_def availableSlots_def)
qed

theorem estimated_wait_well_defined_witness:
  "0 \<le> avgProcessingTime (metrics negative_slots_state)
   \<and> concurrentSlots NORMAL negative_slots_state = - 2
   \<and> availableSlots NORMAL negative_slots_state = 1
   \<and> 0 \<le> calculateEstimatedWait 4 NORMAL negative_slots_state"
proof -
  have a: "0 \<le> avgProcessingTime (metrics negative_slots_state)"
    by (simp add: negative_slots_state_def constructor_state_def)
  have c: "concurrentSlots NORMAL negative_slots_state = - 2"
    by (simp add: negative_slots_state_def constructor_state_def concurrentSlots_def)
  have p: "currentProcessing NORMAL negative_slots_state = 0"
    by (simp add: negative_slots_state_def constructor_state_def currentProcessing_def)
  show ?thesis
    using estimated_wait_well_defined[of NORMAL negative_slots_state 4] a c p
    by simp
qed

subsection \<open>Admission\<close>

lemma checkUserLimits_same:
  "circuitBreakerState (snd (checkUserLimits uid now s)) = circuitBreakerState s"
  "MAX_QUEUE_SIZE (snd (checkUserLimits uid now s)) = MAX_QUEUE_SIZE s"
  "metrics (snd (checkUserLimits uid now s)) = metrics s"
  "queue_files (snd (checkUserLimits uid now s)) = queue_files s"
  "queue_urls (snd (checkUserLimits uid now s)) = queue_urls s"
  "queue_retry (snd (checkUserLimits uid now s)) = queue_retry s"
  "processingJobs (snd (checkUserLimits uid now s)) = processingJobs s"
  "statuses (snd (checkUserLimits uid now s)) = statuses s"
  by (simp_all add: checkUserLimits_def Let_def)

lemma checkUserLimits_size:
  "getTotalQueueSize (snd (checkUserLimits uid now s)) = getTotalQueueSize s"
  by (simp add: getTotalQueueSize_def checkUserLimits_same)

lemma checkUserLimits_fst:
  "fst (checkUserLimits uid now s) \<longleftrightarrow>
     \<not> (concurrent (users s uid) \<ge> 2
        \<or> (now - lastHourReset (users s uid) \<le> 3600000 \<and> hourly (users s uid) \<ge> 5))"
  by (auto simp add: checkUserLimits_def Let_def)

lemma checkUserLimits_users:
  "users (snd (checkUserLimits uid now s)) =
     (if concurrent (users s uid) < 2 \<and> now - lastHourReset (users s uid) > 3600000
      then (users s)(uid := (users s uid)\<lparr>hourly := 0, lastHourReset := now\<rparr>)
      else users s)"
  by (auto simp add: checkUserLimits_def Let_def)

lemma checkUserLimits_rejects_unchanged:
  "\<not> fst (checkUserLimits uid now s) \<Longrightarrow> snd (checkUserLimits uid now s) = s"
  by (auto simp add: checkUserLimits_def Let_def split: if_splits)

text \<open>The checks of \<open>addJob\<close> in their order, each on the state the caller passed.\<close>

lemma addJob_unfold:
  "addJob jobData now s =
     (if separationId jobData = [] then
        (False, updateJobStatus [] ''QUEUE_ERROR''
                  [(''error'', JStr ''Invalid job data: separationId is required'')] now s)
      else if \<not> fst (checkUserLimits (owner jobData) now s) then
        (False, updateJobStatus (separationId jobData) ''RATE_LIMITED''
                  [(''message'', JStr ''Rate limit exceeded. Max 2 concurrent jobs, 5 per hour.''),
                   (''userId'', JStr (owner jobData))] now (snd (checkUserLimits (owner jobData) now s)))
      else if circuitBreakerState s = OPEN then
        (False, updateJobStatus (separationId jobData) ''SERVICE_UNAVAILABLE''
                  [(''message'', JStr ''Service temporarily unavailable due to high load. Please try again in a few minutes.'')]
                  now (snd (checkUserLimits (owner jobData) now s)))
      else if int (getTotalQueueSize s) \<ge> MAX_QUEUE_SIZE s then
        (False, updateJobStatus (separationId jobData) ''QUEUE_FULL''
                  [(''message'', JStr ''Server is at capacity. Please try again in a few minutes.''),
                   (''currentQueueSize'', JNum (int (getTotalQueueSize s))),
                   (''maxQueueSize'', JNum (MAX_QUEUE_SIZE s))] now
                  ((snd (checkUserLimits (owner jobData) now s))
                     \<lparr>metrics := (metrics s)\<lparr>queueFullRejections :=
                                   queueFullRejections (metrics s) + 1\<rparr>\<rparr>))
      else (True, enqueueJob jobData (owner jobData) now (snd (checkUserLimits (owner jobData) now s))))"
  by (simp add: addJob_def owner_def[symmetric] case_prod_beta Let_def checkUserLimits_same
      checkUserLimits_size)

lemma enqueueJob_status:
  "map_option status (statuses (enqueueJob jobData uid now s) (separationId jobData)) = Some ''QUEUED''"
  by (simp add: enqueueJob_def Let_def updateJobStatus_def)

text \<open>
  Claim C4, as the code has it. For a submission with a \<open>separationId\<close>, admission is
  rejected with \<open>RATE_LIMITED\<close> exactly when the owner's \<open>concurrent\<close> count is at
  least 2, or at most one hour has passed since the window start and \<open>hourly\<close> is at
  least 5. The user check resets the hourly counter (and restarts the window at \<open>now\<close>)
  when \<open>concurrent\<close> is below 2 and strictly more than one hour has passed since the
  window start, and changes no counter otherwise. A \<open>RATE_LIMITED\<close> rejection changes
  nothing but the status record of the job.
\<close>

theorem user_quota_admission:
  assumes valid: "separationId jobData \<noteq> []"
  shows "((fst (addJob jobData now s) = False
           \<and> map_option status (statuses (snd (addJob jobData now s)) (separationId jobData))
               = Some ''RATE_LIMITED'')
          \<longleftrightarrow> (concurrent (users s (owner jobData)) \<ge> 2
               \<or> (now - lastHourReset (users s (owner jobData)) \<le> 3600000
                  \<and> hourly (users s (owner jobData)) \<ge> 5)))
       \<and> users (snd (checkUserLimits (owner jobData) now s)) =
           (if concurrent (users s (owner jobData)) < 2
               \<and> now - lastHourReset (users s (owner jobData)) > 3600000
            then (users s)(owner jobData :=
                   (users s (owner jobData))\<lparr>hourly := 0, lastHourReset := now\<rparr>)
            else users s)
       \<and> (concurrent (users s (owner jobData)) \<ge> 2
               \<or> (now - lastHourReset (users s (owner jobData)) \<le> 3600000
                  \<and> hourly (users s (owner jobData)) \<ge> 5)
           \<longrightarrow> snd (addJob jobData now s) =
                 s\<lparr>statuses := (statuses s)(separationId jobData \<mapsto>
                     \<lparr>st_separationId = separationId jobData, status = ''RATE_LIMITED'',
                      updatedAt = now,
                      details = [(''message'', JStr ''Rate limit exceeded. Max 2 concurrent jobs, 5 per hour.''),
                                 (''userId'', JStr (owner jobData))]\<rparr>)\<rparr>)"
proof -
  let ?cond = "concurrent (users s (owner jobData)) \<ge> 2
               \<or> (now - lastHourReset (users s (owner jobData)) \<le> 3600000
                  \<and> hourly (users s (owner jobData)) \<ge> 5)"
  have ok: "fst (checkUserLimits (owner jobData) now s) \<longleftrightarrow> \<not> ?cond"
    by (rule checkUserLimits_fst)
  have a: "(fst (addJob jobData now s) = False
           \<and> map_option status (statuses (snd (addJob jobData now s)) (separationId jobData))
               = Some ''RATE_LIMITED'') \<longleftrightarrow> ?cond"
  proof (cases ?cond)
    case True
    then have "\<not> fst (checkUserLimits (owner jobData) now s)" using ok by blast
    then show ?thesis using True valid
      by (simp add: addJob_unfold updateJobStatus_def)
  next
    case False
    then have "fst (checkUserLimits (owner jobData) now s)" using ok by blast
    then show ?thesis using False valid
      by (simp add: addJob_unfold updateJobStatus_def enqueueJob_status)
  qed
  have c: "?cond \<longrightarrow> snd (addJob jobData now s) =
                 s\<lparr>statuses := (statuses s)(separationId jobData \<mapsto>
                     \<lparr>st_separationId = separationId jobData, status = ''RATE_LIMITED'',
                      updatedAt = now,
                      details = [(''message'', JStr ''Rate limit exceeded. Max 2 concurrent jobs, 5 per hour.''),
                                 (''userId'', JStr (owner jobData))]\<rparr>)\<rparr>"
  proof
    assume ?cond
    then have n: "\<not> fst (checkUserLimits (owner jobData) now s)" using ok by blast
    then have "snd (checkUserLimits (owner jobData) now s) = s"
      by (rule checkUserLimits_rejects_unchanged)
    then show "snd (addJob jobData now s) =
                 s\<lparr>statuses := (statuses s)(separationId jobData \<mapsto>
                     \<lparr>st_separationId = separationId jobData, status = ''RATE_LIMITED'',
                      updatedAt = now,
                      details = [(''message'', JStr ''Rate limit exceeded. Max 2 concurrent jobs, 5 per hour.''),
                                 (''userId'', JStr (owner jobData))]\<rparr>)\<rparr>"
      using n valid by (simp add: addJob_unfold updateJobStatus_def)
  qed
  from a c checkUserLimits_users[of "owner jobData" now s] show ?thesis by blast
qed

theorem user_quota_admission_witness:
  "separationId example_job \<noteq> []
   \<and> concurrent (users busy_user_state (owner example_job)) \<ge> 2
   \<and> fst (addJob example_job 5000 busy_user_state) = False
   \<and> map_option status (statuses (snd (addJob example_job 5000 busy_user_state)) ''sep1'')
       = Some ''RATE_LIMITED''
   \<and> queue_urls (snd (addJob example_job 5000 busy_user_state)) = []
   \<and> users (snd (addJob example_job 5000 busy_user_state)) = users busy_user_state
   \<and> hourly (users (snd (checkUserLimits (owner example_job) 3600001 hour_boundary_state)) ''u1'') = 0"
proof -
  have v: "separationId example_job \<noteq> []" by (simp add: example_job_def)
  have sid: "separationId example_job = ''sep1''" by (simp add: example_job_def)
  have o: "owner example_job = ''u1''" by (simp add: owner_def example_job_def)
  have b: "concurrent (users busy_user_state ''u1'') = 2"
    by (simp add: busy_user_state_def)
  have q: "queue_urls busy_user_state = []"
    by (simp add: busy_user_state_def constructor_state_def)
  have h: "concurrent (users hour_boundary_state ''u1'') = 0"
          "lastHourReset (users hour_boundary_state ''u1'') = 0"
    by (simp_all add: hour_boundary_state_def)
  show ?thesis
    using user_quota_admission[OF v, of 5000 busy_user_state]
          user_quota_admission[OF v, of 3600001 hour_boundary_state]
    by (simp add: o b h sid q)
qed

text \<open>
  Claim C4 as the specification words it resets the window once "now minus the window
  start is at least 1 hour". At exactly one hour the code does not reset: a user with five
  admissions is still rejected, and the counter stays at 5.
\<close>

theorem user_quota_hour_boundary_counterexample:
  "3600000 - lastHourReset (users hour_boundary_state ''u1'') \<ge> 3600000
   \<and> concurrent (users hour_boundary_state ''u1'') < 2
   \<and> fst (addJob example_job 3600000 hour_boundary_state) = False
   \<and> map_option status
        (statuses (snd (addJob example_job 3600000 hour_boundary_state)) ''sep1'')
       = Some ''RATE_LIMITED''
   \<and> hourly (users (snd (addJob example_job 3600000 hour_boundary_state)) ''u1'') = 5"
proof -
  have sid: "separationId example_job = ''sep1''" by (simp add: example_job_def)
  have o: "owner example_job = ''u1''" by (simp add: owner_def example_job_def)
  have u: "users hour_boundary_state ''u1'' = \<lparr>concurrent = 0, hourly = 5, lastHourReset = 0\<rparr>"
    by (simp add: hour_boundary_state_def)
  have c: "checkUserLimits ''u1'' 3600000 hour_boundary_state = (False, hour_boundary_state)"
    by (simp add: checkUserLimits_def Let_def u)
  show ?thesis
    by (simp add: addJob_unfold sid o c u updateJobStatus_def)
qed

subsection \<open>Capacity and validity rejections\<close>

text \<open>
  Claim C5, as the code has it. The capacity check is the fourth check of \<open>addJob\<close>. For
  a submission that carries a \<open>separationId\<close> and passes the user check, with the breaker
  not OPEN and the total depth at or above \<open>MAX_QUEUE_SIZE\<close>: \<open>addJob\<close> returns false,
  writes the \<open>QUEUE_FULL\<close> status, increments \<open>queueFullRejections\<close> by exactly 1 and
  changes no queue, no \<open>processingJobs\<close> entry and no \<open>concurrent\<close> counter. The one
  other change is the reset of the owner's hourly window that the user check has already
  made when more than one hour has passed since the window start.
\<close>

theorem queue_full_rejection:
  assumes valid: "separationId jobData \<noteq> []"
      and quota: "fst (checkUserLimits (owner jobData) now s)"
      and breaker: "circuitBreakerState s \<noteq> OPEN"
      and full: "MAX_QUEUE_SIZE s \<le> int (getTotalQueueSize s)"
  shows "addJob jobData now s =
           (False, s\<lparr>users := (if now - lastHourReset (users s (owner jobData)) > 3600000
                               then (users s)(owner jobData :=
                                      (users s (owner jobData))\<lparr>hourly := 0, lastHourReset := now\<rparr>)
                               else users s),
                     metrics := (metrics s)\<lparr>queueFullRejections :=
                                   queueFullRejections (metrics s) + 1\<rparr>,
                     statuses := (statuses s)(separationId jobData \<mapsto>
                       \<lparr>st_separationId = separationId jobData, status = ''QUEUE_FULL'',
                        updatedAt = now,
                        details = [(''message'', JStr ''Server is at capacity. Please try again in a few minutes.''),
                                   (''currentQueueSize'', JNum (int (getTotalQueueSize s))),
                                   (''maxQueueSize'', JNum (MAX_QUEUE_SIZE s))]\<rparr>)\<rparr>)
         \<and> concurrent (users (snd (addJob jobData now s)) u) = concurrent (users s u)"
proof -
  have c2: "concurrent (users s (owner jobData)) < 2"
    using quota by (auto simp add: checkUserLimits_fst)
  have cu: "snd (checkUserLimits (owner jobData) now s) =
     s\<lparr>users := (if now - lastHourReset (users s (owner jobData)) > 3600000
                               then (users s)(owner jobData :=
                                      (users s (owner jobData))\<lparr>hourly := 0, lastHourReset := now\<rparr>)
                               else users s)\<rparr>"
    using c2 by (simp add: checkUserLimits_def Let_def)
  have eq: "addJob jobData now s =
           (False, s\<lparr>users := (if now - lastHourReset (users s (owner jobData)) > 3600000
                               then (users s)(owner jobData :=
                                      (users s (owner jobData))\<lparr>hourly := 0, lastHourReset := now\<rparr>)
                               else users s),
                     metrics := (metrics s)\<lparr>queueFullRejections :=
                                   queueFullRejections (metrics s) + 1\<rparr>,
                     statuses := (statuses s)(separationId jobData \<mapsto>
                       \<lparr>st_separationId = separationId jobData, status = ''QUEUE_FULL'',
                        updatedAt = now,
                        details = [(''message'', JStr ''Server is at capacity. Please try again in a few minutes.''),
                                   (''currentQueueSize'', JNum (int (getTotalQueueSize s))),
                                   (''maxQueueSize'', JNum (MAX_QUEUE_SIZE s))]\<rparr>)\<rparr>)"
    using valid quota breaker full
    by (simp add: addJob_unfold cu updateJobStatus_def)
  show ?thesis unfolding eq by simp
qed

lemma full_facts:
  "getTotalQueueSize full_queue_state = 1" "MAX_QUEUE_SIZE full_queue_state = 1"
  "circuitBreakerState full_queue_state = CLOSED"
  "users full_queue_state = (\<lambda>u. \<lparr>concurrent = 0, hourly = 0, lastHourReset = 0\<rparr>)"
  "metrics full_queue_state = metrics constructor_state"
  by (simp_all add: full_queue_state_def constructor_state_def getTotalQueueSize_def)

theorem queue_full_rejection_witness:
  "separationId example_job \<noteq> []
   \<and> fst (checkUserLimits (owner example_job) 1000 full_queue_state)
   \<and> circuitBreakerState full_queue_state \<noteq> OPEN
   \<and> MAX_QUEUE_SIZE full_queue_state \<le> int (getTotalQueueSize full_queue_state)
   \<and> fst (addJob example_job 1000 full_queue_state) = False
   \<and> queueFullRejections (metrics (snd (addJob example_job 1000 full_queue_state))) = 1
   \<and> queue_urls (snd (addJob example_job 1000 full_queue_state)) = [queued_job]
   \<and> concurrent (users (snd (addJob example_job 1000 full_queue_state)) ''u1'') = 0"
proof -
  have v: "separationId example_job \<noteq> []" by (simp add: example_job_def)
  have o: "owner example_job = ''u1''" by (simp add: owner_def example_job_def)
  have q: "fst (checkUserLimits (owner example_job) 1000 full_queue_state)"
    by (simp add: checkUserLimits_fst o full_facts)
  have b: "circuitBreakerState full_queue_state \<noteq> OPEN" by (simp add: full_facts)
  have f: "MAX_QUEUE_SIZE full_queue_state \<le> int (getTotalQueueSize full_queue_state)"
    by (simp add: full_facts)
  have m: "queueFullRejections (metrics constructor_state) = 0"
          "queue_urls full_queue_state = [queued_job]"
    by (simp_all add: full_queue_state_def constructor_state_def)
  show ?thesis
    using queue_full_rejection[OF v q b f, of "''u1''"] v q b f
    by (simp add: m full_facts)
qed


text \<open>
  Claim C5 as the specification words it fails in two ways at a full queue: with the breaker OPEN the
  rejection is \<open>SERVICE_UNAVAILABLE\<close> and the counter does not move; and a
  \<open>QUEUE_FULL\<close> rejection can come with the owner's hourly counter reset from 5 to 0.
\<close>

theorem queue_full_counterexample:
  "MAX_QUEUE_SIZE full_queue_state \<le> int (getTotalQueueSize full_queue_state)
   \<and> map_option status (statuses (snd (addJob example_job 1000
         (full_queue_state\<lparr>circuitBreakerState := OPEN\<rparr>))) ''sep1'') = Some ''SERVICE_UNAVAILABLE''
   \<and> queueFullRejections (metrics (snd (addJob example_job 1000
         (full_queue_state\<lparr>circuitBreakerState := OPEN\<rparr>)))) = 0
   \<and> map_option status (statuses (snd (addJob example_job 3700000
         (full_queue_state\<lparr>users := users hour_boundary_state\<rparr>))) ''sep1'') = Some ''QUEUE_FULL''
   \<and> hourly (users (full_queue_state\<lparr>users := users hour_boundary_state\<rparr>) ''u1'') = 5
   \<and> hourly (users (snd (addJob example_job 3700000
         (full_queue_state\<lparr>users := users hour_boundary_state\<rparr>))) ''u1'') = 0"
proof -
  have sid: "separationId example_job = ''sep1''" by (simp add: example_job_def)
  have o: "owner example_job = ''u1''" by (simp add: owner_def example_job_def)
  have u: "users hour_boundary_state ''u1'' = \<lparr>concurrent = 0, hourly = 5, lastHourReset = 0\<rparr>"
    by (simp add: hour_boundary_state_def)
  have z: "queueFullRejections (metrics constructor_state) = 0"
    by (simp add: constructor_state_def)
  have a: "map_option status (statuses (snd (addJob example_job 1000
         (full_queue_state\<lparr>circuitBreakerState := OPEN\<rparr>))) ''sep1'') = Some ''SERVICE_UNAVAILABLE''
   \<and> queueFullRejections (metrics (snd (addJob example_job 1000
         (full_queue_state\<lparr>circuitBreakerState := OPEN\<rparr>)))) = 0"
    by (simp add: addJob_unfold sid o checkUserLimits_fst checkUserLimits_same full_facts
        updateJobStatus_def z)
  have b: "map_option status (statuses (snd (addJob example_job 3700000
         (full_queue_state\<lparr>users := users hour_boundary_state\<rparr>))) ''sep1'') = Some ''QUEUE_FULL''
   \<and> hourly (users (snd (addJob example_job 3700000
         (full_queue_state\<lparr>users := users hour_boundary_state\<rparr>))) ''u1'') = 0"
    by (simp add: addJob_unfold sid o checkUserLimits_fst checkUserLimits_users
        getTotalQueueSize_def full_queue_state_def constructor_state_def updateJobStatus_def u)
  from a b show ?thesis by (simp add: full_facts u)
qed

text \<open>
  Claim C8, as the code has it. A submission without a \<open>separationId\<close> is rejected
  before any other check: \<open>addJob\<close> returns false and changes nothing but the status
  record it writes under the missing id, whose status is \<open>QUEUE_ERROR\<close> with the message
  of the thrown error. The payload (\<open>filePath\<close>, \<open>publicUrl\<close>) plays no part in the
  admission decision.
\<close>

theorem invalid_job_rejection:
  "(separationId jobData = [] \<longrightarrow>
      addJob jobData now s =
        (False, s\<lparr>statuses := (statuses s)([] \<mapsto>
           \<lparr>st_separationId = [], status = ''QUEUE_ERROR'', updatedAt = now,
            details = [(''error'', JStr ''Invalid job data: separationId is required'')]\<rparr>)\<rparr>))
   \<and> fst (addJob (jobData\<lparr>filePath := f, publicUrl := p\<rparr>) now s) = fst (addJob jobData now s)"
  by (simp add: addJob_unfold updateJobStatus_def owner_def)

theorem invalid_job_rejection_witness:
  "separationId no_id_job = []
   \<and> fst (addJob no_id_job 1000 constructor_state) = False
   \<and> map_option status (statuses (snd (addJob no_id_job 1000 constructor_state)) []) = Some ''QUEUE_ERROR''
   \<and> queue_urls (snd (addJob no_id_job 1000 constructor_state)) = []"
proof -
  have v: "separationId no_id_job = []" by (simp add: no_id_job_def)
  have q: "queue_urls constructor_state = []" by (simp add: constructor_state_def)
  show ?thesis
    using invalid_job_rejection[of no_id_job 1000 constructor_state] v q
    by simp
qed

text \<open>
  Claim C8 as the specification words it fails: the status written for a missing id is \<open>QUEUE_ERROR\<close>, not
  \<open>INVALID_JOB\<close>, and a submission without payload is admitted and queued.
\<close>

theorem invalid_job_counterexample:
  "separationId no_id_job = []
   \<and> map_option status (statuses (snd (addJob no_id_job 1000 constructor_state)) [])
       = Some ''QUEUE_ERROR''
   \<and> ''QUEUE_ERROR'' \<noteq> ''INVALID_JOB''
   \<and> filePath no_payload_job = [] \<and> publicUrl no_payload_job = []
   \<and> fst (addJob no_payload_job 1000 constructor_state) = True
   \<and> map_option status (statuses (snd (addJob no_payload_job 1000 constructor_state)) ''sep1'')
       = Some ''QUEUED''
   \<and> length (queue_urls (snd (addJob no_payload_job 1000 constructor_state))) = 1"
proof -
  have v: "separationId no_id_job = []" by (simp add: no_id_job_def)
  have a: "map_option status (statuses (snd (addJob no_id_job 1000 constructor_state)) [])
       = Some ''QUEUE_ERROR''"
    by (simp add: addJob_unfold v updateJobStatus_def)
  have sid: "separationId no_payload_job = ''sep1''" by (simp add: no_payload_job_def example_job_def)
  have o: "owner no_payload_job = ''u1''" by (simp add: owner_def no_payload_job_def example_job_def)
  have st: "storageType no_payload_job = ''url''" by (simp add: no_payload_job_def example_job_def)
  have k: "fst (checkUserLimits ''u1'' 1000 constructor_state)"
    by (simp add: checkUserLimits_fst constructor_state_def)
  have c: "circuitBreakerState constructor_state = CLOSED"
      "getTotalQueueSize constructor_state = 0" "MAX_QUEUE_SIZE constructor_state = 50"
      "queue_urls constructor_state = []"
    by (simp_all add: constructor_state_def getTotalQueueSize_def)
  have b: "addJob no_payload_job 1000 constructor_state =
     (True, enqueueJob no_payload_job ''u1'' 1000 (snd (checkUserLimits ''u1'' 1000 constructor_state)))"
    by (simp add: addJob_unfold sid o k c)
  have l: "length (queue_urls (enqueueJob no_payload_job ''u1'' 1000 (snd (checkUserLimits ''u1'' 1000 constructor_state)))) = 1"
    by (simp add: enqueueJob_def Let_def st updateJobStatus_def updateUserLimits_def lpush_def
        checkUserLimits_same c)
  have p: "filePath no_payload_job = [] \<and> publicUrl no_payload_job = []"
    by (simp add: no_payload_job_def)
  show ?thesis
    using enqueueJob_status[of no_payload_job "''u1''" 1000 "snd (checkUserLimits ''u1'' 1000 constructor_state)"]
    by (simp add: v a b l p sid)
qed

subsection \<open>Dispatch\<close>

lemma handleRunpodError_users [simp]: "users (handleRunpodError err now s) = users s"
  by (simp add: handleRunpodError_def Let_def)

lemma handleRunpodError_processing [simp]:
  "processingJobs (handleRunpodError err now s) = processingJobs s"
  by (simp add: handleRunpodError_def Let_def)

lemma updateJobStatus_fields [simp]:
  "users (updateJobStatus sid st d now s) = users s"
  "processingJobs (updateJobStatus sid st d now s) = processingJobs s"
  "queue_files (updateJobStatus sid st d now s) = queue_files s"
  "queue_urls (updateJobStatus sid st d now s) = queue_urls s"
  "queue_retry (updateJobStatus sid st d now s) = queue_retry s"
  "runpodRequestTimes (updateJobStatus sid st d now s) = runpodRequestTimes s"
  "metrics (updateJobStatus sid st d now s) = metrics s"
  "circuitBreakerState (updateJobStatus sid st d now s) = circuitBreakerState s"
  "RUNPOD_RATE_LIMIT (updateJobStatus sid st d now s) = RUNPOD_RATE_LIMIT s"
  "suspended (updateJobStatus sid st d now s) = suspended s"
  by (simp_all add: updateJobStatus_def)

lemma addJobToRetryQueue_fields [simp]:
  "users (addJobToRetryQueue j m now s) = users s"
  "processingJobs (addJobToRetryQueue j m now s) = processingJobs s"
  "queue_files (addJobToRetryQueue j m now s) = queue_files s"
  "queue_urls (addJobToRetryQueue j m now s) = queue_urls s"
  "runpodRequestTimes (addJobToRetryQueue j m now s) = runpodRequestTimes s"
  "metrics (addJobToRetryQueue j m now s) = metrics s"
  "RUNPOD_RATE_LIMIT (addJobToRetryQueue j m now s) = RUNPOD_RATE_LIMIT s"
  "suspended (addJobToRetryQueue j m now s) = suspended s"
  by (simp_all add: addJobToRetryQueue_def Let_def)

lemma catch_users [simp]: "users (startJobProcessing_catch j err now s) = users s"
  by (simp add: startJobProcessing_catch_def Let_def)

lemma catch_processing [simp]:
  "processingJobs (startJobProcessing_catch j err now s) =
     AList.delete (separationId j) (processingJobs s)"
  by (simp add: startJobProcessing_catch_def Let_def)

lemma track_users [simp]: "users (startJobProcessing_track j now s) = users s"
  by (simp add: startJobProcessing_track_def startJobProcessing_begin_def Let_def recordRunpodRequest_def)

lemma accepted_users [simp]: "users (startJobProcessing_accepted j rid now dbErr s) = users s"
  by (simp add: startJobProcessing_accepted_def Let_def split: option.split)

lemma startJobProcessing_users [simp]: "users (startJobProcessing j env s) = users s"
  by (simp add: startJobProcessing_def startJobProcessing_finish_def Let_def
      split: submit_result.split option.split)


lemma canMakeRunpodRequest_same:
  "queue_files (snd (canMakeRunpodRequest now s)) = queue_files s"
  "queue_urls (snd (canMakeRunpodRequest now s)) = queue_urls s"
  "users (snd (canMakeRunpodRequest now s)) = users s"
  "processingJobs (snd (canMakeRunpodRequest now s)) = processingJobs s"
  "statuses (snd (canMakeRunpodRequest now s)) = statuses s"
  "RUNPOD_RATE_LIMIT (snd (canMakeRunpodRequest now s)) = RUNPOD_RATE_LIMIT s"
  "runpodRequestTimes (snd (canMakeRunpodRequest now s)) =
     filter (\<lambda>t. t > now - 60000) (runpodRequestTimes s)"
  "suspended (snd (canMakeRunpodRequest now s)) = suspended s"
  "queue_retry (snd (canMakeRunpodRequest now s)) = queue_retry s"
  "metrics (snd (canMakeRunpodRequest now s)) = metrics s"
  by (simp_all add: canMakeRunpodRequest_def Let_def)

text \<open>The checks of \<open>processQueue\<close> in their order.\<close>

lemma processQueue_unfold:
  "processQueue prio now env s =
     (if \<not> canProcessMoreJobs prio s then s
      else if \<not> fst (canMakeRunpodRequest now s) then
        (snd (canMakeRunpodRequest now s))
          \<lparr>metrics := (metrics s)\<lparr>runpodRateLimitHits := runpodRateLimitHits (metrics s) + 1\<rparr>\<rparr>
      else if prio = HIGH then
        (if queue_files s = [] then snd (canMakeRunpodRequest now s)
         else startJobProcessing (last (queue_files s)) env
                ((snd (canMakeRunpodRequest now s))\<lparr>queue_files := butlast (queue_files s)\<rparr>))
      else
        (if queue_urls s = [] then snd (canMakeRunpodRequest now s)
         else startJobProcessing (last (queue_urls s)) env
                ((snd (canMakeRunpodRequest now s))\<lparr>queue_urls := butlast (queue_urls s)\<rparr>)))"
  by (simp add: processQueue_def case_prod_beta Let_def rpop_def canMakeRunpodRequest_def)

text \<open>The same checks in the call that is suspended at its \<open>RPOP\<close>.\<close>

lemma processQueue_enter_unfold:
  "processQueue_enter prio now s =
     (if \<not> canProcessMoreJobs prio s then s
      else if \<not> fst (canMakeRunpodRequest now s) then
        (snd (canMakeRunpodRequest now s))
          \<lparr>metrics := (metrics s)\<lparr>runpodRateLimitHits := runpodRateLimitHits (metrics s) + 1\<rparr>\<rparr>
      else if prio = HIGH then
        (snd (canMakeRunpodRequest now s))
          \<lparr>queue_files := butlast (queue_files s),
           suspended := suspended s @
             [AwaitPop (if queue_files s = [] then None else Some (last (queue_files s)))]\<rparr>
      else
        (snd (canMakeRunpodRequest now s))
          \<lparr>queue_urls := butlast (queue_urls s),
           suspended := suspended s @
             [AwaitPop (if queue_urls s = [] then None else Some (last (queue_urls s)))]\<rparr>)"
  by (simp add: processQueue_enter_def case_prod_beta Let_def rpop_def canMakeRunpodRequest_def)

lemma processQueue_users: "users (processQueue prio now env s) = users s"
  by (simp add: processQueue_unfold canMakeRunpodRequest_same)

lemma catch_status_failed:
  "\<not> shouldRetryJob j err \<Longrightarrow>
   statuses (startJobProcessing_catch j err now s) (separationId j) =
     Some \<lparr>st_separationId = separationId j, status = ''FAILED'', updatedAt = now,
           details = [(''error'', JStr (message err)), (''stage'', JStr ''runpod_submission'')]\<rparr>"
  by (simp add: startJobProcessing_catch_def Let_def updateJobStatus_def)

lemma catch_retry:
  "shouldRetryJob j err \<Longrightarrow>
   startJobProcessing_catch j err now s =
     addJobToRetryQueue j (message err) now
       ((handleRunpodError err now s)
          \<lparr>processingJobs := AList.delete (separationId j) (processingJobs s)\<rparr>)"
  by (simp add: startJobProcessing_catch_def Let_def)

text \<open>
  A single answer decides the submission when it is a response with a job id, or an error
  that \<open>processAsynchronously\<close> throws on (no HTTP status, or one that is neither 401 nor
  a 5xx).
\<close>

lemma submission_rejected:
  "filePath j \<noteq> [] \<Longrightarrow>
   (case responseStatus err of None \<Rightarrow> True | Some c \<Rightarrow> c \<noteq> 401 \<and> c < 500) \<Longrightarrow>
   submission j (failing_env t err) = Some (Threw err)"
  by (auto simp add: submission_def failing_env_def split: option.splits)

lemma submission_accepted:
  "filePath j \<noteq> [] \<Longrightarrow> rid \<noteq> [] \<Longrightarrow>
   submission j (accepting_env t rid) = Some (Accepted rid)"
  by (simp add: submission_def accepting_env_def)

text \<open>
  Answers with a status of 500 or more are consumed one after the other, each by a new
  POST request, however many they are; while they last the call does not return.
\<close>

lemma server_errors_are_retried:
  assumes url: "audioUrl \<noteq> []"
      and errs: "list_all (\<lambda>err. case responseStatus err of Some c \<Rightarrow> 500 \<le> c | None \<Rightarrow> False) errs"
  shows "processAsynchronously audioUrl timeout (map Rejected errs @ rest) =
           processAsynchronously audioUrl timeout rest"
  using errs url by (induction errs) (auto split: option.splits)

lemma server_errors_only:
  assumes url: "audioUrl \<noteq> []"
      and errs: "list_all (\<lambda>err. case responseStatus err of Some c \<Rightarrow> 500 \<le> c | None \<Rightarrow> False) errs"
  shows "processAsynchronously audioUrl timeout (map Rejected errs) = None"
  using server_errors_are_retried[OF url errs, of timeout "[]"] url by simp

lemma startJobProcessing_Threw:
  "submission j env = Some (Threw err) \<Longrightarrow>
   startJobProcessing j env s =
     startJobProcessing_catch j err (startTime env) (startJobProcessing_track j (startTime env) s)"
  by (simp add: startJobProcessing_def startJobProcessing_finish_def Let_def)

lemma admitted_state_eq:
  "admitted_state = enqueueJob example_job ''u1'' 1000 constructor_state"
proof -
  have sid: "separationId example_job = ''sep1''"
    by (simp add: example_job_def)
  have o: "owner example_job = ''u1''" by (simp add: owner_def example_job_def)
  have k: "checkUserLimits ''u1'' 1000 constructor_state = (True, constructor_state)"
    by (simp add: checkUserLimits_def Let_def constructor_state_def)
  have c: "circuitBreakerState constructor_state = CLOSED"
      "getTotalQueueSize constructor_state = 0" "MAX_QUEUE_SIZE constructor_state = 50"
    by (simp_all add: constructor_state_def getTotalQueueSize_def)
  show ?thesis by (simp add: admitted_state_def addJob_unfold sid o k c)
qed

lemma admitted_facts:
  "queue_urls admitted_state = [admitted_job]" "queue_retry admitted_state = []"
  "processingJobs admitted_state = []" "runpodRequestTimes admitted_state = []"
  "RUNPOD_RATE_LIMIT admitted_state = 8" "MAX_CONCURRENT_JOBS admitted_state = 5"
  "users admitted_state ''u1'' = \<lparr>concurrent = 1, hourly = 1, lastHourReset = 0\<rparr>"
  "circuitBreakerState admitted_state = CLOSED"
  "queue_files admitted_state = []" "MAX_QUEUE_SIZE admitted_state = 50"
  "runpod_failures admitted_state = 0"
proof -
  have j: "storageType example_job = ''url''" "fileSize example_job = 0"
    by (simp_all add: example_job_def)
  have c: "queue_urls constructor_state = []" "queue_files constructor_state = []"
    "queue_retry constructor_state = []" "processingJobs constructor_state = []"
    "runpodRequestTimes constructor_state = []" "RUNPOD_RATE_LIMIT constructor_state = 8"
    "MAX_CONCURRENT_JOBS constructor_state = 5" "MAX_QUEUE_SIZE constructor_state = 50"
    "runpod_failures constructor_state = 0" "circuitBreakerState constructor_state = CLOSED"
    "users constructor_state ''u1'' = \<lparr>concurrent = 0, hourly = 0, lastHourReset = 0\<rparr>"
    by (simp_all add: constructor_state_def)
  show "queue_urls admitted_state = [admitted_job]"
    by (simp add: admitted_state_eq enqueueJob_def Let_def j updateUserLimits_def lpush_def c
        updateJobStatus_def estimateProcessingTime_def admitted_job_def example_job_def)
  show "queue_retry admitted_state = []"
    "processingJobs admitted_state = []" "runpodRequestTimes admitted_state = []"
    "RUNPOD_RATE_LIMIT admitted_state = 8" "MAX_CONCURRENT_JOBS admitted_state = 5"
    "users admitted_state ''u1'' = \<lparr>concurrent = 1, hourly = 1, lastHourReset = 0\<rparr>"
    "circuitBreakerState admitted_state = CLOSED"
    "queue_files admitted_state = []" "MAX_QUEUE_SIZE admitted_state = 50"
    "runpod_failures admitted_state = 0"
    by (simp_all add: admitted_state_eq enqueueJob_def Let_def j updateUserLimits_def c
        updateJobStatus_def)
qed

lemma admitted_job_facts:
  "separationId admitted_job = ''sep1''" "userId admitted_job = ''u1''"
  "filePath admitted_job \<noteq> []" "retryCount admitted_job = 0"
  by (simp_all add: admitted_job_def example_job_def)

lemma admitted_dispatch:
  "submission admitted_job env = Some (Threw err) \<Longrightarrow>
   processQueue NORMAL now env admitted_state =
     startJobProcessing_catch admitted_job err (startTime env)
       (startJobProcessing_track admitted_job (startTime env)
          ((snd (canMakeRunpodRequest now admitted_state))\<lparr>queue_urls := []\<rparr>))"
  by (simp add: processQueue_unfold canProcessMoreJobs_def canMakeRunpodRequest_def Let_def
      admitted_facts startJobProcessing_Threw admitted_job_facts)

lemma retry_decisions:
  "\<not> shouldRetryJob admitted_job bad_request_error"
  "shouldRetryJob admitted_job timeout_error"
  by (simp_all add: shouldRetryJob_def admitted_job_facts bad_request_error_def timeout_error_def)

text \<open>
  Claim C3 at a failing input. The job of user \<open>u1\<close> is queued and counted in the
  user's \<open>concurrent\<close> counter (1). The dispatcher pops it and the submission fails,
  once with an error that is not retried and once with one that is. In both cases the job
  leaves \<open>processingJobs\<close> and gets its \<open>FAILED\<close> status or its place on the RETRY list,
  but the \<open>concurrent\<close> counter is still 1: \<open>startJobProcessing\<close> never calls
  \<open>decrementUserConcurrent\<close>, which the completion, failure and timeout handlers do.
\<close>

theorem submission_failure_keeps_concurrent:
  "queue_urls admitted_state = [admitted_job]
   \<and> concurrent (users admitted_state ''u1'') = 1
   \<and> map_of (processingJobs
        (processQueue NORMAL 2000 (failing_env 2001 bad_request_error) admitted_state)) ''sep1'' = None
   \<and> map_option status (statuses
        (processQueue NORMAL 2000 (failing_env 2001 bad_request_error) admitted_state) ''sep1'')
       = Some ''FAILED''
   \<and> concurrent (users
        (processQueue NORMAL 2000 (failing_env 2001 bad_request_error) admitted_state) ''u1'') = 1
   \<and> map_of (processingJobs
        (processQueue NORMAL 2000 (failing_env 2001 timeout_error) admitted_state)) ''sep1'' = None
   \<and> map separationId (queue_retry
        (processQueue NORMAL 2000 (failing_env 2001 timeout_error) admitted_state)) = [''sep1'']
   \<and> concurrent (users
        (processQueue NORMAL 2000 (failing_env 2001 timeout_error) admitted_state) ''u1'') = 1"
proof -
  have e: "submission admitted_job (failing_env 2001 bad_request_error)
             = Some (Threw bad_request_error)"
          "submission admitted_job (failing_env 2001 timeout_error) = Some (Threw timeout_error)"
    by (simp_all add: submission_rejected admitted_job_facts bad_request_error_def
        timeout_error_def)
  have u: "concurrent (users (processQueue NORMAL 2000 (failing_env 2001 bad_request_error) admitted_state) ''u1'') = 1"
          "concurrent (users (processQueue NORMAL 2000 (failing_env 2001 timeout_error) admitted_state) ''u1'') = 1"
    by (simp_all add: processQueue_users admitted_facts)
  have p: "map_of (processingJobs
        (processQueue NORMAL 2000 (failing_env 2001 bad_request_error) admitted_state)) ''sep1'' = None"
     "map_of (processingJobs
        (processQueue NORMAL 2000 (failing_env 2001 timeout_error) admitted_state)) ''sep1'' = None"
    by (simp_all add: admitted_dispatch[OF e(1)] admitted_dispatch[OF e(2)] admitted_job_facts
        AList.delete_conv)
  have f: "map_option status (statuses
        (processQueue NORMAL 2000 (failing_env 2001 bad_request_error) admitted_state) ''sep1'')
       = Some ''FAILED''"
    using catch_status_failed[OF retry_decisions(1)]
    by (simp add: admitted_dispatch[OF e(1)] admitted_job_facts)
  have r: "map separationId (queue_retry
        (processQueue NORMAL 2000 (failing_env 2001 timeout_error) admitted_state)) = [''sep1'']"
    by (simp add: admitted_dispatch[OF e(2)] catch_retry[OF retry_decisions(2)]
        addJobToRetryQueue_def Let_def lpush_def handleRunpodError_def startJobProcessing_track_def startJobProcessing_begin_def
        recordRunpodRequest_def canMakeRunpodRequest_def admitted_facts admitted_job_facts)
  from u p f r show ?thesis by (simp add: admitted_facts)
qed

lemma startJobProcessing_Accepted:
  "submission j env = Some (Accepted rid) \<Longrightarrow> rid \<noteq> [] \<Longrightarrow>
   startJobProcessing j env s =
     startJobProcessing_accepted j rid (startTime env) (dbError env)
       (startJobProcessing_track j (startTime env) s)"
  by (simp add: startJobProcessing_def startJobProcessing_finish_def Let_def)

lemma dispatches_ignores_breaker:
  "dispatches prio now (s\<lparr>circuitBreakerState := b\<rparr>) = dispatches prio now s"
  by (simp add: dispatches_def canProcessMoreJobs_def canMakeRunpodRequest_def Let_def
      currentProcessing_def)

subsection \<open>Retries\<close>

lemma enqueueJob_frame:
  "processingJobs (enqueueJob j uid now s) = processingJobs s"
  "runpodRequestTimes (enqueueJob j uid now s) = runpodRequestTimes s"
  "queue_retry (enqueueJob j uid now s) = queue_retry s"
  "circuitBreakerState (enqueueJob j uid now s) = circuitBreakerState s"
  "RUNPOD_RATE_LIMIT (enqueueJob j uid now s) = RUNPOD_RATE_LIMIT s"
  "MAX_CONCURRENT_JOBS (enqueueJob j uid now s) = MAX_CONCURRENT_JOBS s"
  "PRIORITY_FILE_LIMIT (enqueueJob j uid now s) = PRIORITY_FILE_LIMIT s"
  "metrics (enqueueJob j uid now s) = metrics s"
  "suspended (enqueueJob j uid now s) = suspended s"
  by (simp_all add: enqueueJob_def Let_def updateUserLimits_def updateJobStatus_def)

lemma enqueueJob_queues:
  "queue_files (enqueueJob j uid now s) =
     (if storageType j = ''file'' \<or> storageType j = ''local''
      then j\<lparr>priority := Some HIGH, addedAt := Some now, retryCount := 0, userId := uid,
              estimatedTime := Some (estimateProcessingTime j)\<rparr> # queue_files s
      else queue_files s)"
  "queue_urls (enqueueJob j uid now s) =
     (if storageType j = ''file'' \<or> storageType j = ''local'' then queue_urls s
      else j\<lparr>priority := Some NORMAL, addedAt := Some now, retryCount := 0, userId := uid,
              estimatedTime := Some (estimateProcessingTime j)\<rparr> # queue_urls s)"
  by (simp_all add: enqueueJob_def Let_def updateUserLimits_def updateJobStatus_def lpush_def)

lemma processRetryQueue_unfold:
  "processRetryQueue now s =
     (if queue_retry s = [] then s
      else if (case retryAt (last (queue_retry s)) of Some retryTime \<Rightarrow> now \<ge> retryTime
               | None \<Rightarrow> False)
      then snd (addJob ((last (queue_retry s))\<lparr>retryAt := None, lastError := None\<rparr>) now
                  (s\<lparr>queue_retry := butlast (queue_retry s)\<rparr>))
      else s\<lparr>queue_retry := last (queue_retry s) # butlast (queue_retry s)\<rparr>)"
  by (simp add: processRetryQueue_def rpop_def Let_def lpush_def)

lemma track_frame:
  "queue_files (startJobProcessing_track j now s) = queue_files s"
  "queue_urls (startJobProcessing_track j now s) = queue_urls s"
  "queue_retry (startJobProcessing_track j now s) = queue_retry s"
  "circuitBreakerState (startJobProcessing_track j now s) = circuitBreakerState s"
  "RUNPOD_RATE_LIMIT (startJobProcessing_track j now s) = RUNPOD_RATE_LIMIT s"
  "MAX_CONCURRENT_JOBS (startJobProcessing_track j now s) = MAX_CONCURRENT_JOBS s"
  "PRIORITY_FILE_LIMIT (startJobProcessing_track j now s) = PRIORITY_FILE_LIMIT s"
  "MAX_QUEUE_SIZE (startJobProcessing_track j now s) = MAX_QUEUE_SIZE s"
  "runpod_failures (startJobProcessing_track j now s) = runpod_failures s"
  "runpodRequestTimes (startJobProcessing_track j now s) = runpodRequestTimes s @ [now]"
  "processingJobs (startJobProcessing_track j now s) =
     AList.update (separationId j)
       \<lparr>pj = j, startedAt = now, pstatus = ''PROCESSING'', runpodJobId = None,
        runpodSubmittedAt = None\<rparr> (processingJobs s)"
  by (simp_all add: startJobProcessing_track_def startJobProcessing_begin_def Let_def recordRunpodRequest_def
      updateJobStatus_def)

lemma retry_scheduled_facts:
  "queue_retry retry_scheduled_state =
     [admitted_job\<lparr>retryCount := 1, lastError := Some (message timeout_error),
                   retryAt := Some 62001\<rparr>]"
  "queue_urls retry_scheduled_state = []" "queue_files retry_scheduled_state = []"
  "processingJobs retry_scheduled_state = []"
  "users retry_scheduled_state = users admitted_state"
  "circuitBreakerState retry_scheduled_state = CLOSED"
  "MAX_QUEUE_SIZE retry_scheduled_state = 50"
  "RUNPOD_RATE_LIMIT retry_scheduled_state = 8" "MAX_CONCURRENT_JOBS retry_scheduled_state = 5"
  "runpodRequestTimes retry_scheduled_state = [2001]"
proof -
  have e: "submission admitted_job (failing_env 2001 timeout_error) = Some (Threw timeout_error)"
          "startTime (failing_env 2001 timeout_error) = 2001"
    by (simp_all add: submission_def admitted_job_facts timeout_error_def failing_env_def)
  have svc: "isServiceError timeout_error" by (simp add: isServiceError_def timeout_error_def)
  have d: "retry_scheduled_state =
     addJobToRetryQueue admitted_job (message timeout_error) 2001
       ((handleRunpodError timeout_error 2001
          (startJobProcessing_track admitted_job 2001
             ((snd (canMakeRunpodRequest 2000 admitted_state))\<lparr>queue_urls := []\<rparr>)))
          \<lparr>processingJobs := AList.delete ''sep1''
             (processingJobs (startJobProcessing_track admitted_job 2001
               ((snd (canMakeRunpodRequest 2000 admitted_state))\<lparr>queue_urls := []\<rparr>)))\<rparr>)"
    unfolding retry_scheduled_state_def
    by (simp add: admitted_dispatch[OF e(1)] catch_retry[OF retry_decisions(2)] e
        admitted_job_facts)
  show "queue_retry retry_scheduled_state =
     [admitted_job\<lparr>retryCount := 1, lastError := Some (message timeout_error),
                   retryAt := Some 62001\<rparr>]"
    unfolding d
    by (simp add: addJobToRetryQueue_def Let_def lpush_def updateJobStatus_def retryDelay_def
        handleRunpodError_def svc track_frame canMakeRunpodRequest_def admitted_facts
        admitted_job_facts)
  show "queue_urls retry_scheduled_state = []" "queue_files retry_scheduled_state = []"
    "processingJobs retry_scheduled_state = []"
    "users retry_scheduled_state = users admitted_state"
    "circuitBreakerState retry_scheduled_state = CLOSED"
    "MAX_QUEUE_SIZE retry_scheduled_state = 50"
    "RUNPOD_RATE_LIMIT retry_scheduled_state = 8" "MAX_CONCURRENT_JOBS retry_scheduled_state = 5"
    "runpodRequestTimes retry_scheduled_state = [2001]"
    unfolding d
    by (simp_all add: handleRunpodError_def svc track_frame canMakeRunpodRequest_def Let_def
        admitted_facts admitted_job_facts addJobToRetryQueue_def updateJobStatus_def)
qed


lemma readmitted_facts:
  "queue_retry (processRetryQueue 120000 retry_scheduled_state) = []"
  "queue_urls (processRetryQueue 120000 retry_scheduled_state) =
     [admitted_job\<lparr>addedAt := Some 120000\<rparr>]"
  "processingJobs (processRetryQueue 120000 retry_scheduled_state) = []"
  "runpodRequestTimes (processRetryQueue 120000 retry_scheduled_state) = [2001]"
  "RUNPOD_RATE_LIMIT (processRetryQueue 120000 retry_scheduled_state) = 8"
  "MAX_CONCURRENT_JOBS (processRetryQueue 120000 retry_scheduled_state) = 5"
proof -
  let ?j = "admitted_job\<lparr>retryCount := Suc 0, retryAt := None, lastError := None\<rparr>"
  let ?s1 = "retry_scheduled_state\<lparr>queue_retry := []\<rparr>"
  have j: "separationId ?j = ''sep1''" "owner ?j = ''u1''" "storageType ?j = ''url''"
    by (simp_all add: admitted_job_def example_job_def owner_def)
  have k: "fst (checkUserLimits ''u1'' 120000 ?s1)"
    by (simp add: checkUserLimits_fst retry_scheduled_facts admitted_facts)
  have cu: "snd (checkUserLimits ''u1'' 120000 ?s1) = ?s1"
    by (simp add: checkUserLimits_def Let_def retry_scheduled_facts admitted_facts)
  have sz: "getTotalQueueSize ?s1 = 0"
    by (simp add: getTotalQueueSize_def retry_scheduled_facts)
  have p: "processRetryQueue 120000 retry_scheduled_state = enqueueJob ?j ''u1'' 120000 ?s1"
    by (simp add: processRetryQueue_unfold retry_scheduled_facts addJob_unfold j k cu sz)
  have est: "estimateProcessingTime ?j = 120"
    by (simp add: estimateProcessingTime_def admitted_job_def example_job_def)
  show "queue_retry (processRetryQueue 120000 retry_scheduled_state) = []"
    "processingJobs (processRetryQueue 120000 retry_scheduled_state) = []"
    "runpodRequestTimes (processRetryQueue 120000 retry_scheduled_state) = [2001]"
    "RUNPOD_RATE_LIMIT (processRetryQueue 120000 retry_scheduled_state) = 8"
    "MAX_CONCURRENT_JOBS (processRetryQueue 120000 retry_scheduled_state) = 5"
    by (simp_all add: p enqueueJob_frame retry_scheduled_facts)
  show "queue_urls (processRetryQueue 120000 retry_scheduled_state) =
     [admitted_job\<lparr>addedAt := Some 120000\<rparr>]"
    by (simp add: p enqueueJob_queues j retry_scheduled_facts admitted_job_def example_job_def
        estimateProcessingTime_def)
qed

text \<open>
  Claim C2 at a failing input. After its first failed submission the job is on the RETRY
  list with \<open>retryCount = 1\<close>. When the delay has passed, \<open>processRetryQueue\<close> hands it
  to \<open>addJob\<close>, which queues it with \<open>retryCount = 0\<close>. The next failed submission
  schedules it again with \<open>retryCount = 1\<close> and the one-minute delay: the count never
  reaches the cap of 3 that \<open>shouldRetryJob\<close> tests.
\<close>

theorem retry_count_reset_on_readmission:
  "map retryCount (queue_retry retry_scheduled_state) = [1]
   \<and> queue_retry (processRetryQueue 120000 retry_scheduled_state) = []
   \<and> map separationId (queue_urls (processRetryQueue 120000 retry_scheduled_state)) = [''sep1'']
   \<and> map retryCount (queue_urls (processRetryQueue 120000 retry_scheduled_state)) = [0]
   \<and> map retryCount (queue_retry
        (processQueue NORMAL 130000 (failing_env 130001 timeout_error)
           (processRetryQueue 120000 retry_scheduled_state))) = [1]
   \<and> map retryAt (queue_retry
        (processQueue NORMAL 130000 (failing_env 130001 timeout_error)
           (processRetryQueue 120000 retry_scheduled_state))) = [Some (130001 + 60000)]"
proof -
  let ?s = "processRetryQueue 120000 retry_scheduled_state"
  let ?j = "admitted_job\<lparr>addedAt := Some 120000\<rparr>"
  have j: "filePath ?j \<noteq> []" "retryCount ?j = 0" "separationId ?j = ''sep1''"
    by (simp_all add: admitted_job_def example_job_def)
  have e: "submission ?j (failing_env 130001 timeout_error) = Some (Threw timeout_error)"
          "startTime (failing_env 130001 timeout_error) = 130001"
    by (simp_all add: submission_def admitted_job_facts timeout_error_def failing_env_def)
  have r: "shouldRetryJob ?j timeout_error"
    by (simp add: shouldRetryJob_def j timeout_error_def)
  have d: "processQueue NORMAL 130000 (failing_env 130001 timeout_error) ?s =
     startJobProcessing_catch ?j timeout_error 130001
       (startJobProcessing_track ?j 130001
          ((snd (canMakeRunpodRequest 130000 ?s))\<lparr>queue_urls := []\<rparr>))"
    by (simp add: processQueue_unfold canProcessMoreJobs_def canMakeRunpodRequest_def Let_def
        readmitted_facts startJobProcessing_Threw[OF e(1)] e)
  have q: "queue_retry (processQueue NORMAL 130000 (failing_env 130001 timeout_error) ?s) =
     [?j\<lparr>retryCount := 1, lastError := Some (message timeout_error),
          retryAt := Some 190001\<rparr>]"
    unfolding d catch_retry[OF r]
    by (simp add: addJobToRetryQueue_def Let_def lpush_def updateJobStatus_def retryDelay_def
        handleRunpodError_def track_frame canMakeRunpodRequest_def readmitted_facts j)
  show ?thesis
    by (simp add: retry_scheduled_facts readmitted_facts q admitted_job_facts j)
qed

subsection \<open>The monitor\<close>

lemma decrementUserConcurrent_frame [simp]:
  "processingJobs (decrementUserConcurrent uid s) = processingJobs s"
  "statuses (decrementUserConcurrent uid s) = statuses s"
  "metrics (decrementUserConcurrent uid s) = metrics s"
  "runpodRequestTimes (decrementUserConcurrent uid s) = runpodRequestTimes s"
  "RUNPOD_RATE_LIMIT (decrementUserConcurrent uid s) = RUNPOD_RATE_LIMIT s"
  "queue_files (decrementUserConcurrent uid s) = queue_files s"
  "queue_urls (decrementUserConcurrent uid s) = queue_urls s"
  "queue_retry (decrementUserConcurrent uid s) = queue_retry s"
  "suspended (decrementUserConcurrent uid s) = suspended s"
  by (simp_all add: decrementUserConcurrent_def)

lemma decrementUserConcurrent_le:
  "concurrent (users (decrementUserConcurrent uid s) u) \<le> concurrent (users s u)"
  by (simp add: decrementUserConcurrent_def)

lemma handleJobTimeout_effect:
  "processingJobs (handleJobTimeout sid now s) = AList.delete sid (processingJobs s)"
  "statuses (handleJobTimeout sid now s) =
     (statuses s)(sid \<mapsto> \<lparr>st_separationId = sid, status = ''TIMEOUT'', updatedAt = now,
                            details = [(''error'', JStr ''Job timed out after 45 minutes'')]\<rparr>)"
  "users (handleJobTimeout sid now s) =
     (case map_of (processingJobs s) sid of
        Some p \<Rightarrow> users (decrementUserConcurrent (userId (pj p)) s)
      | None \<Rightarrow> users s)"
  by (simp_all add: handleJobTimeout_def Let_def updateJobStatus_def decrementUserConcurrent_def
      split: option.split)

lemma handleJobCompletion_effect:
  "processingJobs (handleJobCompletion sid r now dbErr s) = processingJobs s
   \<or> processingJobs (handleJobCompletion sid r now dbErr s) = AList.delete sid (processingJobs s)"
  "k \<noteq> sid \<Longrightarrow> statuses (handleJobCompletion sid r now dbErr s) k = statuses s k"
  "concurrent (users (handleJobCompletion sid r now dbErr s) u) \<le> concurrent (users s u)"
  by (simp_all add: handleJobCompletion_def Let_def updateJobStatus_def decrementUserConcurrent_def
      split: option.split)

lemma handleJobFailure_effect:
  "processingJobs (handleJobFailure sid r now dbErr s) = processingJobs s
   \<or> processingJobs (handleJobFailure sid r now dbErr s) = AList.delete sid (processingJobs s)"
  "k \<noteq> sid \<Longrightarrow> statuses (handleJobFailure sid r now dbErr s) k = statuses s k"
  "concurrent (users (handleJobFailure sid r now dbErr s) u) \<le> concurrent (users s u)"
  by (simp_all add: handleJobFailure_def Let_def updateJobStatus_def decrementUserConcurrent_def
      split: option.split)

lemma updateJobProgress_effect:
  "processingJobs (updateJobProgress sid r now s) = processingJobs s"
  "k \<noteq> sid \<Longrightarrow> statuses (updateJobProgress sid r now s) k = statuses s k"
  "users (updateJobProgress sid r now s) = users s"
  by (simp_all add: updateJobProgress_def Let_def updateJobStatus_def)

text \<open>One iteration touches only the entry and the status of the job it handles.\<close>

lemma monitorJob_processing:
  "processingJobs (monitorJob env job s) = processingJobs s
   \<or> processingJobs (monitorJob env job s) = AList.delete (separationId (pj job)) (processingJobs s)"
  using handleJobCompletion_effect(1) handleJobFailure_effect(1)
  by (simp add: monitorJob_def Let_def handleJobTimeout_effect updateJobProgress_effect
      split: poll_result.split)

lemma monitorJob_other_entry:
  "k \<noteq> separationId (pj job) \<Longrightarrow>
   map_of (processingJobs (monitorJob env job s)) k = map_of (processingJobs s) k"
  using monitorJob_processing[of env job s] by (auto simp add: AList.delete_conv')

lemma monitorJob_other_status:
  "k \<noteq> separationId (pj job) \<Longrightarrow> statuses (monitorJob env job s) k = statuses s k"
  by (simp add: monitorJob_def Let_def handleJobTimeout_effect updateJobProgress_effect
      handleJobCompletion_effect handleJobFailure_effect split: poll_result.split)

lemma monitorJob_concurrent_le:
  "concurrent (users (monitorJob env job s) u) \<le> concurrent (users s u)"
  by (simp add: monitorJob_def Let_def handleJobTimeout_effect updateJobProgress_effect
      handleJobCompletion_effect handleJobFailure_effect decrementUserConcurrent_le
      split: poll_result.split option.split)

lemma monitorLoop_other_entry:
  "k \<notin> set (map (\<lambda>job. separationId (pj job)) jobs) \<Longrightarrow>
   map_of (processingJobs (monitorLoop env jobs s)) k = map_of (processingJobs s) k"
  by (induction jobs arbitrary: s) (simp_all add: monitorJob_other_entry)

lemma monitorLoop_other_status:
  "k \<notin> set (map (\<lambda>job. separationId (pj job)) jobs) \<Longrightarrow>
   statuses (monitorLoop env jobs s) k = statuses s k"
  by (induction jobs arbitrary: s) (simp_all add: monitorJob_other_status)

lemma monitorLoop_concurrent_le:
  "concurrent (users (monitorLoop env jobs s) u) \<le> concurrent (users s u)"
proof (induction jobs arbitrary: s)
  case Nil
  show ?case by simp
next
  case (Cons job jobs)
  have "concurrent (users (monitorLoop env jobs (monitorJob env job s)) u)
          \<le> concurrent (users (monitorJob env job s) u)"
    by (rule Cons.IH)
  also have "\<dots> \<le> concurrent (users s u)" by (rule monitorJob_concurrent_le)
  finally show ?case by simp
qed

lemma monitorLoop_append:
  "monitorLoop env (xs @ ys) s = monitorLoop env ys (monitorLoop env xs s)"
  by (induction xs arbitrary: s) simp_all

text \<open>The iteration for a job whose poll raises an error.\<close>

lemma monitorJob_poll_error:
  assumes "runpodJobId job = Some rid" "rid \<noteq> []"
      and "poll env (separationId (pj job)) = PollError"
  shows "monitorJob env job s =
           (if mnow env (separationId (pj job)) - startedAt job > 2700000
            then handleJobTimeout (separationId (pj job)) (mnow env (separationId (pj job))) s
            else s)"
  using assms by (simp add: monitorJob_def Let_def)


text \<open>
  Claim C9. Let a job be tracked in \<open>processingJobs\<close> (whose keys are distinct and are the
  \<open>separationId\<close>s of their entries) with an owner and a remote job id, and let its status
  poll raise an error. If its age, measured from \<open>startedAt\<close> at the clock reading of its
  iteration, exceeds 45 minutes, then after the monitoring pass the job is no longer in
  \<open>processingJobs\<close>, its status is \<open>TIMEOUT\<close>, and its owner's \<open>concurrent\<close> counter
  is lower by at least 1; the job's own iteration lowers the counter by exactly 1. If its
  age is at most 45 minutes, its iteration changes nothing and the job is still tracked
  after the pass.
\<close>

theorem poll_error_timeout:
  assumes dist: "distinct (map fst (processingJobs s))"
      and keys: "list_all (\<lambda>(k, p). separationId (pj p) = k) (processingJobs s)"
      and mem: "(sid, job) \<in> set (processingJobs s)"
      and owned: "userId (pj job) \<noteq> []"
      and rid: "runpodJobId job = Some rid" "rid \<noteq> []"
      and err: "poll env sid = PollError"
  shows "(mnow env sid - startedAt job > 45 * 60 * 1000 \<longrightarrow>
            map_of (processingJobs (monitorRunningJobs env s)) sid = None
          \<and> statuses (monitorRunningJobs env s) sid =
              Some \<lparr>st_separationId = sid, status = ''TIMEOUT'', updatedAt = mnow env sid,
                    details = [(''error'', JStr ''Job timed out after 45 minutes'')]\<rparr>
          \<and> concurrent (users (monitorRunningJobs env s) (userId (pj job)))
              \<le> concurrent (users s (userId (pj job))) - 1
          \<and> (\<forall>st. map_of (processingJobs st) sid = Some job \<longrightarrow>
                users (monitorJob env job st) =
                  (users st)(userId (pj job) := (users st (userId (pj job)))
                     \<lparr>concurrent := concurrent (users st (userId (pj job))) - 1\<rparr>)))
       \<and> (mnow env sid - startedAt job \<le> 45 * 60 * 1000 \<longrightarrow>
            map_of (processingJobs (monitorRunningJobs env s)) sid = Some job
          \<and> (\<forall>st. monitorJob env job st = st))"
proof -
  from mem obtain pre post where split: "processingJobs s = pre @ (sid, job) # post"
    by (auto simp add: in_set_conv_decomp)
  have id: "separationId (pj job) = sid"
    using keys mem by (auto simp add: list_all_iff)
  have ids: "map (\<lambda>j. separationId (pj j)) (map snd xs) = map fst xs"
    if "set xs \<subseteq> set (processingJobs s)" for xs
    using that keys by (induction xs) (auto simp add: list_all_iff)
  have pre_ids: "sid \<notin> set (map (\<lambda>j. separationId (pj j)) (map snd pre))"
    using dist ids[of pre] by (auto simp add: split)
  have post_ids: "sid \<notin> set (map (\<lambda>j. separationId (pj j)) (map snd post))"
    using dist ids[of post] by (auto simp add: split)
  have here: "map_of (processingJobs s) sid = Some job"
    using dist mem by (simp add: map_of_is_SomeI)
  define s1 where "s1 = monitorLoop env (map snd pre) s"
  have run: "monitorRunningJobs env s = monitorLoop env (map snd post) (monitorJob env job s1)"
    by (simp add: monitorRunningJobs_def split monitorLoop_append s1_def)
  have s1_entry: "map_of (processingJobs s1) sid = Some job"
    unfolding s1_def using monitorLoop_other_entry[OF pre_ids] here by simp
  have s1_users: "concurrent (users s1 u) \<le> concurrent (users s u)" for u
    unfolding s1_def by (rule monitorLoop_concurrent_le)
  have step: "monitorJob env job st =
           (if mnow env sid - startedAt job > 2700000
            then handleJobTimeout sid (mnow env sid) st else st)" for st
    using monitorJob_poll_error[OF rid, of env st] err id by simp
  have old: "map_of (processingJobs (monitorRunningJobs env s)) sid = None
          \<and> statuses (monitorRunningJobs env s) sid =
              Some \<lparr>st_separationId = sid, status = ''TIMEOUT'', updatedAt = mnow env sid,
                    details = [(''error'', JStr ''Job timed out after 45 minutes'')]\<rparr>
          \<and> concurrent (users (monitorRunningJobs env s) (userId (pj job)))
              \<le> concurrent (users s (userId (pj job))) - 1
          \<and> (\<forall>st. map_of (processingJobs st) sid = Some job \<longrightarrow>
                users (monitorJob env job st) =
                  (users st)(userId (pj job) := (users st (userId (pj job)))
                     \<lparr>concurrent := concurrent (users st (userId (pj job))) - 1\<rparr>))"
    if age: "mnow env sid - startedAt job > 45 * 60 * 1000"
  proof -
    have m: "monitorJob env job st = handleJobTimeout sid (mnow env sid) st" for st
      using step[of st] age by simp
    have a: "map_of (processingJobs (monitorRunningJobs env s)) sid = None"
      unfolding run using monitorLoop_other_entry[OF post_ids]
      by (simp add: m handleJobTimeout_effect AList.delete_conv')
    have b: "statuses (monitorRunningJobs env s) sid =
              Some \<lparr>st_separationId = sid, status = ''TIMEOUT'', updatedAt = mnow env sid,
                    details = [(''error'', JStr ''Job timed out after 45 minutes'')]\<rparr>"
      unfolding run using monitorLoop_other_status[OF post_ids]
      by (simp add: m handleJobTimeout_effect)
    have d: "users (monitorJob env job st) =
                  (users st)(userId (pj job) := (users st (userId (pj job)))
                     \<lparr>concurrent := concurrent (users st (userId (pj job))) - 1\<rparr>)"
      if "map_of (processingJobs st) sid = Some job" for st
      using that owned by (simp add: m handleJobTimeout_effect decrementUserConcurrent_def)
    have "concurrent (users (monitorRunningJobs env s) (userId (pj job)))
            \<le> concurrent (users (monitorJob env job s1) (userId (pj job)))"
      unfolding run by (rule monitorLoop_concurrent_le)
    also have "\<dots> = concurrent (users s1 (userId (pj job))) - 1"
      by (simp add: d[OF s1_entry])
    also have "\<dots> \<le> concurrent (users s (userId (pj job))) - 1"
      using s1_users[of "userId (pj job)"] by simp
    finally have c: "concurrent (users (monitorRunningJobs env s) (userId (pj job)))
              \<le> concurrent (users s (userId (pj job))) - 1" .
    from a b c d show ?thesis by blast
  qed
  have young: "map_of (processingJobs (monitorRunningJobs env s)) sid = Some job
          \<and> (\<forall>st. monitorJob env job st = st)"
    if age: "mnow env sid - startedAt job \<le> 45 * 60 * 1000"
  proof -
    have m: "monitorJob env job st = st" for st
      using step[of st] age by simp
    have "map_of (processingJobs (monitorRunningJobs env s)) sid = Some job"
      unfolding run using monitorLoop_other_entry[OF post_ids] s1_entry by (simp add: m)
    then show ?thesis using m by blast
  qed
  from old young show ?thesis by blast
qed


lemma tracked_facts:
  "processingJobs tracked_state = [(''sep1'', tracked_job)]"
  "users tracked_state = users admitted_state"
proof -
  have e: "submission admitted_job (accepting_env 6001 ''rp-1'') = Some (Accepted ''rp-1'')"
          "startTime (accepting_env 6001 ''rp-1'') = 6001"
          "dbError (accepting_env 6001 ''rp-1'') = None"
    by (simp_all add: submission_def admitted_job_facts accepting_env_def)
  have d: "tracked_state =
     startJobProcessing_accepted admitted_job ''rp-1'' 6001 None
       (startJobProcessing_track admitted_job 6001
          ((snd (canMakeRunpodRequest 6000 admitted_state))\<lparr>queue_urls := []\<rparr>))"
    unfolding tracked_state_def
    by (simp add: processQueue_unfold canProcessMoreJobs_def canMakeRunpodRequest_def Let_def
        admitted_facts startJobProcessing_Accepted[OF e(1)] admitted_job_facts e)
  show "processingJobs tracked_state = [(''sep1'', tracked_job)]"
    unfolding d
    by (simp add: startJobProcessing_accepted_def Let_def track_frame canMakeRunpodRequest_def
        admitted_facts admitted_job_facts updateJobStatus_def tracked_job_def)
  show "users tracked_state = users admitted_state"
    by (simp add: tracked_state_def processQueue_users)
qed

theorem poll_error_timeout_witness:
  "distinct (map fst (processingJobs tracked_state))
   \<and> list_all (\<lambda>(k, p). separationId (pj p) = k) (processingJobs tracked_state)
   \<and> (''sep1'', tracked_job) \<in> set (processingJobs tracked_state)
   \<and> userId (pj tracked_job) \<noteq> []
   \<and> runpodJobId tracked_job = Some ''rp-1''
   \<and> poll (unreachable_env 2706002) ''sep1'' = PollError
   \<and> mnow (unreachable_env 2706002) ''sep1'' - startedAt tracked_job > 45 * 60 * 1000
   \<and> map_of (processingJobs (monitorRunningJobs (unreachable_env 2706002) tracked_state)) ''sep1''
       = None
   \<and> map_option status (statuses (monitorRunningJobs (unreachable_env 2706002) tracked_state) ''sep1'')
       = Some ''TIMEOUT''
   \<and> concurrent (users (monitorRunningJobs (unreachable_env 2706002) tracked_state) ''u1'') \<le> 0
   \<and> mnow (unreachable_env 2706001) ''sep1'' - startedAt tracked_job \<le> 45 * 60 * 1000
   \<and> map_of (processingJobs (monitorRunningJobs (unreachable_env 2706001) tracked_state)) ''sep1''
       = Some tracked_job"
proof -
  have j: "separationId (pj tracked_job) = ''sep1''" "userId (pj tracked_job) = ''u1''"
          "startedAt tracked_job = 6001" "runpodJobId tracked_job = Some ''rp-1''"
    by (simp_all add: tracked_job_def admitted_job_facts)
  have d: "distinct (map fst (processingJobs tracked_state))"
    by (simp add: tracked_facts)
  have k: "list_all (\<lambda>(k, p). separationId (pj p) = k) (processingJobs tracked_state)"
    by (simp add: tracked_facts j)
  have m: "(''sep1'', tracked_job) \<in> set (processingJobs tracked_state)"
    by (simp add: tracked_facts)
  have o: "userId (pj tracked_job) \<noteq> []" by (simp add: j)
  have r: "''rp-1'' \<noteq> []" by simp
  have p: "poll (unreachable_env t) ''sep1'' = PollError" "mnow (unreachable_env t) ''sep1'' = t" for t
    by (simp_all add: unreachable_env_def)
  have u: "concurrent (users tracked_state ''u1'') = 1"
    by (simp add: tracked_facts admitted_facts)
  show ?thesis
    using poll_error_timeout[OF d k m o j(4) r p(1), of 2706002]
          poll_error_timeout[OF d k m o j(4) r p(1), of 2706001]
    by (simp add: d k m j p u)
qed

subsection \<open>Suspended calls\<close>

text \<open>Only the dispatcher tick that is run in stretches touches the list of suspended calls.\<close>

lemma handleRunpodError_suspended [simp]:
  "suspended (handleRunpodError err now s) = suspended s"
  by (simp add: handleRunpodError_def Let_def)

lemma catch_suspended [simp]:
  "suspended (startJobProcessing_catch j err now s) = suspended s"
  by (simp add: startJobProcessing_catch_def Let_def)

lemma accepted_suspended [simp]:
  "suspended (startJobProcessing_accepted j rid now dbErr s) = suspended s"
  by (simp add: startJobProcessing_accepted_def Let_def split: option.split)

lemma begin_frame:
  "queue_files (startJobProcessing_begin j now s) = queue_files s"
  "queue_urls (startJobProcessing_begin j now s) = queue_urls s"
  "queue_retry (startJobProcessing_begin j now s) = queue_retry s"
  "RUNPOD_RATE_LIMIT (startJobProcessing_begin j now s) = RUNPOD_RATE_LIMIT s"
  "runpodRequestTimes (startJobProcessing_begin j now s) = runpodRequestTimes s"
  "suspended (startJobProcessing_begin j now s) = suspended s"
  "avgProcessingTime (metrics (startJobProcessing_begin j now s)) = avgProcessingTime (metrics s)"
  "processingJobs (startJobProcessing_begin j now s) =
     AList.update (separationId j)
       \<lparr>pj = j, startedAt = now, pstatus = ''PROCESSING'', runpodJobId = None,
        runpodSubmittedAt = None\<rparr> (processingJobs s)"
  by (simp_all add: startJobProcessing_begin_def Let_def updateJobStatus_def)

lemma finish_frame:
  "suspended (startJobProcessing_finish j now r dbErr s) = suspended s"
  "runpodRequestTimes (startJobProcessing_finish j now r dbErr s) = runpodRequestTimes s"
  "RUNPOD_RATE_LIMIT (startJobProcessing_finish j now r dbErr s) = RUNPOD_RATE_LIMIT s"
  by (simp_all add: startJobProcessing_finish_def startJobProcessing_accepted_def
      startJobProcessing_catch_def Let_def handleRunpodError_def
      split: option.split submit_result.split)

lemma startJobProcessing_suspended [simp]:
  "suspended (startJobProcessing j env s) = suspended s"
  by (simp add: startJobProcessing_def Let_def finish_frame startJobProcessing_track_def
      recordRunpodRequest_def begin_frame)

lemma processQueue_suspended [simp]: "suspended (processQueue prio now env s) = suspended s"
  by (simp add: processQueue_unfold canMakeRunpodRequest_same)

lemma addJob_suspended [simp]: "suspended (snd (addJob j now s)) = suspended s"
  by (simp add: addJob_unfold enqueueJob_frame checkUserLimits_def Let_def)

lemma processRetryQueue_suspended [simp]: "suspended (processRetryQueue now s) = suspended s"
  by (simp add: processRetryQueue_unfold)

lemma handleJobTimeout_suspended [simp]: "suspended (handleJobTimeout sid now s) = suspended s"
  by (simp add: handleJobTimeout_def Let_def split: option.split)

lemma monitorJob_suspended [simp]: "suspended (monitorJob env job s) = suspended s"
  by (simp add: monitorJob_def Let_def handleJobCompletion_def handleJobFailure_def
      updateJobProgress_def split: poll_result.split option.split)

lemma monitorLoop_suspended [simp]: "suspended (monitorLoop env jobs s) = suspended s"
  by (induction jobs arbitrary: s) simp_all

lemma timeoutLoop_suspended [simp]: "suspended (timeoutLoop ids now s) = suspended s"
  by (induction ids arbitrary: s) simp_all

lemma atomic_suspended: "atomic e \<Longrightarrow> suspended (step e s) = suspended s"
  by (cases e)
     (simp_all add: monitorRunningJobs_def performCleanup_def Let_def resetRateLimits_def
        halfOpenTimerFires_def split: list.split)

text \<open>
  A stretch of a suspended call leaves the call with the job it had, records a request
  time exactly when it is the stretch after the first status write, and touches neither
  the limit nor the list of suspended calls.
\<close>

lemma resume_call:
  "fst (resume call env s) = Some call' \<Longrightarrow> suspended_job call' = suspended_job call"
  by (cases "(call, env, s)" rule: resume.cases) (auto split: option.splits)

lemma resume_frame:
  "suspended (snd (resume call env s)) = suspended s"
  "RUNPOD_RATE_LIMIT (snd (resume call env s)) = RUNPOD_RATE_LIMIT s"
  "runpodRequestTimes (snd (resume call env s)) =
     runpodRequestTimes s @ (case call of AwaitStatus j \<Rightarrow> [startTime env] | _ \<Rightarrow> [])"
  by (cases "(call, env, s)" rule: resume.cases;
      simp add: begin_frame finish_frame recordRunpodRequest_def split: option.split)+

lemma resume_at_unfold:
  "resume_at k env s =
     (if k < length (suspended s) then
        (snd (resume (suspended s ! k) env s))
          \<lparr>suspended := (case fst (resume (suspended s ! k) env s) of
                           None \<Rightarrow> take k (suspended s) @ drop (Suc k) (suspended s)
                         | Some call \<Rightarrow> (suspended s)[k := call])\<rparr>
      else s)"
  by (simp add: resume_at_def split: prod.split option.split)

lemma resume_at_rate:
  "RUNPOD_RATE_LIMIT (resume_at k env s) = RUNPOD_RATE_LIMIT s"
  "runpodRequestTimes (resume_at k env s) = runpodRequestTimes s @ recorded (EvResume k env) s"
  by (simp_all add: resume_at_unfold resume_frame)

lemma processQueue_enter_rate:
  "RUNPOD_RATE_LIMIT (processQueue_enter prio now s) = RUNPOD_RATE_LIMIT s"
  "runpodRequestTimes (processQueue_enter prio now s) =
     (if canProcessMoreJobs prio s then filter (\<lambda>x. now - 60000 < x) (runpodRequestTimes s)
      else runpodRequestTimes s)"
  by (simp_all add: processQueue_enter_unfold canMakeRunpodRequest_same)

text \<open>The list of suspended calls is carried through the stretches untouched.\<close>

lemma suspended_upd:
  "updateJobStatus sid st d now (x\<lparr>suspended := y\<rparr>) = (updateJobStatus sid st d now x)\<lparr>suspended := y\<rparr>"
  "handleRunpodError err now (x\<lparr>suspended := y\<rparr>) = (handleRunpodError err now x)\<lparr>suspended := y\<rparr>"
  "addJobToRetryQueue j m now (x\<lparr>suspended := y\<rparr>) = (addJobToRetryQueue j m now x)\<lparr>suspended := y\<rparr>"
  "recordRunpodRequest now (x\<lparr>suspended := y\<rparr>) = (recordRunpodRequest now x)\<lparr>suspended := y\<rparr>"
  "startJobProcessing_begin j now (x\<lparr>suspended := y\<rparr>) = (startJobProcessing_begin j now x)\<lparr>suspended := y\<rparr>"
  by (simp_all add: updateJobStatus_def handleRunpodError_def addJobToRetryQueue_def
      recordRunpodRequest_def startJobProcessing_begin_def Let_def)

lemma catch_upd:
  "startJobProcessing_catch j err now (x\<lparr>suspended := y\<rparr>) =
     (startJobProcessing_catch j err now x)\<lparr>suspended := y\<rparr>"
  by (simp add: startJobProcessing_catch_def Let_def addJobToRetryQueue_def updateJobStatus_def
      handleRunpodError_def)

lemma accepted_upd:
  "startJobProcessing_accepted j rid now dbErr (x\<lparr>suspended := y\<rparr>) =
     (startJobProcessing_accepted j rid now dbErr x)\<lparr>suspended := y\<rparr>"
  by (simp add: startJobProcessing_accepted_def Let_def startJobProcessing_catch_def
      addJobToRetryQueue_def updateJobStatus_def handleRunpodError_def split: option.split)

lemma finish_upd:
  "startJobProcessing_finish j now r dbErr (x\<lparr>suspended := y\<rparr>) =
     (startJobProcessing_finish j now r dbErr x)\<lparr>suspended := y\<rparr>"
  by (simp add: startJobProcessing_finish_def catch_upd accepted_upd
      split: option.split submit_result.split)

lemma suspended_same: "suspended x = y \<Longrightarrow> x\<lparr>suspended := y\<rparr> = x"
  by (cases x) simp

lemma resume_at_none: "suspended x = [] \<Longrightarrow> resume_at k env x = x"
  by (simp add: resume_at_def)

lemma resume_at_head_state:
  assumes "suspended x = call # rest"
  shows "resume_at 0 env x =
           (snd (resume call env x))
             \<lparr>suspended := (case fst (resume call env x) of None \<Rightarrow> rest | Some c \<Rightarrow> c # rest)\<rparr>"
  using assms by (simp add: resume_at_unfold split: option.split)

lemma stretches_state:
  assumes h: "suspended x = AwaitPop (Some j) # rest" and ret: "submission j e3 = Some r"
  shows "run [EvResume 0 e1, EvResume 0 e2, EvResume 0 e3] x =
     (startJobProcessing_finish j (startTime e3) (Some r) (dbError e3)
        (recordRunpodRequest (startTime e2) (startJobProcessing_begin j (startTime e1) x)))
       \<lparr>suspended := rest\<rparr>"
proof -
  let ?b = "startJobProcessing_begin j (startTime e1) x"
  let ?r = "recordRunpodRequest (startTime e2) ?b"
  have s1: "resume_at 0 e1 x = ?b\<lparr>suspended := AwaitStatus j # rest\<rparr>"
    by (simp add: resume_at_head_state[OF h])
  have h1: "suspended (resume_at 0 e1 x) = AwaitStatus j # rest" by (simp add: s1)
  have s2: "resume_at 0 e2 (resume_at 0 e1 x) = ?r\<lparr>suspended := AwaitSubmit j # rest\<rparr>"
    by (simp add: resume_at_head_state[OF h1]) (simp add: s1 suspended_upd)
  have h2: "suspended (resume_at 0 e2 (resume_at 0 e1 x)) = AwaitSubmit j # rest"
    by (simp add: s2)
  have s3: "resume_at 0 e3 (resume_at 0 e2 (resume_at 0 e1 x)) =
     (startJobProcessing_finish j (startTime e3) (Some r) (dbError e3) ?r)\<lparr>suspended := rest\<rparr>"
    by (simp add: resume_at_head_state[OF h2] ret) (simp add: s2 finish_upd)
  show ?thesis by (simp add: s3)
qed

text \<open>
  The tick that is one event is the tick run in its stretches with nothing scheduled in
  between and one clock reading, when no other call is suspended and the submission
  returns.
\<close>

lemma tick_stretches:
  assumes none: "suspended s = []"
      and ret: "submission (last (if prio = HIGH then queue_files s else queue_urls s)) env \<noteq> None"
  shows "run [EvTick prio now, EvResume 0 env, EvResume 0 env, EvResume 0 env] s =
           processQueue prio now env s"
proof -
  let ?s1 = "snd (canMakeRunpodRequest now s)"
  let ?q = "if prio = HIGH then queue_files s else queue_urls s"
  let ?pop = "if prio = HIGH then ?s1\<lparr>queue_files := butlast (queue_files s)\<rparr>
              else ?s1\<lparr>queue_urls := butlast (queue_urls s)\<rparr>"
  have n1: "suspended ?s1 = []" "suspended ?pop = []"
    by (simp_all add: canMakeRunpodRequest_same none)
  consider (full) "\<not> canProcessMoreJobs prio s"
    | (limited) "canProcessMoreJobs prio s" "\<not> fst (canMakeRunpodRequest now s)"
    | (empty) "canProcessMoreJobs prio s" "fst (canMakeRunpodRequest now s)" "?q = []"
    | (job) "canProcessMoreJobs prio s" "fst (canMakeRunpodRequest now s)" "?q \<noteq> []"
    by blast
  then show ?thesis
  proof cases
    case full
    then show ?thesis
      by (simp add: processQueue_enter_unfold processQueue_unfold resume_at_none none)
  next
    case limited
    then show ?thesis
      by (simp add: processQueue_enter_unfold processQueue_unfold resume_at_none n1)
  next
    case empty
    have p: "?pop = ?s1"
      using empty by (cases s) (simp add: canMakeRunpodRequest_def Let_def split: if_splits)
    have "processQueue_enter prio now s = ?pop\<lparr>suspended := [AwaitPop None]\<rparr>"
      using empty by (cases prio) (simp_all add: processQueue_enter_unfold none)
    then have e: "processQueue_enter prio now s = ?s1\<lparr>suspended := [AwaitPop None]\<rparr>"
      by (simp only: p)
    have "resume_at 0 env (?s1\<lparr>suspended := [AwaitPop None]\<rparr>) = ?s1\<lparr>suspended := []\<rparr>"
      by (simp add: resume_at_head_state[where call = "AwaitPop None" and rest = "[]"])
    also have "\<dots> = ?s1" using n1(1) by (rule suspended_same)
    finally have r: "resume_at 0 env (?s1\<lparr>suspended := [AwaitPop None]\<rparr>) = ?s1" .
    have a: "processQueue prio now env s = ?s1"
      using empty by (cases prio) (simp_all add: processQueue_unfold)
    show ?thesis
      by (simp add: e r resume_at_none n1 a)
  next
    case job
    let ?j = "last ?q"
    obtain r where r: "submission ?j env = Some r" using ret by auto
    have e: "processQueue_enter prio now s = ?pop\<lparr>suspended := [AwaitPop (Some ?j)]\<rparr>"
      using job by (cases prio) (simp_all add: processQueue_enter_unfold none)
    have h: "suspended (?pop\<lparr>suspended := [AwaitPop (Some ?j)]\<rparr>) = AwaitPop (Some ?j) # []"
      by simp
    let ?f = "startJobProcessing_finish ?j (startTime env) (Some r) (dbError env)
                (recordRunpodRequest (startTime env)
                   (startJobProcessing_begin ?j (startTime env) ?pop))"
    have "run [EvResume 0 env, EvResume 0 env, EvResume 0 env]
            (?pop\<lparr>suspended := [AwaitPop (Some ?j)]\<rparr>) = ?f\<lparr>suspended := []\<rparr>"
      unfolding stretches_state[OF h r] by (simp add: suspended_upd finish_upd)
    also have "\<dots> = ?f"
      by (rule suspended_same) (simp add: finish_frame recordRunpodRequest_def begin_frame n1)
    finally have d: "run [EvResume 0 env, EvResume 0 env, EvResume 0 env]
            (?pop\<lparr>suspended := [AwaitPop (Some ?j)]\<rparr>) = ?f" .
    have a: "processQueue prio now env s = startJobProcessing ?j env ?pop"
      using job by (cases prio) (simp_all add: processQueue_unfold)
    have "run [EvTick prio now, EvResume 0 env, EvResume 0 env, EvResume 0 env] s =
            run [EvResume 0 env, EvResume 0 env, EvResume 0 env]
              (?pop\<lparr>suspended := [AwaitPop (Some ?j)]\<rparr>)"
      by (simp add: e)
    then show ?thesis
      unfolding d a
      by (simp add: startJobProcessing_def Let_def startJobProcessing_track_def r)
  qed
qed

text \<open>A property of the jobs that wait on the priority lists passes to the suspended calls.\<close>

lemma suspended_all_cong: "suspended s' = suspended s \<Longrightarrow> suspended_all P s' = suspended_all P s"
  by (simp add: suspended_all_def)

lemma suspended_all_constructor: "suspended_all P constructor_state"
  by (simp add: suspended_all_def constructor_state_def)

lemma suspended_all_atomic: "atomic e \<Longrightarrow> suspended_all P (step e s) = suspended_all P s"
  by (rule suspended_all_cong) (rule atomic_suspended)

lemma suspended_all_enter:
  assumes "suspended_all P s" "list_all P (queue_files s)" "list_all P (queue_urls s)"
  shows "suspended_all P (processQueue_enter prio now s)"
  using assms
  by (simp add: suspended_all_def processQueue_enter_unfold canMakeRunpodRequest_same
      list_all_iff)

lemma suspended_all_resume:
  assumes sus: "suspended_all P s"
  shows "suspended_all P (resume_at k env s)"
proof (cases "k < length (suspended s)")
  case False
  then show ?thesis using sus by (simp add: resume_at_unfold)
next
  case True
  let ?Q = "\<lambda>call. case suspended_job call of None \<Rightarrow> True | Some j \<Rightarrow> P j"
  have all: "\<forall>call \<in> set (suspended s). ?Q call"
    using sus by (simp add: suspended_all_def list_all_iff)
  have k: "?Q (suspended s ! k)" using all True by simp
  show ?thesis
  proof (cases "fst (resume (suspended s ! k) env s)")
    case None
    have "set (take k (suspended s) @ drop (Suc k) (suspended s)) \<subseteq> set (suspended s)"
      by (auto dest: in_set_takeD in_set_dropD)
    then show ?thesis
      using all None True by (auto simp add: resume_at_unfold suspended_all_def list_all_iff)
  next
    case (Some call)
    have q: "?Q call" using k resume_call[OF Some] by simp
    have "set ((suspended s)[k := call]) \<subseteq> insert call (set (suspended s))"
      by (rule set_update_subset_insert)
    then show ?thesis
      using all q Some True
      by (auto simp add: resume_at_unfold suspended_all_def list_all_iff)
  qed
qed

subsection \<open>The rate limiter\<close>

text \<open>Only the dispatcher and \<open>resetRateLimits\<close> touch the list of request times.\<close>

lemma handleRunpodError_rate [simp]:
  "runpodRequestTimes (handleRunpodError err now s) = runpodRequestTimes s"
  "RUNPOD_RATE_LIMIT (handleRunpodError err now s) = RUNPOD_RATE_LIMIT s"
  by (simp_all add: handleRunpodError_def Let_def)

lemma catch_rate [simp]:
  "runpodRequestTimes (startJobProcessing_catch j err now s) = runpodRequestTimes s"
  "RUNPOD_RATE_LIMIT (startJobProcessing_catch j err now s) = RUNPOD_RATE_LIMIT s"
  by (simp_all add: startJobProcessing_catch_def Let_def)

lemma accepted_rate [simp]:
  "runpodRequestTimes (startJobProcessing_accepted j rid now dbErr s) = runpodRequestTimes s"
  "RUNPOD_RATE_LIMIT (startJobProcessing_accepted j rid now dbErr s) = RUNPOD_RATE_LIMIT s"
  by (simp_all add: startJobProcessing_accepted_def Let_def split: option.split)

lemma startJobProcessing_rate [simp]:
  "runpodRequestTimes (startJobProcessing j env s) = runpodRequestTimes s @ [startTime env]"
  "RUNPOD_RATE_LIMIT (startJobProcessing j env s) = RUNPOD_RATE_LIMIT s"
  by (simp_all add: startJobProcessing_def startJobProcessing_finish_def Let_def track_frame
      split: submit_result.split option.split)

lemma processQueue_rate:
  "runpodRequestTimes (processQueue prio now env s) =
     (if dispatches prio now s
      then filter (\<lambda>x. now - 60000 < x) (runpodRequestTimes s) @ [startTime env]
      else if canProcessMoreJobs prio s
      then filter (\<lambda>x. now - 60000 < x) (runpodRequestTimes s)
      else runpodRequestTimes s)"
  "RUNPOD_RATE_LIMIT (processQueue prio now env s) = RUNPOD_RATE_LIMIT s"
  by (auto simp add: processQueue_unfold dispatches_def canMakeRunpodRequest_same)

lemma dispatches_budget:
  "dispatches prio now s \<Longrightarrow>
   int (length (filter (\<lambda>x. now - 60000 < x) (runpodRequestTimes s))) < RUNPOD_RATE_LIMIT s"
  by (simp add: dispatches_def canMakeRunpodRequest_def Let_def)

lemma startJobProcessing_queues [simp]:
  "queue_files (startJobProcessing j env s) = queue_files s"
  "queue_urls (startJobProcessing j env s) = queue_urls s"
  by (simp_all add: startJobProcessing_def startJobProcessing_finish_def Let_def track_frame
      startJobProcessing_accepted_def startJobProcessing_catch_def handleRunpodError_def
      split: submit_result.split option.split)

lemma processQueue_pops:
  "queue_files (processQueue HIGH now env s) =
     (if dispatches HIGH now s then butlast (queue_files s) else queue_files s)"
  "queue_urls (processQueue NORMAL now env s) =
     (if dispatches NORMAL now s then butlast (queue_urls s) else queue_urls s)"
  by (auto simp add: processQueue_unfold dispatches_def canMakeRunpodRequest_same)

lemma addJob_rate [simp]:
  "runpodRequestTimes (snd (addJob j now s)) = runpodRequestTimes s"
  "RUNPOD_RATE_LIMIT (snd (addJob j now s)) = RUNPOD_RATE_LIMIT s"
  by (simp_all add: addJob_unfold enqueueJob_frame checkUserLimits_def Let_def)

lemma processRetryQueue_rate [simp]:
  "runpodRequestTimes (processRetryQueue now s) = runpodRequestTimes s"
  "RUNPOD_RATE_LIMIT (processRetryQueue now s) = RUNPOD_RATE_LIMIT s"
  by (simp_all add: processRetryQueue_unfold)

lemma handleJobTimeout_rate [simp]:
  "runpodRequestTimes (handleJobTimeout sid now s) = runpodRequestTimes s"
  "RUNPOD_RATE_LIMIT (handleJobTimeout sid now s) = RUNPOD_RATE_LIMIT s"
  by (simp_all add: handleJobTimeout_def Let_def split: option.split)

lemma monitorJob_rate [simp]:
  "runpodRequestTimes (monitorJob env job s) = runpodRequestTimes s"
  "RUNPOD_RATE_LIMIT (monitorJob env job s) = RUNPOD_RATE_LIMIT s"
  by (simp_all add: monitorJob_def Let_def handleJobCompletion_def handleJobFailure_def
      updateJobProgress_def split: poll_result.split option.split)

lemma monitorLoop_rate [simp]:
  "runpodRequestTimes (monitorLoop env jobs s) = runpodRequestTimes s"
  "RUNPOD_RATE_LIMIT (monitorLoop env jobs s) = RUNPOD_RATE_LIMIT s"
  by (induction jobs arbitrary: s) simp_all

lemma timeoutLoop_rate [simp]:
  "runpodRequestTimes (timeoutLoop ids now s) = runpodRequestTimes s"
  "RUNPOD_RATE_LIMIT (timeoutLoop ids now s) = RUNPOD_RATE_LIMIT s"
  by (induction ids arbitrary: s) simp_all

lemma step_limit [simp]: "RUNPOD_RATE_LIMIT (step e s) = RUNPOD_RATE_LIMIT s"
  by (cases e)
     (simp_all add: processQueue_rate monitorRunningJobs_def performCleanup_def Let_def
        resetRateLimits_def halfOpenTimerFires_def processQueue_enter_rate resume_at_rate
        split: list.split)


lemma fold_max_ge: "(a::int) \<le> fold max xs a"
proof (induction xs arbitrary: a)
  case Nil
  show ?case by simp
next
  case (Cons x xs)
  have "a \<le> max x a" by simp
  also have "\<dots> \<le> fold max xs (max x a)" by (rule Cons.IH)
  finally show ?case by simp
qed

lemma clock_after_ge: "timed c e s \<Longrightarrow> c \<le> clock_after c e s"
proof (cases e)
  case (EvMonitor now env)
  assume "timed c e s"
  then have "c \<le> now" using EvMonitor by simp
  also have "now \<le> fold max (map (mnow env) (map fst (processingJobs s))) now"
    by (rule fold_max_ge)
  finally show ?thesis using EvMonitor by simp
qed auto

lemma length_filter_mono:
  "(\<And>x. P x \<Longrightarrow> Q x) \<Longrightarrow> length (filter P xs) \<le> length (filter Q xs)"
  by (induction xs) auto

lemma rate_inv_later:
  assumes "rate_inv c s L" "c \<le> c'"
      and "runpodRequestTimes s' = runpodRequestTimes s" "RUNPOD_RATE_LIMIT s' = RUNPOD_RATE_LIMIT s"
  shows "rate_inv c' s' L"
  using assms by (simp add: rate_inv_def)

lemma rate_inv_prune:
  assumes inv: "rate_inv c s L" and le: "c \<le> now" "now \<le> c'"
      and pr: "runpodRequestTimes s' = filter (\<lambda>x. now - 60000 < x) (runpodRequestTimes s)"
      and lim: "RUNPOD_RATE_LIMIT s' = RUNPOD_RATE_LIMIT s"
  shows "rate_inv c' s' L"
proof -
  have "filter (\<lambda>x. d - 60000 < x) (runpodRequestTimes s') = filter (\<lambda>x. d - 60000 < x) L"
    if "c' \<le> d" for d
  proof -
    have "filter (\<lambda>x. d - 60000 < x) (runpodRequestTimes s')
            = filter (\<lambda>x. d - 60000 < x \<and> now - 60000 < x) (runpodRequestTimes s)"
      by (simp add: pr conj_commute)
    also have "\<dots> = filter (\<lambda>x. d - 60000 < x) (runpodRequestTimes s)"
      using that le by (intro filter_cong) auto
    also have "\<dots> = filter (\<lambda>x. d - 60000 < x) L"
      using inv that le by (simp add: rate_inv_def)
    finally show ?thesis .
  qed
  then show ?thesis using inv lim by (simp add: rate_inv_def)
qed

lemma rate_inv_dispatch:
  assumes inv: "rate_inv c s L" and le: "c \<le> now" "now \<le> t1"
      and budget: "int (length (filter (\<lambda>x. now - 60000 < x) (runpodRequestTimes s)))
                     < RUNPOD_RATE_LIMIT s"
      and pr: "runpodRequestTimes s' = filter (\<lambda>x. now - 60000 < x) (runpodRequestTimes s) @ [t1]"
      and lim: "RUNPOD_RATE_LIMIT s' = RUNPOD_RATE_LIMIT s"
  shows "rate_inv t1 s' (L @ [t1])"
proof -
  have pruned: "rate_inv now (s\<lparr>runpodRequestTimes :=
                   filter (\<lambda>x. now - 60000 < x) (runpodRequestTimes s)\<rparr>) L"
    by (rule rate_inv_prune[OF inv le(1)]) simp_all
  have a: "filter (\<lambda>x. d - 60000 < x) (runpodRequestTimes s') = filter (\<lambda>x. d - 60000 < x) (L @ [t1])"
    if "t1 \<le> d" for d
    using pruned that le by (simp add: rate_inv_def pr)
  have same: "filter (\<lambda>x. now - 60000 < x) (runpodRequestTimes s) = filter (\<lambda>x. now - 60000 < x) L"
    using inv le by (simp add: rate_inv_def)
  have b: "int (in_window t (L @ [t1])) \<le> max 0 (RUNPOD_RATE_LIMIT s)" for t
  proof (cases "t - 60000 < t1 \<and> t1 \<le> t")
    case True
    have "length (filter (\<lambda>x. t - 60000 < x \<and> x \<le> t) L)
            \<le> length (filter (\<lambda>x. now - 60000 < x) L)"
      using True le by (intro length_filter_mono) auto
    then have "int (in_window t L) < RUNPOD_RATE_LIMIT s"
      using budget same by (simp add: in_window_def)
    then show ?thesis using True by (simp add: in_window_def)
  next
    case False
    then have "in_window t (L @ [t1]) = in_window t L" by (auto simp add: in_window_def)
    then show ?thesis using inv by (simp add: rate_inv_def)
  qed
  from a b lim show ?thesis by (simp add: rate_inv_def)
qed

lemma processQueue_rate_inv:
  assumes inv: "rate_inv c s L" and le: "c \<le> now" "now \<le> startTime env"
  shows "rate_inv (startTime env) (processQueue prio now env s)
           (L @ (if dispatches prio now s then [startTime env] else []))"
proof (cases "dispatches prio now s")
  case True
  then show ?thesis
    using rate_inv_dispatch[OF inv le dispatches_budget[OF True], of "processQueue prio now env s"]
    by (simp add: processQueue_rate)
next
  case False
  show ?thesis
  proof (cases "canProcessMoreJobs prio s")
    case True
    then show ?thesis
      using False rate_inv_prune[OF inv le, of "processQueue prio now env s"]
      by (simp add: processQueue_rate)
  next
    case no: False
    have "c \<le> startTime env" using le by simp
    then show ?thesis
      using False no rate_inv_later[OF inv, of "startTime env" "processQueue prio now env s"]
      by (simp add: processQueue_rate)
  qed
qed

lemma rate_inv_immediates [simp]: "rate_inv c (s\<lparr>immediates := x\<rparr>) L = rate_inv c s L"
  by (simp add: rate_inv_def)

text \<open>
  An event that is a whole call keeps the invariant: between the rate check of a tick and
  the record of its request time nothing else runs.
\<close>

lemma step_rate_inv:
  assumes t: "timed c e s" and inv: "rate_inv c s L" and a: "atomic e"
  shows "rate_inv (clock_after c e s) (step e s) (L @ recorded e s)"
proof (cases e)
  case (EvProcessQueue prio now env)
  then show ?thesis using t processQueue_rate_inv[OF inv, of now env prio] by simp
next
  case (EvImmediate now env)
  show ?thesis
  proof (cases "immediates s")
    case Nil
    then show ?thesis
      using EvImmediate t rate_inv_later[OF inv, of "startTime env" s] by simp
  next
    case (Cons prio rest)
    have "rate_inv c (s\<lparr>immediates := rest\<rparr>) L" using inv by simp
    from processQueue_rate_inv[OF this, of now env prio] show ?thesis
      using EvImmediate Cons t by simp
  qed
next
  case (EvResetRateLimits now)
  then show ?thesis
    using t rate_inv_prune[OF inv, of now now "resetRateLimits now s"]
    by (simp add: resetRateLimits_def)
next
  case (EvAddJob j now)
  then show ?thesis using t rate_inv_later[OF inv, of now "snd (addJob j now s)"] by simp
next
  case (EvMonitor now env)
  then show ?thesis
    using clock_after_ge[OF t] rate_inv_later[OF inv, of "clock_after c e s" "step e s"]
    by (simp add: monitorRunningJobs_def)
next
  case (EvRetry now)
  then show ?thesis using t rate_inv_later[OF inv, of now "processRetryQueue now s"] by simp
next
  case (EvCleanup now)
  then show ?thesis
    using t rate_inv_later[OF inv, of now "performCleanup now s"]
    by (simp add: performCleanup_def)
next
  case (EvHalfOpenTimer now)
  then show ?thesis
    using t rate_inv_later[OF inv, of now "halfOpenTimerFires now s"]
    by (simp add: halfOpenTimerFires_def split: list.split)
next
  case (EvExpireUser uid)
  then show ?thesis using rate_inv_later[OF inv, of c "step e s"] by simp
next
  case EvExpireFailures
  then show ?thesis using rate_inv_later[OF inv, of c "step e s"] by simp
next
  case (EvExpireStatus sid)
  then show ?thesis using rate_inv_later[OF inv, of c "step e s"] by simp
qed (use a in simp_all)

text \<open>
  Hence the limit holds along a run in which no two dispatcher ticks overlap: with every
  tick one event, a window of 60 seconds holds at most \<open>RUNPOD_RATE_LIMIT\<close> recorded
  dispatch attempts.
\<close>

lemma run_rate_inv:
  "list_all atomic evs \<Longrightarrow> well_timed c evs s \<Longrightarrow> rate_inv c s L \<Longrightarrow>
   int (in_window t (L @ dispatch_log evs s)) \<le> max 0 (RUNPOD_RATE_LIMIT s)"
proof (induction evs arbitrary: c s L)
  case Nil
  then show ?case by (simp add: rate_inv_def)
next
  case (Cons e evs)
  from Cons.prems have t: "timed c e s" and a: "atomic e" and as: "list_all atomic evs"
    and w: "well_timed (clock_after c e s) evs (step e s)" by simp_all
  have "rate_inv (clock_after c e s) (step e s) (L @ recorded e s)"
    by (rule step_rate_inv[OF t Cons.prems(3) a])
  from Cons.IH[OF as w this] show ?case by simp
qed

lemma sequential_rate_limit:
  "list_all atomic evs \<Longrightarrow> runpodRequestTimes s0 = [] \<Longrightarrow> well_timed c evs s0 \<Longrightarrow>
   int (in_window t (dispatch_log evs s0)) \<le> max 0 (RUNPOD_RATE_LIMIT s0)"
proof -
  assume a: "list_all atomic evs" and e: "runpodRequestTimes s0 = []"
    and w: "well_timed c evs s0"
  have "rate_inv c s0 []" using e by (simp add: rate_inv_def in_window_def)
  from run_rate_inv[OF a w this] show ?thesis by simp
qed


subsection \<open>Well-formed states\<close>

lemma wf_state_iff:
  "wf_state c s \<longleftrightarrow>
     distinct (map fst (processingJobs s))
     \<and> (\<forall>(sid, p) \<in> set (processingJobs s).
           separationId (pj p) = sid \<and> userId (pj p) \<noteq> [] \<and> startedAt p \<le> c)
     \<and> (\<forall>j \<in> set (queue_files s). userId j \<noteq> [])
     \<and> (\<forall>j \<in> set (queue_urls s). userId j \<noteq> [])
     \<and> (\<forall>j \<in> set (queue_retry s). userId j \<noteq> [])
     \<and> 0 \<le> avgProcessingTime (metrics s)"
  by (simp add: wf_state_def list_all_iff)

lemma wf_state_frame:
  assumes "processingJobs s' = processingJobs s" "queue_files s' = queue_files s"
    "queue_urls s' = queue_urls s" "queue_retry s' = queue_retry s"
    "avgProcessingTime (metrics s') = avgProcessingTime (metrics s)"
  shows "wf_state c s' = wf_state c s"
  using assms by (simp add: wf_state_def)

lemma wf_state_mono: "wf_state c s \<Longrightarrow> c \<le> c' \<Longrightarrow> wf_state c' s"
  by (fastforce simp add: wf_state_iff)

lemma wf_state_constructor: "wf_state c constructor_state"
  by (simp add: wf_state_def constructor_state_def)

lemma set_update_subset: "set (AList.update k v xs) \<subseteq> insert (k, v) (set xs)"
  by (induction xs) auto

lemma set_delete_subset: "set (AList.delete k xs) \<subseteq> set xs"
  by (induction xs) auto

lemma wf_state_delete:
  assumes "wf_state c s" "processingJobs s' = AList.delete k (processingJobs s)"
    "queue_files s' = queue_files s"
    "queue_urls s' = queue_urls s" "queue_retry s' = queue_retry s"
    "avgProcessingTime (metrics s') = avgProcessingTime (metrics s)"
  shows "wf_state c s'"
  using assms set_delete_subset[of k "processingJobs s"]
  by (auto simp add: wf_state_iff distinct_delete)

lemma wf_state_update:
  assumes "wf_state c s" "processingJobs s' = AList.update k p (processingJobs s)"
    "separationId (pj p) = k" "userId (pj p) \<noteq> []" "startedAt p \<le> c"
    "queue_files s' = queue_files s"
    "queue_urls s' = queue_urls s" "queue_retry s' = queue_retry s"
    "avgProcessingTime (metrics s') = avgProcessingTime (metrics s)"
  shows "wf_state c s'"
  using assms set_update_subset[of k p "processingJobs s"]
  by (auto simp add: wf_state_iff distinct_update)


lemma owner_nonempty: "owner j \<noteq> []"
  by (simp add: owner_def)

lemma track_avg:
  "avgProcessingTime (metrics (startJobProcessing_track j now s)) = avgProcessingTime (metrics s)"
  by (simp add: startJobProcessing_track_def startJobProcessing_begin_def Let_def recordRunpodRequest_def updateJobStatus_def)

lemma track_wf:
  assumes wf: "wf_state c s" and own: "userId j \<noteq> []" and le: "c \<le> now"
  shows "wf_state now (startJobProcessing_track j now s)"
proof -
  let ?p = "\<lparr>pj = j, startedAt = now, pstatus = ''PROCESSING'', runpodJobId = None,
             runpodSubmittedAt = None\<rparr>"
  have w: "wf_state now s" using wf le by (rule wf_state_mono)
  have p: "processingJobs (startJobProcessing_track j now s) =
             AList.update (separationId j) ?p (processingJobs s)"
    by (simp add: track_frame)
  have ok: "separationId (pj ?p) = separationId j" "userId (pj ?p) \<noteq> []" "startedAt ?p \<le> now"
    using own by simp_all
  show ?thesis
    by (rule wf_state_update[OF w p ok]) (simp_all add: track_frame track_avg)
qed

lemma catch_wf:
  assumes wf: "wf_state c s" and own: "userId j \<noteq> []"
  shows "wf_state c (startJobProcessing_catch j err now s)"
proof -
  let ?s2 = "(handleRunpodError err now s)
               \<lparr>processingJobs := AList.delete (separationId j) (processingJobs s)\<rparr>"
  have s2: "wf_state c ?s2"
    by (rule wf_state_delete[OF wf]) (simp_all add: handleRunpodError_def Let_def)
  show ?thesis
  proof (cases "shouldRetryJob j err")
    case True
    have "wf_state c (addJobToRetryQueue j (message err) now ?s2)"
      using s2 own
      by (simp add: wf_state_iff addJobToRetryQueue_def Let_def lpush_def updateJobStatus_def)
    then show ?thesis using True by (simp add: catch_retry)
  next
    case False
    have "wf_state c (updateJobStatus (separationId j) ''FAILED''
                [(''error'', JStr (message err)), (''stage'', JStr ''runpod_submission'')] now ?s2)"
      using s2 by (simp add: wf_state_def)
    then show ?thesis using False by (simp add: startJobProcessing_catch_def Let_def)
  qed
qed

lemma accepted_wf:
  assumes wf: "wf_state c s" and own: "userId j \<noteq> []"
  shows "wf_state c (startJobProcessing_accepted j rid now dbErr s)"
proof -
  let ?sid = "separationId j"
  let ?s5 = "case map_of (processingJobs s) ?sid of
               Some processingJob \<Rightarrow>
                 s\<lparr>processingJobs := AList.update ?sid
                      (processingJob\<lparr>runpodJobId := Some rid, runpodSubmittedAt := Some now\<rparr>)
                      (processingJobs s)\<rparr>
             | None \<Rightarrow> s"
  have s5: "wf_state c ?s5"
  proof (cases "map_of (processingJobs s) ?sid")
    case None
    then show ?thesis using wf by simp
  next
    case (Some p)
    then have "(?sid, p) \<in> set (processingJobs s)" by (rule map_of_SomeD)
    then have ok: "separationId (pj p) = ?sid" "userId (pj p) \<noteq> []" "startedAt p \<le> c"
      using wf by (auto simp add: wf_state_iff)
    let ?p = "p\<lparr>runpodJobId := Some rid, runpodSubmittedAt := Some now\<rparr>"
    have ok': "separationId (pj ?p) = ?sid" "userId (pj ?p) \<noteq> []" "startedAt ?p \<le> c"
      using ok by simp_all
    have "wf_state c (s\<lparr>processingJobs := AList.update ?sid ?p (processingJobs s)\<rparr>)"
      by (rule wf_state_update[OF wf _ ok']) simp_all
    then show ?thesis using Some by simp
  qed
  show ?thesis
  proof (cases dbErr)
    case (Some err)
    then show ?thesis
      using catch_wf[OF s5 own, of err now]
      by (simp add: startJobProcessing_accepted_def Let_def)
  next
    case None
    have "wf_state c (updateJobStatus ?sid ''PROCESSING''
                        [(''message'', JStr ''Audio separation in progress...''),
                         (''runpodJobId'', JStr rid), (''progress'', JNum 25)] now ?s5)"
      using s5 by (simp add: wf_state_def)
    then show ?thesis using None
      by (simp add: startJobProcessing_accepted_def Let_def wf_state_def)
  qed
qed

lemma startJobProcessing_wf:
  assumes wf: "wf_state c s" and own: "userId j \<noteq> []" and le: "c \<le> startTime env"
  shows "wf_state (startTime env) (startJobProcessing j env s)"
  using track_wf[OF wf own le]
  by (simp add: startJobProcessing_def startJobProcessing_finish_def Let_def accepted_wf
      catch_wf own split: submit_result.split option.split)

lemma processQueue_wf:
  assumes wf: "wf_state c s" and le: "c \<le> now" "now \<le> startTime env"
  shows "wf_state (startTime env) (processQueue prio now env s)"
proof -
  have c': "c \<le> startTime env" using le by simp
  let ?s1 = "snd (canMakeRunpodRequest now s)"
  have s1: "wf_state c ?s1"
    using wf by (simp add: wf_state_def canMakeRunpodRequest_def Let_def)
  have hit: "wf_state c (?s1\<lparr>metrics := (metrics s)\<lparr>runpodRateLimitHits :=
                runpodRateLimitHits (metrics s) + 1\<rparr>\<rparr>)"
    using s1 by (simp add: wf_state_def canMakeRunpodRequest_def Let_def)
  have files: "wf_state (startTime env) (startJobProcessing (last (queue_files s)) env
                (?s1\<lparr>queue_files := butlast (queue_files s)\<rparr>))"
    if ne: "queue_files s \<noteq> []"
  proof (rule startJobProcessing_wf[OF _ _ c'])
    show "wf_state c (?s1\<lparr>queue_files := butlast (queue_files s)\<rparr>)"
      using s1 by (auto simp add: wf_state_iff canMakeRunpodRequest_same dest: in_set_butlastD)
    show "userId (last (queue_files s)) \<noteq> []"
      using wf ne last_in_set[OF ne] by (auto simp add: wf_state_iff)
  qed
  have urls: "wf_state (startTime env) (startJobProcessing (last (queue_urls s)) env
                (?s1\<lparr>queue_urls := butlast (queue_urls s)\<rparr>))"
    if ne: "queue_urls s \<noteq> []"
  proof (rule startJobProcessing_wf[OF _ _ c'])
    show "wf_state c (?s1\<lparr>queue_urls := butlast (queue_urls s)\<rparr>)"
      using s1 by (auto simp add: wf_state_iff canMakeRunpodRequest_same dest: in_set_butlastD)
    show "userId (last (queue_urls s)) \<noteq> []"
      using wf ne last_in_set[OF ne] by (auto simp add: wf_state_iff)
  qed
  show ?thesis
    using wf_state_mono[OF wf c'] wf_state_mono[OF s1 c'] wf_state_mono[OF hit c'] files urls
    by (simp add: processQueue_unfold)
qed

lemma enqueueJob_wf:
  assumes wf: "wf_state c s" and own: "uid \<noteq> []"
  shows "wf_state c (enqueueJob j uid now s)"
  using wf own by (simp add: wf_state_iff enqueueJob_frame enqueueJob_queues)

lemma checkUserLimits_wf: "wf_state c (snd (checkUserLimits uid now s)) = wf_state c s"
  by (rule wf_state_frame) (simp_all add: checkUserLimits_same)

lemma addJob_wf:
  assumes wf: "wf_state c s"
  shows "wf_state c (snd (addJob j now s))"
proof -
  have k: "wf_state c (snd (checkUserLimits (owner j) now s))"
    using wf by (simp add: checkUserLimits_wf)
  have st: "wf_state c (updateJobStatus sid st d now x) = wf_state c x" for sid st d x
    by (simp add: wf_state_def)
  have full: "wf_state c ((snd (checkUserLimits (owner j) now s))
                     \<lparr>metrics := (metrics s)\<lparr>queueFullRejections :=
                                   queueFullRejections (metrics s) + 1\<rparr>\<rparr>)"
    using k by (simp add: wf_state_def checkUserLimits_same)
  show ?thesis
    using wf k full enqueueJob_wf[OF k owner_nonempty, where j = j and now = now]
    by (simp add: addJob_unfold st)
qed

lemma processRetryQueue_wf:
  assumes wf: "wf_state c s"
  shows "wf_state c (processRetryQueue now s)"
proof (cases "queue_retry s = []")
  case True
  then show ?thesis using wf by (simp add: processRetryQueue_unfold)
next
  case False
  have popped: "wf_state c (s\<lparr>queue_retry := butlast (queue_retry s)\<rparr>)"
    using wf by (auto simp add: wf_state_iff dest: in_set_butlastD)
  have returned: "wf_state c (s\<lparr>queue_retry := last (queue_retry s) # butlast (queue_retry s)\<rparr>)"
    using wf last_in_set[OF False] by (auto simp add: wf_state_iff dest: in_set_butlastD)
  show ?thesis
    using False addJob_wf[OF popped] returned by (simp add: processRetryQueue_unfold)
qed


lemma handleJobCompletion_wf:
  assumes wf: "wf_state c s"
      and late: "\<forall>(k, p) \<in> set (processingJobs s). k = sid \<longrightarrow> c \<le> now"
  shows "wf_state c (handleJobCompletion sid r now dbErr s)"
proof (cases "map_of (processingJobs s) sid")
  case None
  then show ?thesis using wf by (simp add: handleJobCompletion_def)
next
  case (Some p)
  then have mem: "(sid, p) \<in> set (processingJobs s)" by (rule map_of_SomeD)
  then have "startedAt p \<le> c" using wf by (auto simp add: wf_state_iff)
  moreover have "c \<le> now" using late mem by auto
  ultimately have age: "0 \<le> now - startedAt p" by simp
  have avg: "0 \<le> avgProcessingTime (metrics s)" using wf by (simp add: wf_state_def)
  have "0 \<le> (of_int (now - startedAt p) :: rat) / 1000" using age by simp
  then have avg': "0 \<le> (avgProcessingTime (metrics s) + of_int (now - startedAt p) / 1000) / 2"
    using avg by simp
  let ?s1 = "s\<lparr>metrics := (metrics s)
                 \<lparr>totalProcessed := totalProcessed (metrics s) + 1,
                  avgProcessingTime :=
                    (avgProcessingTime (metrics s) + of_int (now - startedAt p) / 1000) / 2\<rparr>\<rparr>"
  have s1: "wf_state c ?s1" using wf avg' by (simp add: wf_state_def)
  show ?thesis
  proof (cases dbErr)
    case (Some err)
    then show ?thesis using s1 \<open>map_of (processingJobs s) sid = Some p\<close>
      by (simp add: handleJobCompletion_def Let_def)
  next
    case None
    have "wf_state c (handleJobCompletion sid r now None s)"
      by (rule wf_state_delete[OF s1, where k = sid])
         (simp_all add: handleJobCompletion_def Let_def \<open>map_of (processingJobs s) sid = Some p\<close>)
    then show ?thesis using None by simp
  qed
qed

lemma handleJobFailure_wf:
  assumes wf: "wf_state c s"
  shows "wf_state c (handleJobFailure sid r now dbErr s)"
proof (cases dbErr)
  case (Some err)
  then show ?thesis using wf by (simp add: handleJobFailure_def Let_def wf_state_def)
next
  case None
  have "wf_state c (handleJobFailure sid r now None s)"
    by (rule wf_state_delete[OF wf, where k = sid])
       (simp_all add: handleJobFailure_def Let_def split: option.split)
  then show ?thesis using None by simp
qed

lemma handleJobTimeout_wf:
  assumes wf: "wf_state c s"
  shows "wf_state c (handleJobTimeout sid now s)"
  by (rule wf_state_delete[OF wf, where k = sid])
     (simp_all add: handleJobTimeout_def Let_def split: option.split)

lemma updateJobProgress_wf:
  "wf_state c (updateJobProgress sid r now s) = wf_state c s"
  by (simp add: updateJobProgress_def Let_def wf_state_def)

lemma monitorJob_wf:
  assumes wf: "wf_state c s"
      and late: "\<forall>(k, p) \<in> set (processingJobs s). c \<le> mnow env k"
  shows "wf_state c (monitorJob env job s)"
proof -
  have l: "\<forall>(k, p) \<in> set (processingJobs s).
             k = separationId (pj job) \<longrightarrow> c \<le> mnow env (separationId (pj job))"
    using late by auto
  show ?thesis
    using wf handleJobCompletion_wf[OF wf l] handleJobFailure_wf[OF wf] handleJobTimeout_wf[OF wf]
    by (simp add: monitorJob_def Let_def updateJobProgress_wf split: poll_result.split)
qed

lemma monitorJob_subset:
  "set (processingJobs (monitorJob env job s)) \<subseteq> set (processingJobs s)"
  using monitorJob_processing[of env job s] set_delete_subset[of "separationId (pj job)" "processingJobs s"]
  by auto

lemma monitorLoop_wf:
  "wf_state c s \<Longrightarrow> \<forall>(k, p) \<in> set (processingJobs s). c \<le> mnow env k \<Longrightarrow>
   wf_state c (monitorLoop env jobs s)"
proof (induction jobs arbitrary: s)
  case Nil
  then show ?case by simp
next
  case (Cons job jobs)
  have w: "wf_state c (monitorJob env job s)"
    by (rule monitorJob_wf[OF Cons.prems])
  have l: "\<forall>(k, p) \<in> set (processingJobs (monitorJob env job s)). c \<le> mnow env k"
    using Cons.prems(2) monitorJob_subset[of env job s] by blast
  from Cons.IH[OF w l] show ?case by simp
qed

lemma timeoutLoop_wf: "wf_state c s \<Longrightarrow> wf_state c (timeoutLoop ids now s)"
  by (induction ids arbitrary: s) (simp_all add: handleJobTimeout_wf)

text \<open>The stretches of a tick keep the state well formed.\<close>

lemma begin_wf:
  assumes wf: "wf_state c s" and own: "userId j \<noteq> []" and le: "c \<le> now"
  shows "wf_state now (startJobProcessing_begin j now s)"
proof -
  let ?p = "\<lparr>pj = j, startedAt = now, pstatus = ''PROCESSING'', runpodJobId = None,
             runpodSubmittedAt = None\<rparr>"
  have w: "wf_state now s" using wf le by (rule wf_state_mono)
  have p: "processingJobs (startJobProcessing_begin j now s) =
             AList.update (separationId j) ?p (processingJobs s)"
    by (simp add: begin_frame)
  have ok: "separationId (pj ?p) = separationId j" "userId (pj ?p) \<noteq> []" "startedAt ?p \<le> now"
    using own by simp_all
  show ?thesis
    by (rule wf_state_update[OF w p ok]) (simp_all add: begin_frame)
qed

lemma finish_wf:
  assumes wf: "wf_state c s" and own: "userId j \<noteq> []"
  shows "wf_state c (startJobProcessing_finish j now r dbErr s)"
  using wf accepted_wf[OF wf own] catch_wf[OF wf own]
  by (simp add: startJobProcessing_finish_def split: option.split submit_result.split)

lemma processQueue_enter_wf:
  assumes wf: "wf_state c s"
  shows "wf_state c (processQueue_enter prio now s)"
  using wf
  by (auto simp add: wf_state_iff processQueue_enter_unfold canMakeRunpodRequest_same
      dest: in_set_butlastD)

lemma resume_wf:
  assumes wf: "wf_state c s"
      and own: "case suspended_job call of None \<Rightarrow> True | Some j \<Rightarrow> userId j \<noteq> []"
      and le: "c \<le> startTime env"
  shows "wf_state (startTime env) (snd (resume call env s))"
proof -
  have w: "wf_state (startTime env) s" using wf le by (rule wf_state_mono)
  show ?thesis
  proof (cases call)
    case (AwaitPop reply)
    show ?thesis
    proof (cases reply)
      case None
      then show ?thesis using AwaitPop w by simp
    next
      case (Some j)
      then show ?thesis using AwaitPop own begin_wf[OF wf _ le, of j] by simp
    qed
  next
    case (AwaitStatus j)
    have "wf_state (startTime env) (recordRunpodRequest (startTime env) s)"
      using w by (simp add: wf_state_def recordRunpodRequest_def)
    then show ?thesis using AwaitStatus by simp
  next
    case (AwaitSubmit j)
    then show ?thesis using own w finish_wf[OF w, of j] by (simp split: option.split)
  qed
qed

lemma resume_at_wf:
  assumes wf: "wf_state c s" and sus: "suspended_all (\<lambda>j. userId j \<noteq> []) s"
      and le: "c \<le> startTime env"
  shows "wf_state (startTime env) (resume_at k env s)"
proof (cases "k < length (suspended s)")
  case False
  then show ?thesis using wf_state_mono[OF wf le] by (simp add: resume_at_unfold)
next
  case True
  have own: "case suspended_job (suspended s ! k) of None \<Rightarrow> True | Some j \<Rightarrow> userId j \<noteq> []"
    using sus True by (simp add: suspended_all_def list_all_length)
  have "wf_state (startTime env) (snd (resume (suspended s ! k) env s))"
    by (rule resume_wf[OF wf own le])
  then show ?thesis using True by (simp add: resume_at_unfold wf_state_def)
qed

text \<open>
  Every event keeps the state well formed, at the clock reading it ends with, and the
  jobs of the suspended calls owned.
\<close>

lemma step_owned:
  assumes wf: "wf_state c s" and sus: "suspended_all (\<lambda>j. userId j \<noteq> []) s"
  shows "suspended_all (\<lambda>j. userId j \<noteq> []) (step e s)"
proof (cases "atomic e")
  case True
  then show ?thesis using sus by (simp add: suspended_all_atomic)
next
  case False
  have q: "list_all (\<lambda>j. userId j \<noteq> []) (queue_files s)"
          "list_all (\<lambda>j. userId j \<noteq> []) (queue_urls s)"
    using wf by (simp_all add: wf_state_def)
  have enter: "suspended_all (\<lambda>j. userId j \<noteq> [])
                 (processQueue_enter prio now (s\<lparr>immediates := rest\<rparr>))" for prio now rest
    by (rule suspended_all_enter) (use sus q in \<open>simp_all add: suspended_all_def\<close>)
  show ?thesis
  proof (cases e)
    case (EvTick prio now)
    then show ?thesis using suspended_all_enter[OF sus q] by simp
  next
    case (EvImmediateTick now)
    then show ?thesis using sus enter by (simp split: list.split)
  next
    case (EvResume k env)
    then show ?thesis using suspended_all_resume[OF sus] by simp
  qed (use False in simp_all)
qed

lemma step_wf:
  assumes t: "timed c e s" and wf: "wf_state c s"
      and sus: "suspended_all (\<lambda>j. userId j \<noteq> []) s"
  shows "wf_state (clock_after c e s) (step e s)"
proof (cases e)
  case (EvAddJob j now)
  have "wf_state c (snd (addJob j now s))" by (rule addJob_wf[OF wf])
  then show ?thesis using EvAddJob t wf_state_mono by simp
next
  case (EvProcessQueue prio now env)
  then show ?thesis using t processQueue_wf[OF wf, of now env prio] by simp
next
  case (EvImmediate now env)
  show ?thesis
  proof (cases "immediates s")
    case Nil
    then show ?thesis using EvImmediate t wf_state_mono[OF wf, of "startTime env"] by simp
  next
    case (Cons prio rest)
    have "wf_state c (s\<lparr>immediates := rest\<rparr>)" using wf by (simp add: wf_state_def)
    from processQueue_wf[OF this, of now env prio] show ?thesis
      using EvImmediate Cons t by simp
  qed
next
  case (EvMonitor now env)
  have l: "\<forall>(k, p) \<in> set (processingJobs s). c \<le> mnow env k"
    using t EvMonitor by (fastforce simp add: list_all_iff)
  have "wf_state c (monitorRunningJobs env s)"
    unfolding monitorRunningJobs_def by (rule monitorLoop_wf[OF wf l])
  then show ?thesis
    using EvMonitor clock_after_ge[OF t] wf_state_mono by simp
next
  case (EvRetry now)
  have "wf_state c (processRetryQueue now s)" by (rule processRetryQueue_wf[OF wf])
  then show ?thesis using EvRetry t wf_state_mono by simp
next
  case (EvCleanup now)
  have "wf_state c (performCleanup now s)"
    unfolding performCleanup_def Let_def by (rule timeoutLoop_wf[OF wf])
  then show ?thesis using EvCleanup t wf_state_mono by simp
next
  case (EvResetRateLimits now)
  have "wf_state c (resetRateLimits now s)" using wf by (simp add: wf_state_def resetRateLimits_def)
  then show ?thesis using EvResetRateLimits t wf_state_mono by simp
next
  case (EvHalfOpenTimer now)
  have "wf_state c (halfOpenTimerFires now s)"
    using wf by (simp add: wf_state_def halfOpenTimerFires_def split: list.split)
  then show ?thesis using EvHalfOpenTimer t wf_state_mono by simp
next
  case (EvExpireUser uid)
  then show ?thesis using wf by (simp add: wf_state_def)
next
  case EvExpireFailures
  then show ?thesis using wf by (simp add: wf_state_def)
next
  case (EvExpireStatus sid)
  then show ?thesis using wf by (simp add: wf_state_def)
next
  case (EvTick prio now)
  have "wf_state c (processQueue_enter prio now s)" by (rule processQueue_enter_wf[OF wf])
  then show ?thesis using EvTick t wf_state_mono by simp
next
  case (EvImmediateTick now)
  have "wf_state c (s\<lparr>immediates := rest\<rparr>)" for rest using wf by (simp add: wf_state_def)
  then have "wf_state c (step e s)"
    using EvImmediateTick wf processQueue_enter_wf by (simp split: list.split)
  then show ?thesis using EvImmediateTick t wf_state_mono by simp
next
  case (EvResume k env)
  then show ?thesis using t resume_at_wf[OF wf sus] by simp
qed

text \<open>
  Every state a run of the service reaches from a well-formed state, with a clock that
  does not run backwards, is well formed, however the dispatcher ticks overlap; the
  constructor's state is.
\<close>

lemma run_wf_state:
  "well_timed c evs s \<Longrightarrow> wf_state c s \<Longrightarrow> suspended_all (\<lambda>j. userId j \<noteq> []) s \<Longrightarrow>
   \<exists>c'. wf_state c' (run evs s)"
proof (induction evs arbitrary: c s)
  case Nil
  then show ?case by auto
next
  case (Cons e evs)
  from Cons.prems have t: "timed c e s"
    and w: "well_timed (clock_after c e s) evs (step e s)" by simp_all
  from Cons.IH[OF w step_wf[OF t Cons.prems(2,3)] step_owned[OF Cons.prems(2,3)]]
  show ?case by simp
qed

lemma run_avg_nonneg:
  "well_timed c evs constructor_state \<Longrightarrow>
   0 \<le> avgProcessingTime (metrics (run evs constructor_state))"
  using run_wf_state[OF _ wf_state_constructor suspended_all_constructor]
  by (auto simp add: wf_state_def)

subsection \<open>A run that opens the breaker\<close>

lemma trip_inv_constructor:
  "trip_inv [] 0 [''w1'', ''w2'', ''w3'', ''w4'', ''w5'', ''w6''] constructor_state"
  by (simp add: trip_inv_def constructor_state_def)

lemma url_job_facts:
  "separationId (url_job sid uid) = sid" "userId (url_job sid uid) = uid"
  "storageType (url_job sid uid) = ''url''" "filePath (url_job sid uid) \<noteq> []"
  by (simp_all add: url_job_def example_job_def)

lemma trip_inv_admit:
  assumes inv: "trip_inv ids 0 (uid # fresh) s"
      and new: "uid \<notin> set fresh" "uid \<noteq> []" "sid \<noteq> []" "now \<le> 3600000"
      and room: "length ids < 50"
  shows "trip_inv (sid # ids) 0 fresh (snd (addJob (url_job sid uid) now s))"
proof -
  let ?j = "url_job sid uid"
  have o: "owner ?j = uid" using new by (simp add: owner_def url_job_facts)
  have u: "users s uid = \<lparr>concurrent = 0, hourly = 0, lastHourReset = 0\<rparr>"
    using inv by (simp add: trip_inv_def)
  have k: "checkUserLimits uid now s = (True, s)"
    using new by (simp add: checkUserLimits_def Let_def u)
  have sz: "getTotalQueueSize s = length ids"
    using inv by (auto simp add: trip_inv_def getTotalQueueSize_def dest: arg_cong[where f = length])
  have b: "circuitBreakerState s = CLOSED" "MAX_QUEUE_SIZE s = 50"
    using inv by (simp_all add: trip_inv_def)
  have a: "snd (addJob ?j now s) = enqueueJob ?j uid now s"
    using new room by (simp add: addJob_unfold o k url_job_facts sz b)
  have others: "users (enqueueJob ?j uid now s) v = users s v" if "v \<noteq> uid" for v
    using that by (simp add: enqueueJob_def Let_def updateUserLimits_def updateJobStatus_def)
  have fresh: "list_all (\<lambda>v. users (enqueueJob ?j uid now s) v =
                  \<lparr>concurrent = 0, hourly = 0, lastHourReset = 0\<rparr>) fresh"
    unfolding list_all_iff
  proof
    fix v assume v: "v \<in> set fresh"
    then have "v \<noteq> uid" using new(1) by blast
    then have "users (enqueueJob ?j uid now s) v = users s v" by (rule others)
    then show "users (enqueueJob ?j uid now s) v = \<lparr>concurrent = 0, hourly = 0, lastHourReset = 0\<rparr>"
      using inv v by (simp add: trip_inv_def list_all_iff)
  qed
  have rest: "runpod_failures (enqueueJob ?j uid now s) = runpod_failures s"
    "PRIORITY_FILE_LIMIT (enqueueJob ?j uid now s) = PRIORITY_FILE_LIMIT s"
    "MAX_QUEUE_SIZE (enqueueJob ?j uid now s) = MAX_QUEUE_SIZE s"
    by (simp_all add: enqueueJob_def Let_def updateUserLimits_def updateJobStatus_def)
  show ?thesis
    unfolding a using inv fresh
    by (simp add: trip_inv_def enqueueJob_frame enqueueJob_queues url_job_facts rest)
qed

lemma reset_error_facts:
  "isServiceError reset_error" "\<not> shouldRetryJob j reset_error"
  by (simp_all add: isServiceError_def shouldRetryJob_def reset_error_def)

lemma trip_inv_failure:
  assumes inv: "trip_inv (ids @ [sid]) f fresh s"
      and few: "f < 5" and time: "0 < now" "now \<le> 60000" "0 < t"
  shows "trip_inv ids (Suc f) fresh (processQueue NORMAL now (failing_env t reset_error) s)"
proof -
  let ?env = "failing_env t reset_error"
  let ?j = "last (queue_urls s)"
  have e: "startTime ?env = t"
    by (simp add: failing_env_def)
  have "map separationId (butlast (queue_urls s)) = butlast (map separationId (queue_urls s))"
    by (rule map_butlast)
  then have q: "queue_urls s \<noteq> []" "map separationId (butlast (queue_urls s)) = ids"
    using inv by (auto simp add: trip_inv_def)
  have fp: "filePath ?j \<noteq> []"
    using inv q(1) last_in_set[OF q(1)] by (auto simp add: trip_inv_def list_all_iff)
  have sub: "submission ?j ?env = Some (Threw reset_error)"
    by (simp add: submission_rejected fp reset_error_def)
  have keep: "filter (\<lambda>x. now - 60000 < x) (runpodRequestTimes s) = runpodRequestTimes s"
    using inv time by (auto simp add: trip_inv_def list_all_iff intro!: filter_True)
  have can: "canProcessMoreJobs NORMAL s" "fst (canMakeRunpodRequest now s)"
    using inv few by (simp_all add: trip_inv_def canProcessMoreJobs_def canMakeRunpodRequest_def
        Let_def keep)
  let ?s1 = "(snd (canMakeRunpodRequest now s))\<lparr>queue_urls := butlast (queue_urls s)\<rparr>"
  let ?s4 = "startJobProcessing_track ?j t ?s1"
  have d: "processQueue NORMAL now ?env s = startJobProcessing_catch ?j reset_error t ?s4"
    using can q(1) by (simp add: processQueue_unfold startJobProcessing_Threw[OF sub] e)
  have c: "startJobProcessing_catch ?j reset_error t ?s4 =
     updateJobStatus (separationId ?j) ''FAILED''
       [(''error'', JStr (message reset_error)), (''stage'', JStr ''runpod_submission'')] t
       ((handleRunpodError reset_error t ?s4)
          \<lparr>processingJobs := AList.delete (separationId ?j) (processingJobs ?s4)\<rparr>)"
    by (simp add: startJobProcessing_catch_def Let_def reset_error_facts)
  have s1: "processingJobs ?s1 = []" "runpodRequestTimes ?s1 = runpodRequestTimes s"
    "queue_files ?s1 = []" "queue_retry ?s1 = []" "runpod_failures ?s1 = f"
    "circuitBreakerState ?s1 = CLOSED" "RUNPOD_RATE_LIMIT ?s1 = 8" "MAX_CONCURRENT_JOBS ?s1 = 5"
    "PRIORITY_FILE_LIMIT ?s1 = 3" "MAX_QUEUE_SIZE ?s1 = 50" "users ?s1 = users s"
    using inv few by (simp_all add: trip_inv_def canMakeRunpodRequest_def Let_def keep)
  have butl: "list_all (\<lambda>j. filePath j \<noteq> []) (butlast (queue_urls s))"
    using inv by (auto simp add: trip_inv_def list_all_iff dest: in_set_butlastD)
  have u: "users (handleRunpodError reset_error t ?s4) = users s"
    by (simp add: s1)
  show ?thesis
    unfolding d c using inv few time q(2) butl
    by (simp add: trip_inv_def handleRunpodError_def Let_def reset_error_facts track_frame s1
        updateJobStatus_def)
qed


lemma trip_run_reaches:
  "well_timed 0 trip_run constructor_state
   \<and> trip_inv [''a6''] 5 [] (run trip_run constructor_state)"
proof -
  have w: "well_timed 0 trip_run constructor_state"
    by (simp add: trip_run_def failing_env_def)
  have s1: "trip_inv [''a1''] 0 [''w2'', ''w3'', ''w4'', ''w5'', ''w6'']
              (run [EvAddJob (url_job ''a1'' ''w1'') 1000] constructor_state)"
    using trip_inv_admit[OF trip_inv_constructor, of "''a1''" 1000] by simp
  have s2: "trip_inv [''a2'', ''a1''] 0 [''w3'', ''w4'', ''w5'', ''w6'']
              (run (take 2 trip_run) constructor_state)"
    using trip_inv_admit[OF s1, of "''a2''" 1100] by (simp add: trip_run_def)
  have s3: "trip_inv [''a3'', ''a2'', ''a1''] 0 [''w4'', ''w5'', ''w6'']
              (run (take 3 trip_run) constructor_state)"
    using trip_inv_admit[OF s2, of "''a3''" 1200] by (simp add: trip_run_def)
  have s4: "trip_inv [''a4'', ''a3'', ''a2'', ''a1''] 0 [''w5'', ''w6'']
              (run (take 4 trip_run) constructor_state)"
    using trip_inv_admit[OF s3, of "''a4''" 1300] by (simp add: trip_run_def)
  have s5: "trip_inv [''a5'', ''a4'', ''a3'', ''a2'', ''a1''] 0 [''w6'']
              (run (take 5 trip_run) constructor_state)"
    using trip_inv_admit[OF s4, of "''a5''" 1400] by (simp add: trip_run_def)
  have s6: "trip_inv ([''a6'', ''a5'', ''a4'', ''a3'', ''a2''] @ [''a1'']) 0 []
              (run (take 6 trip_run) constructor_state)"
    using trip_inv_admit[OF s5, of "''a6''" 1500] by (simp add: trip_run_def)
  have s7: "trip_inv ([''a6'', ''a5'', ''a4'', ''a3''] @ [''a2'']) 1 []
              (run (take 7 trip_run) constructor_state)"
    using trip_inv_failure[OF s6, of 3000 3001] by (simp add: trip_run_def)
  have s8: "trip_inv ([''a6'', ''a5'', ''a4''] @ [''a3'']) 2 []
              (run (take 8 trip_run) constructor_state)"
    using trip_inv_failure[OF s7, of 11000 11001] by (simp add: trip_run_def eval_nat_numeral)
  have s9: "trip_inv ([''a6'', ''a5''] @ [''a4'']) 3 []
              (run (take 9 trip_run) constructor_state)"
    using trip_inv_failure[OF s8, of 19000 19001] by (simp add: trip_run_def eval_nat_numeral)
  have s10: "trip_inv ([''a6''] @ [''a5'']) 4 []
              (run (take 10 trip_run) constructor_state)"
    using trip_inv_failure[OF s9, of 27000 27001] by (simp add: trip_run_def eval_nat_numeral)
  have s11: "trip_inv [''a6''] 5 [] (run trip_run constructor_state)"
    using trip_inv_failure[OF s10, of 35000 35001] by (simp add: trip_run_def eval_nat_numeral)
  from w s11 show ?thesis by blast
qed


text \<open>
  Claim C1 at a failing input. The run \<open>trip_run\<close> leaves the breaker OPEN with job
  \<open>a6\<close> waiting on the NORMAL list. The next dispatcher tick pops the job, records the
  request and submits it; the remote worker accepts, the job is tracked with its remote
  id, and the breaker is still OPEN. \<open>processQueue\<close> never reads \<open>circuitBreakerState\<close>;
  only \<open>addJob\<close> does.
\<close>

theorem open_breaker_still_dispatches:
  "well_timed 0 trip_run constructor_state
   \<and> circuitBreakerState (run trip_run constructor_state) = OPEN
   \<and> map separationId (queue_urls (run trip_run constructor_state)) = [''a6'']
   \<and> processingJobs (run trip_run constructor_state) = []
   \<and> dispatches NORMAL 40000 (run trip_run constructor_state)
   \<and> queue_urls (processQueue NORMAL 40000 (accepting_env 40001 ''rp-6'')
         (run trip_run constructor_state)) = []
   \<and> map fst (processingJobs (processQueue NORMAL 40000 (accepting_env 40001 ''rp-6'')
         (run trip_run constructor_state))) = [''a6'']
   \<and> map (\<lambda>p. runpodJobId (snd p))
         (processingJobs (processQueue NORMAL 40000 (accepting_env 40001 ''rp-6'')
            (run trip_run constructor_state))) = [Some ''rp-6'']
   \<and> length (runpodRequestTimes (processQueue NORMAL 40000 (accepting_env 40001 ''rp-6'')
         (run trip_run constructor_state))) = 6
   \<and> circuitBreakerState (processQueue NORMAL 40000 (accepting_env 40001 ''rp-6'')
         (run trip_run constructor_state)) = OPEN"
proof -
  let ?s = "run trip_run constructor_state"
  let ?env = "accepting_env 40001 ''rp-6''"
  have inv: "trip_inv [''a6''] 5 [] ?s" and w: "well_timed 0 trip_run constructor_state"
    using trip_run_reaches by simp_all
  from inv obtain j where q: "queue_urls ?s = [j]" and j: "separationId j = ''a6''"
    by (auto simp add: trip_inv_def)
  have fp: "filePath j \<noteq> []" using inv q by (simp add: trip_inv_def)
  have f: "processingJobs ?s = []" "circuitBreakerState ?s = OPEN"
    "RUNPOD_RATE_LIMIT ?s = 8" "MAX_CONCURRENT_JOBS ?s = 5"
    "length (runpodRequestTimes ?s) = 5" "list_all (\<lambda>t. 0 < t) (runpodRequestTimes ?s)"
    using inv by (simp_all add: trip_inv_def)
  have keep: "filter (\<lambda>x. c < x) (runpodRequestTimes ?s) = runpodRequestTimes ?s"
    if "c \<le> 0" for c
    using f(6) that by (auto simp add: list_all_iff intro!: filter_True)
  have can: "canProcessMoreJobs NORMAL ?s" "fst (canMakeRunpodRequest 40000 ?s)"
    using keep by (simp_all add: canProcessMoreJobs_def canMakeRunpodRequest_def Let_def f)
  have d: "dispatches NORMAL 40000 ?s"
    by (simp add: dispatches_def can q)
  have e: "submission j ?env = Some (Accepted ''rp-6'')" "startTime ?env = 40001"
          "dbError ?env = None"
    by (simp_all add: submission_def fp accepting_env_def)
  let ?s1 = "(snd (canMakeRunpodRequest 40000 ?s))\<lparr>queue_urls := []\<rparr>"
  have p: "processQueue NORMAL 40000 ?env ?s =
     startJobProcessing_accepted j ''rp-6'' 40001 None (startJobProcessing_track j 40001 ?s1)"
    using can by (simp add: processQueue_unfold q startJobProcessing_Accepted[OF e(1)] e)
  have s1: "processingJobs ?s1 = []" "runpodRequestTimes ?s1 = runpodRequestTimes ?s"
    "circuitBreakerState ?s1 = OPEN" "queue_urls ?s1 = []"
    by (simp_all add: canMakeRunpodRequest_def Let_def keep f)
  have r: "queue_urls (processQueue NORMAL 40000 ?env ?s) = []
     \<and> map fst (processingJobs (processQueue NORMAL 40000 ?env ?s)) = [''a6'']
     \<and> map (\<lambda>p. runpodJobId (snd p)) (processingJobs (processQueue NORMAL 40000 ?env ?s))
         = [Some ''rp-6'']
     \<and> length (runpodRequestTimes (processQueue NORMAL 40000 ?env ?s)) = 6
     \<and> circuitBreakerState (processQueue NORMAL 40000 ?env ?s) = OPEN"
    unfolding p
    by (simp add: startJobProcessing_accepted_def Let_def track_frame s1 j f updateJobStatus_def)
  from w inv q j f d r show ?thesis by simp
qed

subsection \<open>The retry count along a run\<close>

lemma retry_inv_frame:
  assumes "queue_files s' = queue_files s" "queue_urls s' = queue_urls s"
    "queue_retry s' = queue_retry s"
  shows "retry_inv s' = retry_inv s"
  using assms by (simp add: retry_inv_def)

lemma retry_inv_constructor: "retry_inv constructor_state"
  by (simp add: retry_inv_def constructor_state_def)

lemma enqueueJob_retry_inv: "retry_inv s \<Longrightarrow> retry_inv (enqueueJob j uid now s)"
  by (simp add: retry_inv_def enqueueJob_frame enqueueJob_queues)

lemma addJob_retry_inv:
  assumes inv: "retry_inv s"
  shows "retry_inv (snd (addJob j now s))"
proof -
  have k: "retry_inv (snd (checkUserLimits (owner j) now s))"
    using inv by (simp add: retry_inv_def checkUserLimits_same)
  have st: "retry_inv (updateJobStatus sid st d now x) = retry_inv x" for sid st d x
    by (simp add: retry_inv_def)
  have full: "retry_inv ((snd (checkUserLimits (owner j) now s))
                     \<lparr>metrics := (metrics s)\<lparr>queueFullRejections :=
                                   queueFullRejections (metrics s) + 1\<rparr>\<rparr>)"
    using k by (simp add: retry_inv_def)
  show ?thesis
    using inv k full enqueueJob_retry_inv[OF k, where j = j and now = now]
    by (simp add: addJob_unfold st)
qed

lemma catch_retry_inv:
  assumes inv: "retry_inv s" and zero: "retryCount j = 0"
  shows "retry_inv (startJobProcessing_catch j err now s)"
  using inv zero
  by (simp add: startJobProcessing_catch_def Let_def retry_inv_def addJobToRetryQueue_def
      lpush_def updateJobStatus_def handleRunpodError_def)

lemma track_retry_inv: "retry_inv (startJobProcessing_track j now s) = retry_inv s"
  by (rule retry_inv_frame) (simp_all add: track_frame)

lemma accepted_retry_inv:
  assumes inv: "retry_inv s" and zero: "retryCount j = 0"
  shows "retry_inv (startJobProcessing_accepted j rid now dbErr s)"
proof -
  let ?s5 = "case map_of (processingJobs s) (separationId j) of
               Some processingJob \<Rightarrow>
                 s\<lparr>processingJobs := AList.update (separationId j)
                      (processingJob\<lparr>runpodJobId := Some rid, runpodSubmittedAt := Some now\<rparr>)
                      (processingJobs s)\<rparr>
             | None \<Rightarrow> s"
  have s5: "retry_inv ?s5" using inv by (simp add: retry_inv_def split: option.split)
  show ?thesis
    using s5 catch_retry_inv[OF s5 zero]
    by (simp add: startJobProcessing_accepted_def Let_def retry_inv_def updateJobStatus_def
        split: option.split)
qed

lemma startJobProcessing_retry_inv:
  assumes inv: "retry_inv s" and zero: "retryCount j = 0"
  shows "retry_inv (startJobProcessing j env s)"
  using inv zero
  by (simp add: startJobProcessing_def startJobProcessing_finish_def Let_def accepted_retry_inv
      catch_retry_inv track_retry_inv split: submit_result.split option.split)

lemma processQueue_retry_inv:
  assumes inv: "retry_inv s"
  shows "retry_inv (processQueue prio now env s)"
proof -
  let ?s1 = "snd (canMakeRunpodRequest now s)"
  have s1: "retry_inv ?s1" using inv by (simp add: retry_inv_def canMakeRunpodRequest_def Let_def)
  have hit: "retry_inv (?s1\<lparr>metrics := (metrics s)\<lparr>runpodRateLimitHits :=
                runpodRateLimitHits (metrics s) + 1\<rparr>\<rparr>)"
    using s1 by (simp add: retry_inv_def)
  have files: "retry_inv (startJobProcessing (last (queue_files s)) env
                (?s1\<lparr>queue_files := butlast (queue_files s)\<rparr>))"
    if ne: "queue_files s \<noteq> []"
  proof (rule startJobProcessing_retry_inv)
    show "retry_inv (?s1\<lparr>queue_files := butlast (queue_files s)\<rparr>)"
      using inv by (auto simp add: retry_inv_def list_all_iff canMakeRunpodRequest_def Let_def
          dest: in_set_butlastD)
    show "retryCount (last (queue_files s)) = 0"
      using inv last_in_set[OF ne] by (auto simp add: retry_inv_def list_all_iff)
  qed
  have urls: "retry_inv (startJobProcessing (last (queue_urls s)) env
                (?s1\<lparr>queue_urls := butlast (queue_urls s)\<rparr>))"
    if ne: "queue_urls s \<noteq> []"
  proof (rule startJobProcessing_retry_inv)
    show "retry_inv (?s1\<lparr>queue_urls := butlast (queue_urls s)\<rparr>)"
      using inv by (auto simp add: retry_inv_def list_all_iff canMakeRunpodRequest_def Let_def
          dest: in_set_butlastD)
    show "retryCount (last (queue_urls s)) = 0"
      using inv last_in_set[OF ne] by (auto simp add: retry_inv_def list_all_iff)
  qed
  show ?thesis using inv s1 hit files urls by (simp add: processQueue_unfold)
qed

lemma processRetryQueue_retry_inv:
  assumes inv: "retry_inv s"
  shows "retry_inv (processRetryQueue now s)"
proof (cases "queue_retry s = []")
  case True
  then show ?thesis using inv by (simp add: processRetryQueue_unfold)
next
  case False
  have popped: "retry_inv (s\<lparr>queue_retry := butlast (queue_retry s)\<rparr>)"
    using inv by (auto simp add: retry_inv_def list_all_iff dest: in_set_butlastD)
  have returned: "retry_inv (s\<lparr>queue_retry := last (queue_retry s) # butlast (queue_retry s)\<rparr>)"
    using inv last_in_set[OF False]
    by (auto simp add: retry_inv_def list_all_iff dest: in_set_butlastD)
  show ?thesis
    using False addJob_retry_inv[OF popped] returned by (simp add: processRetryQueue_unfold)
qed

lemma handleJobTimeout_queues [simp]:
  "queue_files (handleJobTimeout sid now s) = queue_files s"
  "queue_urls (handleJobTimeout sid now s) = queue_urls s"
  "queue_retry (handleJobTimeout sid now s) = queue_retry s"
  by (simp_all add: handleJobTimeout_def Let_def split: option.split)

lemma monitorJob_queues [simp]:
  "queue_files (monitorJob env job s) = queue_files s"
  "queue_urls (monitorJob env job s) = queue_urls s"
  "queue_retry (monitorJob env job s) = queue_retry s"
  by (simp_all add: monitorJob_def Let_def handleJobCompletion_def handleJobFailure_def
      updateJobProgress_def split: poll_result.split option.split)

lemma monitorLoop_queues [simp]:
  "queue_files (monitorLoop env jobs s) = queue_files s"
  "queue_urls (monitorLoop env jobs s) = queue_urls s"
  "queue_retry (monitorLoop env jobs s) = queue_retry s"
  by (induction jobs arbitrary: s) simp_all

lemma timeoutLoop_queues [simp]:
  "queue_files (timeoutLoop ids now s) = queue_files s"
  "queue_urls (timeoutLoop ids now s) = queue_urls s"
  "queue_retry (timeoutLoop ids now s) = queue_retry s"
  by (induction ids arbitrary: s) simp_all

text \<open>The stretches of a tick, for a job that has not been retried.\<close>

lemma finish_retry_inv:
  assumes inv: "retry_inv s" and zero: "retryCount j = 0"
  shows "retry_inv (startJobProcessing_finish j now r dbErr s)"
  using inv accepted_retry_inv[OF inv zero] catch_retry_inv[OF inv zero]
  by (simp add: startJobProcessing_finish_def split: option.split submit_result.split)

lemma processQueue_enter_retry_inv:
  assumes inv: "retry_inv s"
  shows "retry_inv (processQueue_enter prio now s)"
  using inv
  by (auto simp add: retry_inv_def list_all_iff processQueue_enter_unfold
      canMakeRunpodRequest_same dest: in_set_butlastD)

lemma resume_at_retry_inv:
  assumes inv: "retry_inv s" and sus: "suspended_all (\<lambda>j. retryCount j = 0) s"
  shows "retry_inv (resume_at k env s)"
proof (cases "k < length (suspended s)")
  case False
  then show ?thesis using inv by (simp add: resume_at_unfold)
next
  case True
  have zero: "case suspended_job (suspended s ! k) of None \<Rightarrow> True | Some j \<Rightarrow> retryCount j = 0"
    using sus True by (simp add: suspended_all_def list_all_length)
  have "retry_inv (snd (resume (suspended s ! k) env s))"
  proof (cases "suspended s ! k")
    case (AwaitPop reply)
    have "retry_inv (startJobProcessing_begin j (startTime env) s)" for j
      using inv by (simp add: retry_inv_def begin_frame)
    then show ?thesis using AwaitPop inv by (cases reply) simp_all
  next
    case (AwaitStatus j)
    then show ?thesis using inv by (simp add: retry_inv_def recordRunpodRequest_def)
  next
    case (AwaitSubmit j)
    then show ?thesis using inv zero finish_retry_inv[OF inv, of j] by (simp split: option.split)
  qed
  then show ?thesis using True by (simp add: resume_at_unfold retry_inv_def)
qed

lemma step_fresh:
  assumes inv: "retry_inv s" and sus: "suspended_all (\<lambda>j. retryCount j = 0) s"
  shows "suspended_all (\<lambda>j. retryCount j = 0) (step e s)"
proof (cases "atomic e")
  case True
  then show ?thesis using sus by (simp add: suspended_all_atomic)
next
  case False
  have q: "list_all (\<lambda>j. retryCount j = 0) (queue_files s)"
          "list_all (\<lambda>j. retryCount j = 0) (queue_urls s)"
    using inv by (simp_all add: retry_inv_def)
  have enter: "suspended_all (\<lambda>j. retryCount j = 0)
                 (processQueue_enter prio now (s\<lparr>immediates := rest\<rparr>))" for prio now rest
    by (rule suspended_all_enter) (use sus q in \<open>simp_all add: suspended_all_def\<close>)
  show ?thesis
  proof (cases e)
    case (EvTick prio now)
    then show ?thesis using suspended_all_enter[OF sus q] by simp
  next
    case (EvImmediateTick now)
    then show ?thesis using sus enter by (simp split: list.split)
  next
    case (EvResume k env)
    then show ?thesis using suspended_all_resume[OF sus] by simp
  qed (use False in simp_all)
qed

lemma step_retry_inv:
  assumes inv: "retry_inv s" and sus: "suspended_all (\<lambda>j. retryCount j = 0) s"
  shows "retry_inv (step e s)"
proof (cases e)
  case (EvAddJob j now)
  then show ?thesis using addJob_retry_inv[OF inv] by simp
next
  case (EvProcessQueue prio now env)
  then show ?thesis using processQueue_retry_inv[OF inv] by simp
next
  case (EvImmediate now env)
  have "retry_inv (s\<lparr>immediates := rest\<rparr>)" for rest using inv by (simp add: retry_inv_def)
  then show ?thesis
    using EvImmediate inv processQueue_retry_inv by (simp split: list.split)
next
  case (EvRetry now)
  then show ?thesis using processRetryQueue_retry_inv[OF inv] by simp
next
  case (EvTick prio now)
  then show ?thesis using processQueue_enter_retry_inv[OF inv] by simp
next
  case (EvImmediateTick now)
  have "retry_inv (s\<lparr>immediates := rest\<rparr>)" for rest using inv by (simp add: retry_inv_def)
  then show ?thesis
    using EvImmediateTick inv processQueue_enter_retry_inv by (simp split: list.split)
next
  case (EvResume k env)
  then show ?thesis using resume_at_retry_inv[OF inv sus] by simp
qed (use inv in \<open>simp_all add: retry_inv_def monitorRunningJobs_def performCleanup_def
       resetRateLimits_def halfOpenTimerFires_def split: list.split\<close>)

text \<open>
  In every state a run reaches from the constructor's state, however the dispatcher ticks
  overlap, a job waiting for dispatch has \<open>retryCount = 0\<close> and a job waiting for its
  retry has \<open>retryCount = 1\<close>: the cap \<open>retryCount \<ge> 3\<close> of \<open>shouldRetryJob\<close> is never met
  on a dispatch.
\<close>

lemma run_retry_inv:
  "retry_inv s \<Longrightarrow> suspended_all (\<lambda>j. retryCount j = 0) s \<Longrightarrow> retry_inv (run evs s)"
  by (induction evs arbitrary: s) (simp_all add: step_retry_inv step_fresh)

lemma run_retry_counts:
  "list_all (\<lambda>j. retryCount j = 0) (queue_files (run evs constructor_state))
   \<and> list_all (\<lambda>j. retryCount j = 0) (queue_urls (run evs constructor_state))
   \<and> list_all (\<lambda>j. retryCount j = 1) (queue_retry (run evs constructor_state))"
  using run_retry_inv[OF retry_inv_constructor suspended_all_constructor, of evs]
  by (simp add: retry_inv_def)

subsection \<open>Overlapping dispatcher ticks\<close>

text \<open>
  When dispatcher ticks overlap, the invariant of the rate limiter is lost: a call that
  has passed the rate check records its request only two stretches later, and the calls
  that check in between do not see it.
\<close>

lemma run_append: "run (es @ fs) s = run fs (run es s)"
  by (induction es arbitrary: s) simp_all

lemma dispatch_log_append:
  "dispatch_log (es @ fs) s = dispatch_log es s @ dispatch_log fs (run es s)"
  by (induction es arbitrary: s) simp_all

text \<open>
  The three stretches of the call at the head of \<open>suspended\<close>, which holds a job: the call
  leaves the list, and one request time is recorded, in the second stretch.
\<close>

lemma resume_at_head:
  assumes "suspended s = call # rest"
  shows "suspended (resume_at 0 env s) =
           (case fst (resume call env s) of None \<Rightarrow> rest | Some c \<Rightarrow> c # rest)"
        "runpodRequestTimes (resume_at 0 env s) =
           runpodRequestTimes s @ (case call of AwaitStatus j \<Rightarrow> [startTime env] | _ \<Rightarrow> [])"
        "recorded (EvResume 0 env) s = (case call of AwaitStatus j \<Rightarrow> [startTime env] | _ \<Rightarrow> [])"
  using assms by (simp_all add: resume_at_unfold resume_frame split: option.split)

lemma dispatch_stretches_effect:
  assumes h: "suspended s = call # rest" and p: "popped call"
  shows "suspended (run (dispatch_stretches t rid) s) = rest"
        "runpodRequestTimes (run (dispatch_stretches t rid) s) = runpodRequestTimes s @ [t + 1]"
        "dispatch_log (dispatch_stretches t rid) s = [t + 1]"
proof -
  obtain j where c: "call = AwaitPop (Some j)"
    using p by (cases call rule: popped.cases) simp_all
  have at: "startTime (at_time x) = x" for x by (simp add: at_time_def)
  let ?s1 = "resume_at 0 (at_time t) s"
  have s1: "suspended ?s1 = AwaitStatus j # rest" "runpodRequestTimes ?s1 = runpodRequestTimes s"
    "recorded (EvResume 0 (at_time t)) s = []"
    by (simp_all add: resume_at_head[OF h] c del: recorded.simps)
  let ?s2 = "resume_at 0 (at_time (t + 1)) ?s1"
  have s2: "suspended ?s2 = AwaitSubmit j # rest"
    "runpodRequestTimes ?s2 = runpodRequestTimes s @ [t + 1]"
    "recorded (EvResume 0 (at_time (t + 1))) ?s1 = [t + 1]"
    by (simp_all add: resume_at_head[OF s1(1)] s1(2) at del: recorded.simps)
  have sub: "submission j (accepting_env (t + 2) rid) \<noteq> None"
    by (simp add: submission_def accepting_env_def)
  let ?s3 = "resume_at 0 (accepting_env (t + 2) rid) ?s2"
  have s3: "suspended ?s3 = rest" "runpodRequestTimes ?s3 = runpodRequestTimes s @ [t + 1]"
    "recorded (EvResume 0 (accepting_env (t + 2) rid)) ?s2 = []"
    using sub by (auto simp add: resume_at_head[OF s2(1)] s2(2) simp del: recorded.simps)
  show "suspended (run (dispatch_stretches t rid) s) = rest"
       "runpodRequestTimes (run (dispatch_stretches t rid) s) = runpodRequestTimes s @ [t + 1]"
       "dispatch_log (dispatch_stretches t rid) s = [t + 1]"
    by (simp_all add: dispatch_stretches_def s1 s2 s3 del: recorded.simps)
qed

lemma dispatches_in_turn_effect:
  "list_all popped (suspended s) \<Longrightarrow> length ps = length (suspended s) \<Longrightarrow>
   suspended (run (dispatches_in_turn ps) s) = []
   \<and> runpodRequestTimes (run (dispatches_in_turn ps) s) = runpodRequestTimes s @ map (\<lambda>p. fst p + 1) ps
   \<and> dispatch_log (dispatches_in_turn ps) s = map (\<lambda>p. fst p + 1) ps"
proof (induction ps arbitrary: s)
  case Nil
  then show ?case by simp
next
  case (Cons p ps)
  obtain t rid where p: "p = (t, rid)" by (cases p)
  obtain call rest where h: "suspended s = call # rest"
    using Cons.prems(2) by (cases "suspended s") simp_all
  have pc: "popped call" and pr: "list_all popped rest" using Cons.prems(1) h by simp_all
  let ?s = "run (dispatch_stretches t rid) s"
  note e = dispatch_stretches_effect[OF h pc, of t rid]
  have "list_all popped (suspended ?s)" "length ps = length (suspended ?s)"
    using pr Cons.prems(2) h by (simp_all add: e)
  from Cons.IH[OF this] show ?case
    by (simp add: p run_append dispatch_log_append e)
qed

text \<open>The admissions and the ticks of the burst.\<close>

lemma enqueueJob_immediates:
  "immediates (enqueueJob j uid now s) =
     (if int (length (processingJobs s)) < MAX_CONCURRENT_JOBS s
      then immediates s @ [if storageType j = ''file'' \<or> storageType j = ''local'' then HIGH else NORMAL]
      else immediates s)"
  by (simp add: enqueueJob_def Let_def updateUserLimits_def updateJobStatus_def)

lemma burst_inv_constructor:
  "burst_inv 0 0 fresh constructor_state"
  by (simp add: burst_inv_def constructor_state_def list_all_iff)

lemma burst_inv_admit:
  assumes inv: "burst_inv q 0 (uid # fresh) s"
      and new: "uid \<notin> set fresh" "uid \<noteq> []" "sid \<noteq> []" "now \<le> 3600000"
      and room: "q < 50"
  shows "burst_inv (Suc q) 0 fresh (snd (addJob (url_job sid uid) now s))"
proof -
  let ?j = "url_job sid uid"
  have o: "owner ?j = uid" using new by (simp add: owner_def url_job_facts)
  have u: "users s uid = \<lparr>concurrent = 0, hourly = 0, lastHourReset = 0\<rparr>"
    using inv by (simp add: burst_inv_def)
  have k: "checkUserLimits uid now s = (True, s)"
    using new by (simp add: checkUserLimits_def Let_def u)
  have sz: "getTotalQueueSize s = q"
    using inv by (simp add: burst_inv_def getTotalQueueSize_def)
  have b: "circuitBreakerState s = CLOSED" "MAX_QUEUE_SIZE s = 50"
    using inv by (simp_all add: burst_inv_def)
  have a: "snd (addJob ?j now s) = enqueueJob ?j uid now s"
    using new room by (simp add: addJob_unfold o k url_job_facts sz b)
  have others: "users (enqueueJob ?j uid now s) v = users s v" if "v \<noteq> uid" for v
    using that by (simp add: enqueueJob_def Let_def updateUserLimits_def updateJobStatus_def)
  have fresh: "list_all (\<lambda>v. users (enqueueJob ?j uid now s) v =
                  \<lparr>concurrent = 0, hourly = 0, lastHourReset = 0\<rparr>) fresh"
    unfolding list_all_iff
  proof
    fix v assume v: "v \<in> set fresh"
    then have "v \<noteq> uid" using new(1) by blast
    then have "users (enqueueJob ?j uid now s) v = users s v" by (rule others)
    then show "users (enqueueJob ?j uid now s) v = \<lparr>concurrent = 0, hourly = 0, lastHourReset = 0\<rparr>"
      using inv v by (simp add: burst_inv_def list_all_iff)
  qed
  have rest: "PRIORITY_FILE_LIMIT (enqueueJob ?j uid now s) = PRIORITY_FILE_LIMIT s"
    "MAX_QUEUE_SIZE (enqueueJob ?j uid now s) = MAX_QUEUE_SIZE s"
    by (simp_all add: enqueueJob_def Let_def updateUserLimits_def updateJobStatus_def)
  show ?thesis
    unfolding a using inv fresh
    by (simp add: burst_inv_def enqueueJob_frame enqueueJob_queues enqueueJob_immediates
        url_job_facts rest replicate_append_same)
qed

lemma burst_inv_tick:
  assumes inv: "burst_inv (Suc q) w [] s"
  shows "burst_inv q (Suc w) [] (step (EvImmediateTick now) s)"
proof -
  let ?s = "s\<lparr>immediates := replicate q NORMAL\<rparr>"
  have st: "step (EvImmediateTick now) s = processQueue_enter NORMAL now ?s"
    using inv by (simp add: burst_inv_def)
  have can: "canProcessMoreJobs NORMAL ?s" "fst (canMakeRunpodRequest now ?s)"
    using inv by (simp_all add: burst_inv_def canProcessMoreJobs_def canMakeRunpodRequest_def Let_def)
  have ne: "queue_urls s \<noteq> []" using inv by (auto simp add: burst_inv_def)
  show ?thesis
    unfolding st using inv can ne
    by (simp add: burst_inv_def processQueue_enter_unfold canMakeRunpodRequest_def Let_def)
qed

lemma burst_inv_ticks:
  "length ts = q \<Longrightarrow> burst_inv q w [] s \<Longrightarrow> burst_inv 0 (w + q) [] (run (map EvImmediateTick ts) s)"
proof (induction ts arbitrary: q w s)
  case Nil
  then show ?case by simp
next
  case (Cons t ts)
  then obtain q' where q: "q = Suc q'" "length ts = q'" by auto
  have "burst_inv q' (Suc w) [] (step (EvImmediateTick t) s)"
    using burst_inv_tick Cons.prems(2) q(1) by simp
  from Cons.IH[OF q(2) this] show ?case using q by simp
qed

lemma burst_inv_admissions:
  "distinct (map (\<lambda>x. fst (snd x)) xs) \<Longrightarrow>
   list_all (\<lambda>(sid, uid, t). sid \<noteq> [] \<and> uid \<noteq> [] \<and> t \<le> 3600000) xs \<Longrightarrow>
   q + length xs \<le> 50 \<Longrightarrow> burst_inv q 0 (map (\<lambda>x. fst (snd x)) xs) s \<Longrightarrow>
   burst_inv (q + length xs) 0 [] (run (map admission xs) s)"
proof (induction xs arbitrary: q s)
  case Nil
  then show ?case by simp
next
  case (Cons x xs)
  obtain sid uid t where x: "x = (sid, uid, t)" by (cases x)
  have "burst_inv (Suc q) 0 (map (\<lambda>x. fst (snd x)) xs) (snd (addJob (url_job sid uid) t s))"
    using Cons.prems x by (intro burst_inv_admit) auto
  then have "burst_inv (Suc q + length xs) 0 [] (run (map admission xs) (snd (addJob (url_job sid uid) t s)))"
    using Cons.prems by (intro Cons.IH) auto
  then show ?case using x by simp
qed

lemma burst_reaches:
  "burst_inv 9 0 [] (run burst_admissions constructor_state)"
  "burst_inv 0 9 [] (run (burst_admissions @ burst_ticks) constructor_state)"
proof -
  show a: "burst_inv 9 0 [] (run burst_admissions constructor_state)"
    unfolding burst_admissions_def
    using burst_inv_admissions[OF _ _ _ burst_inv_constructor,
        of "[(''b1'', ''v1'', 1000), (''b2'', ''v2'', 1001), (''b3'', ''v3'', 1002),
        (''b4'', ''v4'', 1003), (''b5'', ''v5'', 1004), (''b6'', ''v6'', 1005),
        (''b7'', ''v7'', 1006), (''b8'', ''v8'', 1007), (''b9'', ''v9'', 1008)]"]
    by (simp add: eval_nat_numeral)
  show "burst_inv 0 9 [] (run (burst_admissions @ burst_ticks) constructor_state)"
    using burst_inv_ticks[OF _ a, of "[1010, 1011, 1012, 1013, 1014, 1015, 1016, 1017, 1018]"]
    by (simp add: run_append burst_ticks_def)
qed

text \<open>
  Claim C6 at a failing input. Along \<open>burst_run\<close>, from the constructor's state with its
  limit of 8 requests per minute, each of the nine ticks passes the rate check, because
  none of the calls before it has reached \<open>recordRunpodRequest\<close>: the check and the record
  of one call are separated by \<open>await this.redis.rpop\<close> and \<open>await this.updateJobStatus\<close>.
  When the last tick has checked, no request time is recorded and nine calls are
  suspended. All nine record their request and submit their job: nine dispatch attempts
  are recorded within 80 milliseconds, in one window of 60 seconds.
\<close>

theorem overlapping_ticks_exceed_rate_limit:
  "well_timed 0 burst_run constructor_state
   \<and> RUNPOD_RATE_LIMIT (run burst_run constructor_state) = 8
   \<and> runpodRequestTimes (run (burst_admissions @ burst_ticks) constructor_state) = []
   \<and> length (suspended (run (burst_admissions @ burst_ticks) constructor_state)) = 9
   \<and> dispatch_log burst_run constructor_state
       = [1021, 1031, 1041, 1051, 1061, 1071, 1081, 1091, 1101]
   \<and> runpodRequestTimes (run burst_run constructor_state)
       = [1021, 1031, 1041, 1051, 1061, 1071, 1081, 1091, 1101]
   \<and> in_window 1101 (dispatch_log burst_run constructor_state) = 9
   \<and> suspended (run burst_run constructor_state) = []"
proof -
  let ?ps = "[(1020, ''rp-1''), (1030, ''rp-2''), (1040, ''rp-3''), (1050, ''rp-4''),
          (1060, ''rp-5''), (1070, ''rp-6''), (1080, ''rp-7''), (1090, ''rp-8''),
          (1100::int, ''rp-9'')]"
  let ?s = "run (burst_admissions @ burst_ticks) constructor_state"
  have w: "well_timed 0 burst_run constructor_state"
    by (simp add: burst_run_def burst_admissions_def burst_ticks_def dispatch_stretches_def
        at_time_def accepting_env_def del: step.simps)
  have lim: "RUNPOD_RATE_LIMIT (run evs constructor_state) = 8" for evs
    by (induction evs rule: rev_induct) (simp_all add: run_append constructor_state_def)
  have i: "burst_inv 0 9 [] ?s" by (rule burst_reaches(2))
  then have s: "runpodRequestTimes ?s = []" "length (suspended ?s) = 9"
    "list_all popped (suspended ?s)"
    by (simp_all add: burst_inv_def)
  have quiet: "dispatch_log (burst_admissions @ burst_ticks) constructor_state = []"
    by (simp add: burst_admissions_def burst_ticks_def del: step.simps)
  have d: "suspended (run (dispatches_in_turn ?ps) ?s) = []
     \<and> runpodRequestTimes (run (dispatches_in_turn ?ps) ?s) = runpodRequestTimes ?s @ map (\<lambda>p. fst p + 1) ?ps
     \<and> dispatch_log (dispatches_in_turn ?ps) ?s = map (\<lambda>p. fst p + 1) ?ps"
    by (rule dispatches_in_turn_effect[OF s(3)]) (simp add: s(2))
  have r: "run burst_run constructor_state = run (dispatches_in_turn ?ps) ?s"
    unfolding burst_run_def by (simp only: run_append append_assoc[symmetric])
  have l: "dispatch_log burst_run constructor_state = map (\<lambda>p. fst p + 1) ?ps"
    unfolding burst_run_def
    by (simp only: append_assoc[symmetric] dispatch_log_append[of "burst_admissions @ burst_ticks"]
        quiet d append_Nil)
  have log: "dispatch_log burst_run constructor_state
       = [1021, 1031, 1041, 1051, 1061, 1071, 1081, 1091, 1101]"
    unfolding l by simp
  have times: "runpodRequestTimes (run burst_run constructor_state)
       = [1021, 1031, 1041, 1051, 1061, 1071, 1081, 1091, 1101]"
    unfolding r using d s(1) by simp
  have win: "in_window 1101 (dispatch_log burst_run constructor_state) = 9"
    unfolding log by (simp add: in_window_def)
  have e: "suspended (run burst_run constructor_state) = []"
    unfolding r using d by simp
  from w lim[of burst_run] s(1,2) log times win e show ?thesis by simp
qed

end
